(* ===== verification/Prelude.thy ===== *)
theory Prelude
  imports Main "HOL-Library.Word" "HOL-Library.Multiset"
begin

text \<open>
  Shared vocabulary of the development: the fixed-width integers of the Rust sources,
  byte buffers, network-byte-order marshalling (\<^verbatim>\<open>to_be_bytes\<close>, \<^verbatim>\<open>from_be_bytes\<close>
  and the byteorder and bytes calls that are documented to agree with them), the outcome
  of code that may panic, and the generic lemmas on lists, words and association lists
  that the component theories use.

  \<^item> \<open>result\<close>: a Rust \<^verbatim>\<open>Result\<close>, \<open>Inl\<close> the error and \<open>Inr\<close> the value.
  \<^item> \<open>panics\<close>: a computation that may panic, \<open>None\<close> being the panic.
\<close>

unbundle bit_operations_syntax

section \<open>Types\<close>

type_synonym u8 = "8 word"
type_synonym u16 = "16 word"
type_synonym u32 = "32 word"
type_synonym u64 = "64 word"
type_synonym u128 = "128 word"
type_synonym bytes = "u8 list"
type_synonym ('e, 'a) result = "'e + 'a"
type_synonym 'a panics = "'a option"

text \<open>
  \<^verbatim>\<open>Duration\<close> and \<^verbatim>\<open>Instant\<close> of the standard library, counted in nanoseconds;
  an instant is counted from an arbitrary origin.
\<close>

type_synonym duration = nat
type_synonym instant = nat

definition from_millis :: "nat \<Rightarrow> duration" where
  "from_millis n = n * 1000000"

definition as_millis :: "duration \<Rightarrow> nat" where
  "as_millis d = d div 1000000"

abbreviation from_secs :: "nat \<Rightarrow> duration" where
  "from_secs n \<equiv> n * 1000000000"

named_theorems be_simps "network byte order marshalling"
named_theorems res_iff "when a fallible computation succeeds"

section \<open>Results\<close>

fun bind_res :: "('e, 'a) result \<Rightarrow> ('a \<Rightarrow> ('e, 'b) result) \<Rightarrow> ('e, 'b) result" where
  "bind_res (Inl e) f = Inl e"
| "bind_res (Inr x) f = f x"

lemma bind_res_Inr_iff [res_iff]:
  "bind_res m f = Inr y \<longleftrightarrow> (\<exists>x. m = Inr x \<and> f x = Inr y)"
  by (cases m) auto

lemma bind_res_cong [fundef_cong]:
  "m = m' \<Longrightarrow> (\<And>x. m' = Inr x \<Longrightarrow> f x = g x) \<Longrightarrow> bind_res m f = bind_res m' g"
  by (cases m') auto

definition ok_or :: "'a option \<Rightarrow> 'e \<Rightarrow> ('e, 'a) result" where
  "ok_or m e = (case m of None \<Rightarrow> Inl e | Some x \<Rightarrow> Inr x)"

lemma ok_or_simps [simp]: "ok_or None e = Inl e" "ok_or (Some x) e = Inr x"
  by (simp_all add: ok_or_def)

lemma ok_or_Inr_iff [res_iff]: "ok_or m e = Inr x \<longleftrightarrow> m = Some x"
  by (cases m) auto

section \<open>Network byte order\<close>

text \<open>
  \<open>to_be n w\<close> is the \<open>n\<close> low bytes of \<open>w\<close>, most significant first; \<open>from_be bs\<close>
  reads a byte string back.
\<close>

fun to_be :: "nat \<Rightarrow> 'a::len word \<Rightarrow> bytes" where
  "to_be 0 w = []"
| "to_be (Suc n) w = ucast (drop_bit (8 * n) w) # to_be n w"

definition from_be :: "bytes \<Rightarrow> 'a::len word" where
  "from_be bs = foldl (\<lambda>acc b. push_bit 8 acc OR ucast b) 0 bs"

lemma length_to_be [simp]: "length (to_be n w) = n"
  by (induction n) auto

lemma from_be_Nil [simp]: "from_be [] = 0"
  by (simp add: from_be_def)

lemma from_be_snoc: "from_be (bs @ [b]) = push_bit 8 (from_be bs) OR ucast b"
  by (simp add: from_be_def)

lemma to_be_snoc: "to_be (Suc n) w = to_be n (drop_bit 8 w) @ [ucast w]"
  by (induction n) (auto simp: add.commute)

lemma ucast_push_or_low:
  fixes a :: "'a::len word" and b :: u8
  assumes "8 \<le> LENGTH('a)"
  shows "(ucast (push_bit 8 a OR ucast b) :: u8) = b"
  using assms by (intro bit_eqI) (auto simp: bit_simps)

lemma drop_push_or_high:
  fixes a :: "'a::len word" and b :: u8
  assumes "\<And>i. LENGTH('a) \<le> i + 8 \<Longrightarrow> \<not> bit a i" and "8 \<le> LENGTH('a)"
  shows "drop_bit 8 (push_bit 8 a OR ucast b) = a"
proof (rule bit_eqI)
  fix i
  show "bit (drop_bit 8 (push_bit 8 a OR ucast b)) i \<longleftrightarrow> bit a i"
    using assms(1) [of i]
    by (cases "i + 8 < LENGTH('a)") (auto simp: bit_simps add.commute dest: bit_imp_le_length)
qed

lemma from_be_high_bits:
  "8 * length bs \<le> LENGTH('a) \<Longrightarrow> bit (from_be bs :: 'a::len word) i \<Longrightarrow> i < 8 * length bs"
proof (induction bs arbitrary: i rule: rev_induct)
  case Nil
  then show ?case by simp
next
  case (snoc b bs)
  show ?case
  proof (cases "i < 8")
    case True
    then show ?thesis by simp
  next
    case False
    with snoc.prems have "bit (from_be bs :: 'a word) (i - 8)"
      by (auto simp: from_be_snoc bit_simps dest: bit_imp_le_length)
    with snoc.IH [of "i - 8"] snoc.prems(1) show ?thesis by simp
  qed
qed

lemma to_be_from_be:
  "8 * length bs \<le> LENGTH('a) \<Longrightarrow> to_be (length bs) (from_be bs :: 'a::len word) = bs"
proof (induction bs rule: rev_induct)
  case Nil
  then show ?case by simp
next
  case (snoc b bs)
  have "\<not> bit (from_be bs :: 'a word) i" if "LENGTH('a) \<le> i + 8" for i
    using from_be_high_bits [of bs i, where 'a = 'a] snoc.prems that by fastforce
  then have "drop_bit 8 (push_bit 8 (from_be bs) OR ucast b :: 'a word) = from_be bs"
    using snoc.prems by (intro drop_push_or_high) auto
  moreover have "(ucast (push_bit 8 (from_be bs) OR ucast b :: 'a word) :: u8) = b"
    using snoc.prems by (intro ucast_push_or_low) simp
  ultimately show ?case
    using snoc by (simp add: from_be_snoc to_be_snoc del: to_be.simps(2))
qed

lemma take_bit_8_push_or:
  "push_bit 8 (take_bit m (drop_bit 8 w)) OR ucast (ucast w :: u8)
     = (take_bit (m + 8) w :: 'a::len word)"
  by (rule bit_eqI) (auto simp: bit_simps)

lemma from_be_to_be [be_simps]:
  "from_be (to_be n w) = (take_bit (8 * n) w :: 'a::len word)"
proof (induction n arbitrary: w)
  case 0
  then show ?case by simp
next
  case (Suc n)
  then show ?case
    by (simp add: to_be_snoc from_be_snoc take_bit_8_push_or add.commute del: to_be.simps(2))
qed

lemma from_be_to_be_full:
  "8 * n = LENGTH('a) \<Longrightarrow> from_be (to_be n w) = (w :: 'a::len word)"
  by (simp add: from_be_to_be)

text \<open>Reads at the front of a slice; \<open>None\<close> is the end-of-file error of the reader.\<close>

definition read_be :: "nat \<Rightarrow> bytes \<Rightarrow> ('a::len word \<times> bytes) option" where
  "read_be n bs = (if length bs < n then None else Some (from_be (take n bs), drop n bs))"

abbreviation read_u8 :: "bytes \<Rightarrow> (u8 \<times> bytes) option" where "read_u8 \<equiv> read_be 1"
abbreviation read_u16 :: "bytes \<Rightarrow> (u16 \<times> bytes) option" where "read_u16 \<equiv> read_be 2"
abbreviation read_u32 :: "bytes \<Rightarrow> (u32 \<times> bytes) option" where "read_u32 \<equiv> read_be 4"
abbreviation read_u64 :: "bytes \<Rightarrow> (u64 \<times> bytes) option" where "read_u64 \<equiv> read_be 8"
abbreviation read_u128 :: "bytes \<Rightarrow> (u128 \<times> bytes) option" where "read_u128 \<equiv> read_be 16"

abbreviation put_u16 :: "u16 \<Rightarrow> bytes" where "put_u16 \<equiv> to_be 2"
abbreviation put_u32 :: "u32 \<Rightarrow> bytes" where "put_u32 \<equiv> to_be 4"
abbreviation put_u64 :: "u64 \<Rightarrow> bytes" where "put_u64 \<equiv> to_be 8"
abbreviation put_u128 :: "u128 \<Rightarrow> bytes" where "put_u128 \<equiv> to_be 16"

lemma read_be_append [be_simps]:
  "8 * n = LENGTH('a) \<Longrightarrow> read_be n (to_be n w @ bs) = Some (w :: 'a::len word, bs)"
  by (simp add: read_be_def from_be_to_be_full)

lemma read_be_whole [be_simps]:
  "8 * n = LENGTH('a) \<Longrightarrow> read_be n (to_be n w) = Some (w :: 'a::len word, [])"
  using read_be_append [of n w "[]"] by simp

lemma read_be_short [be_simps]: "length bs < n \<Longrightarrow> read_be n bs = None"
  by (simp add: read_be_def)

lemma from_be_single [simp]: "from_be [b] = (b :: u8)"
  by (simp add: from_be_def)

lemma read_u8_Cons [be_simps]: "read_be (Suc 0) (b # bs) = Some (b :: u8, bs)"
  by (simp add: read_be_def)

lemma read_be_SomeD:
  "read_be n bs = Some (w, rest) \<Longrightarrow> n \<le> length bs \<and> rest = drop n bs \<and> w = from_be (take n bs)"
  by (auto simp: read_be_def split: if_splits)

section \<open>Numbers\<close>

text \<open>\<^verbatim>\<open>u16::try_from\<close> on a \<^verbatim>\<open>usize\<close>.\<close>

definition u16_try_from :: "nat \<Rightarrow> u16 option" where
  "u16_try_from n = (if n < 65536 then Some (of_nat n) else None)"

lemma unat_of_nat_u16: "n < 65536 \<Longrightarrow> unat (of_nat n :: u16) = n"
  by (simp add: unat_of_nat take_bit_nat_eq_self)

lemma u16_try_from_Some_iff [res_iff]:
  "u16_try_from n = Some w \<longleftrightarrow> n < 65536 \<and> w = of_nat n"
  by (auto simp: u16_try_from_def)

lemma u16_try_from_unat: "u16_try_from n = Some w \<Longrightarrow> unat w = n"
  by (auto simp: u16_try_from_Some_iff unat_of_nat_u16)

lemma unat_u16_less [simp]: "unat (w :: u16) < 65536"
  using unsigned_less [of w] by simp

section \<open>Lists\<close>

lemma take_Suc_nth_drop:
  "i < length xs \<Longrightarrow> xs = take i xs @ xs ! i # drop (Suc i) xs"
  by (simp add: id_take_nth_drop)

lemma find_split:
  "find P xs = Some x \<Longrightarrow> \<exists>as bs. xs = as @ x # bs \<and> P x \<and> (\<forall>a\<in>set as. \<not> P a)"
proof (induction xs)
  case Nil
  then show ?case by simp
next
  case (Cons a xs)
  show ?case
  proof (cases "P a")
    case True
    with Cons.prems have "a # xs = [] @ x # xs \<and> P x" by simp
    then show ?thesis by (metis empty_iff list.set(1))
  next
    case False
    with Cons obtain as bs where "xs = as @ x # bs" "P x" "\<forall>b\<in>set as. \<not> P b"
      by (metis find.simps(2))
    with False have "a # xs = (a # as) @ x # bs \<and> P x \<and> (\<forall>b\<in>set (a # as). \<not> P b)"
      by simp
    then show ?thesis by blast
  qed
qed

text \<open>
  Updating the first element that satisfies a predicate: what
  \<^verbatim>\<open>iter_mut().find(..)\<close> followed by a write through the reference does.
\<close>

fun update_first :: "('a \<Rightarrow> bool) \<Rightarrow> ('a \<Rightarrow> 'a) \<Rightarrow> 'a list \<Rightarrow> 'a list" where
  "update_first P f [] = []"
| "update_first P f (x # xs) = (if P x then f x # xs else x # update_first P f xs)"

lemma length_update_first [simp]: "length (update_first P f xs) = length xs"
  by (induction xs) auto

lemma map_update_first:
  "(\<And>x. P x \<Longrightarrow> g (f x) = g x) \<Longrightarrow> map g (update_first P f xs) = map g xs"
  by (induction xs) auto

lemma set_update_first_subset:
  "set (update_first P f xs) \<subseteq> set xs \<union> f ` {x \<in> set xs. P x}"
  by (induction xs) auto

lemma update_first_all:
  "(\<forall>x\<in>set xs. Q x) \<Longrightarrow> (\<And>x. x \<in> set xs \<Longrightarrow> P x \<Longrightarrow> Q x \<Longrightarrow> Q (f x)) \<Longrightarrow>
     \<forall>x\<in>set (update_first P f xs). Q x"
  using set_update_first_subset [of P f xs] by blast

lemma update_first_none: "find P xs = None \<Longrightarrow> update_first P f xs = xs"
  by (induction xs) (auto split: if_splits)

section \<open>Text and socket addresses\<close>

text \<open>The bytes of an ASCII literal.\<close>

definition ascii :: "string \<Rightarrow> bytes" where
  "ascii s = map of_char s"

datatype IpAddr = IpV4 u32 | IpV6 u128

text \<open>The last two fields of an IPv6 socket address are its flow info and scope id.\<close>

datatype SocketAddr = SockV4 u32 u16 | SockV6 u128 u16 u32 u32

fun sock_ip :: "SocketAddr \<Rightarrow> IpAddr" where
  "sock_ip (SockV4 ip _) = IpV4 ip"
| "sock_ip (SockV6 ip _ _ _) = IpV6 ip"

fun sock_port :: "SocketAddr \<Rightarrow> u16" where
  "sock_port (SockV4 _ port) = port"
| "sock_port (SockV6 _ port _ _) = port"

fun sock_new :: "IpAddr \<Rightarrow> u16 \<Rightarrow> SocketAddr" where
  "sock_new (IpV4 ip) port = SockV4 ip port"
| "sock_new (IpV6 ip) port = SockV6 ip port 0 0"

section \<open>UTF-8\<close>

definition cont :: "u8 \<Rightarrow> bool" where
  "cont b \<longleftrightarrow> 0x80 \<le> b \<and> b \<le> 0xBF"

text \<open>The well-formed byte sequences of the Unicode standard, what \<^verbatim>\<open>from_utf8\<close> accepts.\<close>

fun utf8_valid :: "bytes \<Rightarrow> bool" where
  "utf8_valid [] = True"
| "utf8_valid (a # bs) =
     (if a \<le> 0x7F then utf8_valid bs
      else case bs of
        [] \<Rightarrow> False
      | b # cs \<Rightarrow>
          if 0xC2 \<le> a \<and> a \<le> 0xDF then cont b \<and> utf8_valid cs
          else (case cs of
            [] \<Rightarrow> False
          | c # ds \<Rightarrow>
              if a = 0xE0 then 0xA0 \<le> b \<and> b \<le> 0xBF \<and> cont c \<and> utf8_valid ds
              else if a = 0xED then 0x80 \<le> b \<and> b \<le> 0x9F \<and> cont c \<and> utf8_valid ds
              else if 0xE1 \<le> a \<and> a \<le> 0xEF then cont b \<and> cont c \<and> utf8_valid ds
              else (case ds of
                [] \<Rightarrow> False
              | d # es \<Rightarrow>
                  if a = 0xF0 then 0x90 \<le> b \<and> b \<le> 0xBF \<and> cont c \<and> cont d \<and> utf8_valid es
                  else if 0xF1 \<le> a \<and> a \<le> 0xF3 then cont b \<and> cont c \<and> cont d \<and> utf8_valid es
                  else if a = 0xF4 then 0x80 \<le> b \<and> b \<le> 0x8F \<and> cont c \<and> cont d \<and> utf8_valid es
                  else False)))"

end
