(* ===== verification/Rtp_Counters.thy ===== *)
theory Rtp_Counters
  imports Prelude
begin

text \<open>
  The newtypes and counters of \<^verbatim>\<open>media/rtp/src/lib.rs\<close>: wire-width sequence numbers and
  timestamps, their extended 64-bit forms and the guess of an extended value from a
  truncated one. Arithmetic is that of \<^verbatim>\<open>u64\<close>, with wrap-around.
\<close>

section \<open>Newtypes\<close>

datatype Ssrc = Ssrc (ssrc_0: u32)

datatype SequenceNumber = SequenceNumber (seq_0: u16)

datatype ExtendedSequenceNumber = ExtendedSequenceNumber (eseq_0: u64)

datatype RtpTimestamp = RtpTimestamp (ts_0: u32)

datatype ExtendedRtpTimestamp = ExtendedRtpTimestamp (ets_0: u64)

text \<open>The derived \<^verbatim>\<open>Ord\<close> of the one-field structs compares the field.\<close>

instantiation ExtendedSequenceNumber :: linorder
begin

definition less_eq_ExtendedSequenceNumber where
  "a \<le> b \<longleftrightarrow> eseq_0 a \<le> eseq_0 b"

definition less_ExtendedSequenceNumber where
  "a < b \<longleftrightarrow> eseq_0 a < eseq_0 b"

instance
  by standard
    (auto simp: less_eq_ExtendedSequenceNumber_def less_ExtendedSequenceNumber_def
      ExtendedSequenceNumber.expand)

end

instantiation ExtendedRtpTimestamp :: linorder
begin

definition less_eq_ExtendedRtpTimestamp where
  "a \<le> b \<longleftrightarrow> ets_0 a \<le> ets_0 b"

definition less_ExtendedRtpTimestamp where
  "a < b \<longleftrightarrow> ets_0 a < ets_0 b"

instance
  by standard
    (auto simp: less_eq_ExtendedRtpTimestamp_def less_ExtendedRtpTimestamp_def
      ExtendedRtpTimestamp.expand)

end

section \<open>Operations\<close>

definition abs_diff :: "u64 \<Rightarrow> u64 \<Rightarrow> u64" where
  "abs_diff a b = (if a < b then b - a else a - b)"

definition saturating_sub :: "u64 \<Rightarrow> u64 \<Rightarrow> u64" where
  "saturating_sub a b = (if a < b then 0 else a - b)"

definition wrapping_counter_to_u64_counter :: "u64 \<Rightarrow> u64 \<Rightarrow> u64 \<Rightarrow> u64" where
  "wrapping_counter_to_u64_counter reference got mx =
     (let mul = saturating_sub (reference div mx) 1;
          low = mul * mx + got;
          high = (mul + 1) * mx + got
      in if abs_diff low reference < abs_diff high reference then low else high)"

definition seq_increase_one ::
    "ExtendedSequenceNumber \<Rightarrow> SequenceNumber \<times> ExtendedSequenceNumber" where
  "seq_increase_one self =
     (let n = eseq_0 self + 1
      in (SequenceNumber (ucast (n AND 0xFFFF)), ExtendedSequenceNumber n))"

definition seq_rollover_count :: "ExtendedSequenceNumber \<Rightarrow> u64" where
  "seq_rollover_count self = drop_bit 16 (eseq_0 self)"

definition seq_guess_extended ::
    "ExtendedSequenceNumber \<Rightarrow> SequenceNumber \<Rightarrow> ExtendedSequenceNumber" where
  "seq_guess_extended self seq =
     ExtendedSequenceNumber (wrapping_counter_to_u64_counter (eseq_0 self) (ucast (seq_0 seq)) 0xFFFF)"

definition ts_truncated :: "ExtendedRtpTimestamp \<Rightarrow> RtpTimestamp" where
  "ts_truncated self = RtpTimestamp (ucast (ets_0 self))"

definition ts_rollover_count :: "ExtendedRtpTimestamp \<Rightarrow> u64" where
  "ts_rollover_count self = drop_bit 32 (ets_0 self)"

definition ts_guess_extended ::
    "ExtendedRtpTimestamp \<Rightarrow> RtpTimestamp \<Rightarrow> ExtendedRtpTimestamp" where
  "ts_guess_extended self seq =
     ExtendedRtpTimestamp
       (wrapping_counter_to_u64_counter (ets_0 self) (ucast (ts_0 seq)) 0xFFFFFFFF)"

section \<open>Arithmetic without overflow\<close>

text \<open>
  The guess on natural numbers: the same two candidates, without a width. It agrees
  with the code as long as the reference stays clear of the top of the \<^verbatim>\<open>u64\<close> range.
\<close>

definition dist_nat :: "nat \<Rightarrow> nat \<Rightarrow> nat" where
  "dist_nat a b = (if a < b then b - a else a - b)"

definition guess_nat :: "nat \<Rightarrow> nat \<Rightarrow> nat \<Rightarrow> nat" where
  "guess_nat r g m =
     (let low = (r div m - 1) * m + g; high = (r div m - 1 + 1) * m + g
      in if dist_nat low r < dist_nat high r then low else high)"

lemma unat_abs_diff: "unat (abs_diff a b) = dist_nat (unat a) (unat b)"
  by (auto simp: abs_diff_def dist_nat_def word_less_nat_alt unat_sub word_le_nat_alt)

lemma unat_saturating_sub: "unat (saturating_sub a b) = unat a - unat b"
  by (auto simp: saturating_sub_def word_less_nat_alt unat_sub word_le_nat_alt)

lemma unat_mul_add_u64:
  fixes m x g :: u64
  assumes "unat m * unat x + unat g < 2 ^ 64"
  shows "unat (m * x + g) = unat m * unat x + unat g"
proof -
  have "unat (m * x) = unat m * unat x"
    using assms by (intro iffD1 [OF unat_mult_lem]) simp
  then show ?thesis
    using assms by (subst iffD1 [OF unat_add_lem]) simp_all
qed

lemma pred_div_mult_le: "(r div m - 1 + 1) * m \<le> max r (m::nat)"
proof (cases "r div m")
  case 0
  then show ?thesis by simp
next
  case (Suc q)
  have "r div m * m \<le> r" by simp
  with Suc show ?thesis by simp
qed

lemma unat_wrapping_counter:
  assumes bound: "unat reference < 2 ^ 62" "unat got < 2 ^ 62" "unat mx < 2 ^ 62"
  shows "unat (wrapping_counter_to_u64_counter reference got mx)
           = guess_nat (unat reference) (unat got) (unat mx)"
proof -
  define q where "q = unat reference div unat mx - 1"
  have mul: "unat (saturating_sub (reference div mx) 1) = q"
    by (simp add: unat_saturating_sub unat_div q_def)
  have hi: "(q + 1) * unat mx < 2 ^ 62"
    using pred_div_mult_le [of "unat reference" "unat mx"] bound(1,3) unfolding q_def
    by linarith
  have "q < 2 ^ 62"
    using bound(1) div_le_dividend [of "unat reference" "unat mx"] unfolding q_def by linarith
  then have mul1: "unat (saturating_sub (reference div mx) 1 + 1) = q + 1"
    using mul by (subst iffD1 [OF unat_add_lem]) simp_all
  have low: "unat (saturating_sub (reference div mx) 1 * mx + got) = q * unat mx + unat got"
    using hi bound(2) mul by (subst unat_mul_add_u64) simp_all
  have high: "unat ((saturating_sub (reference div mx) 1 + 1) * mx + got)
                = (q + 1) * unat mx + unat got"
    using hi bound(2) mul1 by (subst unat_mul_add_u64) simp_all
  show ?thesis
    unfolding wrapping_counter_to_u64_counter_def guess_nat_def Let_def word_less_nat_alt
      unat_abs_diff low high q_def [symmetric]
    by (simp only: if_distrib [of unat] low high)
qed

lemma guess_nat_forward_first_cycle: "r < m \<Longrightarrow> r \<le> g \<Longrightarrow> guess_nat r g m = g"
  by (simp add: guess_nat_def Let_def dist_nat_def)

lemma guess_nat_backward_first_cycle:
  "r < m \<Longrightarrow> g < r \<Longrightarrow> 2 * (r - g) < m \<Longrightarrow> guess_nat r g m = g"
  by (simp add: guess_nat_def Let_def dist_nat_def)

lemma guess_nat_later_cycle:
  assumes "m \<le> r" "g \<le> m" "0 < m"
  shows "guess_nat r g m = (if r mod m < g \<and> m < 2 * (g - r mod m) then (r div m - 1) * m + g else r div m * m + g)"
proof -
  from assms obtain q where q: "r div m = Suc q"
    by (metis div_greater_zero_iff gr0_implies_Suc)
  have r: "r = Suc q * m + r mod m" by (metis q div_mult_mod_eq)
  have "dist_nat (q * m + g) r = m + r mod m - g" using assms(2) by (subst r) (simp add: dist_nat_def)
  moreover have "dist_nat (Suc q * m + g) r = (if r mod m < g then g - r mod m else r mod m - g)"
    by (subst (1) r) (simp add: dist_nat_def)
  ultimately show ?thesis using assms(2) by (auto simp: guess_nat_def Let_def q)
qed

section \<open>The counters as instances of one contract\<close>

text \<open>
  Both extended counters use the same guess with a different modulus. The contract of a
  modulus, and what the guess gives for it: within the first cycle a value ahead of the
  reference, or less than half a cycle behind it, is found exactly; once the reference has
  passed the modulus the guess is the value in the cycle of the reference, or in the one
  before if it is more than half a cycle ahead.
\<close>

locale wrapping_modulus =
  fixes mx :: u64
  assumes mx_pos: "0 < unat mx" and mx_small: "unat mx < 2 ^ 33"
begin

lemma unat_guess:
  "unat r < 2 ^ 62 \<Longrightarrow> unat g < 2 ^ 33 \<Longrightarrow>
     unat (wrapping_counter_to_u64_counter r g mx) = guess_nat (unat r) (unat g) (unat mx)"
  using mx_small by (intro unat_wrapping_counter) simp_all

lemma tracks_first_cycle:
  assumes "unat r < unat mx" "unat g < 2 ^ 33"
    and near: "unat r \<le> unat g \<or> 2 * (unat r - unat g) < unat mx"
  shows "wrapping_counter_to_u64_counter r g mx = g"
proof -
  have "unat (wrapping_counter_to_u64_counter r g mx) = unat g"
    using assms mx_small
    by (cases "unat r \<le> unat g")
      (simp_all add: unat_guess guess_nat_forward_first_cycle guess_nat_backward_first_cycle)
  then show ?thesis by (simp add: word_unat_eq_iff)
qed

lemma later_cycle:
  assumes "unat mx \<le> unat r" "unat r < 2 ^ 62" "unat g \<le> unat mx"
  shows "unat (wrapping_counter_to_u64_counter r g mx)
    = (if unat r mod unat mx < unat g \<and> unat mx < 2 * (unat g - unat r mod unat mx)
       then (unat r div unat mx - 1) * unat mx + unat g else unat r div unat mx * unat mx + unat g)"
  using assms mx_pos mx_small by (simp add: unat_guess guess_nat_later_cycle)

end

interpretation seq_counter: wrapping_modulus "0xFFFF"
  by unfold_locales simp_all

interpretation ts_counter: wrapping_modulus "0xFFFFFFFF"
  by unfold_locales simp_all

lemma unat_ucast_u16_u64 [simp]: "unat (ucast (w :: u16) :: u64) = unat w"
  using less_trans [OF unat_u16_less [of w]]
  by (simp add: unsigned_ucast_eq take_bit_nat_eq_self_iff)

lemma unat_ucast_u32_u64 [simp]: "unat (ucast (w :: u32) :: u64) = unat w"
  using unsigned_less [of w, where 'a = nat]
  by (simp add: unsigned_ucast_eq take_bit_nat_eq_self_iff)

lemma unat_u32_less [simp]: "unat (w :: u32) < 4294967296"
  using unsigned_less [of w] by simp


section \<open>Properties\<close>

text \<open>
  as long as the reference sequence number has not left the first cycle, the guess is
  exact: a received number ahead of the reference, or less than half a cycle behind it,
  is extended to itself.
\<close>

theorem seq_guess_tracks_first_cycle:
  assumes "unat (eseq_0 r) < 65535"
    and "unat (eseq_0 r) \<le> unat (seq_0 s) \<or> 2 * (unat (eseq_0 r) - unat (seq_0 s)) < 65535"
  shows "seq_guess_extended r s = ExtendedSequenceNumber (ucast (seq_0 s))"
  using assms less_trans [OF unat_u16_less [of "seq_0 s"]]
  by (simp add: seq_guess_extended_def seq_counter.tracks_first_cycle)

theorem seq_guess_tracks_first_cycle_witness:
  "seq_guess_extended (ExtendedSequenceNumber 100) (SequenceNumber 103) = ExtendedSequenceNumber 103"
  using seq_guess_tracks_first_cycle [of "ExtendedSequenceNumber 100" "SequenceNumber 103"]
  by simp

text \<open>
  C38: once the reference timestamp has reached the modulus \<^verbatim>\<open>u32::MAX\<close> (and as long as it is
  below 2^62) the guess is the received timestamp in the cycle of the reference, or in the
  cycle before if there it would be more than half a cycle ahead. No cycle is ever added to
  that of the reference: a timestamp that has wrapped is placed before the reference.
\<close>

theorem ts_guess_never_enters_next_cycle:
  assumes "4294967295 \<le> unat (ets_0 r)" "unat (ets_0 r) < 2 ^ 62"
  defines "q \<equiv> unat (ets_0 r) div 4294967295" and "s \<equiv> unat (ets_0 r) mod 4294967295"
  shows "unat (ets_0 (ts_guess_extended r t))
      = (if s < unat (ts_0 t) \<and> 4294967295 < 2 * (unat (ts_0 t) - s) then q - 1 else q) * 4294967295 + unat (ts_0 t)
    \<and> (unat (ts_0 t) < s \<longrightarrow> ts_guess_extended r t < r)"
proof -
  have "unat (ts_0 t) \<le> 4294967295" using unat_u32_less [of "ts_0 t"] by linarith
  then have guess: "unat (ets_0 (ts_guess_extended r t))
      = (if s < unat (ts_0 t) \<and> 4294967295 < 2 * (unat (ts_0 t) - s) then q - 1 else q) * 4294967295 + unat (ts_0 t)"
    using ts_counter.later_cycle [of "ets_0 r" "ucast (ts_0 t)"] assms(1,2) by (simp add: ts_guess_extended_def q_def s_def)
  have "unat (ets_0 r) = q * 4294967295 + s" by (simp add: q_def s_def)
  then show ?thesis using guess by (simp add: less_ExtendedRtpTimestamp_def word_less_nat_alt)
qed

theorem ts_guess_never_enters_next_cycle_witness:
  "unat (ets_0 (ts_guess_extended (ExtendedRtpTimestamp 8589934589) (RtpTimestamp 0))) = 4294967295
   \<and> ts_guess_extended (ExtendedRtpTimestamp 8589934589) (RtpTimestamp 0) < ExtendedRtpTimestamp 8589934589
   \<and> unat (ets_0 (ts_guess_extended (ExtendedRtpTimestamp 4294967296) (RtpTimestamp 4294967290))) = 4294967290"
  using ts_guess_never_enters_next_cycle [of "ExtendedRtpTimestamp 8589934589" "RtpTimestamp 0"]
    ts_guess_never_enters_next_cycle [of "ExtendedRtpTimestamp 4294967296" "RtpTimestamp 4294967290"]
  by simp

text \<open>
  incrementing an extended sequence number returns the low 16 bits of the new value
  and moves the rollover count up by one exactly when those bits wrapped to zero.
\<close>

theorem seq_increase_one_spec:
  assumes "unat (eseq_0 n) + 1 < 2 ^ 64"
  shows "unat (seq_0 (fst (seq_increase_one n))) = (unat (eseq_0 n) + 1) mod 65536
    \<and> unat (seq_rollover_count (snd (seq_increase_one n)))
        = unat (seq_rollover_count n)
          + (if seq_0 (fst (seq_increase_one n)) = 0 then 1 else 0)"
proof -
  let ?n = "unat (eseq_0 n)"
  have inc: "unat (eseq_0 n + 1) = ?n + 1"
    using assms by (subst iffD1 [OF unat_add_lem]) simp_all
  have low: "unat (ucast ((eseq_0 n + 1) AND 0xFFFF) :: u16) = (?n + 1) mod 65536"
  proof -
    have "(eseq_0 n + 1) AND 0xFFFF = take_bit 16 (eseq_0 n + 1)"
      by (simp add: take_bit_eq_mask mask_eq_exp_minus_1)
    then show ?thesis
      by (simp add: unsigned_ucast_eq take_bit_eq_mod unat_mod inc)
  qed
  have roll: "unat (drop_bit 16 w) = unat w div 65536" for w :: u64
    by (simp add: drop_bit_eq_div unat_div)
  have "seq_0 (fst (seq_increase_one n)) = 0 \<longleftrightarrow> (?n + 1) mod 65536 = 0"
    using low by (simp add: seq_increase_one_def Let_def word_unat_eq_iff)
  moreover have "(?n + 1) div 65536 = ?n div 65536 + (if (?n + 1) mod 65536 = 0 then 1 else 0)"
    by (simp add: div_Suc mod_Suc)
  ultimately show ?thesis
    using low by (simp add: seq_increase_one_def seq_rollover_count_def Let_def roll inc)
qed

theorem seq_increase_one_spec_witness:
  "fst (seq_increase_one (ExtendedSequenceNumber 65535)) = SequenceNumber 0
   \<and> unat (seq_rollover_count (snd (seq_increase_one (ExtendedSequenceNumber 65535)))) = 1"
  using seq_increase_one_spec [of "ExtendedSequenceNumber 65535"]
  by (simp add: seq_increase_one_def seq_rollover_count_def)

end
