(* ===== verification/Rtp_Packet.thy ===== *)
theory Rtp_Packet
  imports Rtp_Counters
begin

text \<open>
  RTP header extensions (\<^verbatim>\<open>media/rtp/src/extensions.rs\<close>) and RTP packets
  (\<^verbatim>\<open>media/rtp/src/rtp_packet.rs\<close>). The iterators of the source are the lists of the
  items they yield. The rtp-types crate, which builds and parses the fixed RTP header, is a
  parameter: \<open>build\<close> serialises the parts the code hands to the packet builder and
  \<open>rtp_parse\<close> is the crate's parser.
\<close>

section \<open>Extension elements: writing\<close>

record RtpExtensionsWriter =
  ew_writer :: bytes
  ew_len :: nat
  ew_two_byte :: bool

definition ew_new :: "bytes \<Rightarrow> bool \<Rightarrow> RtpExtensionsWriter" where
  "ew_new writer two_byte = \<lparr>ew_writer = writer, ew_len = 0, ew_two_byte = two_byte\<rparr>"

definition ew_with :: "RtpExtensionsWriter \<Rightarrow> u8 \<Rightarrow> bytes \<Rightarrow> RtpExtensionsWriter panics" where
  "ew_with self eid data =
     (if ew_two_byte self then
        if length data \<le> 255 then
          Some (self\<lparr>ew_writer := ew_writer self @ [eid, of_nat (length data)] @ data,
                     ew_len := ew_len self + (length data + 2)\<rparr>)
        else None
      else if length data \<le> 15 \<and> data \<noteq> [] then
        Some (self\<lparr>ew_writer := ew_writer self @ [of_nat (length data) OR push_bit 4 eid] @ data,
                   ew_len := ew_len self + (length data + 1)\<rparr>)
      else None)"

definition padding_32_bit_boundry :: "nat \<Rightarrow> nat" where
  "padding_32_bit_boundry i =
     (if i mod 4 = 0 then 0 else if i mod 4 = 1 then 3 else if i mod 4 = 2 then 2 else 1)"

definition ew_finish :: "RtpExtensionsWriter \<Rightarrow> u16 \<times> bytes" where
  "ew_finish self =
     (if ew_two_byte self then 0xBEDE else 0x0100,
      ew_writer self @ replicate (padding_32_bit_boundry (ew_len self)) 0)"

text \<open>Chained calls \<^verbatim>\<open>.with(..).with(..)\<close>, one per element.\<close>

fun ew_with_all :: "RtpExtensionsWriter \<Rightarrow> (u8 \<times> bytes) list \<Rightarrow> RtpExtensionsWriter panics" where
  "ew_with_all self [] = Some self"
| "ew_with_all self ((eid, data) # es) =
     (case ew_with self eid data of None \<Rightarrow> None | Some self' \<Rightarrow> ew_with_all self' es)"

section \<open>Extension elements: parsing\<close>

fun parse_onebyte :: "bytes \<Rightarrow> (u8 \<times> bytes) list" where
  "parse_onebyte [] = []"
| "parse_onebyte (b # remaining) =
     (if b = 0 then []
      else let eid = drop_bit 4 (b AND 0xF0); len = unat (b AND 0x0F) + 1
           in if eid = 15 then []
              else if len \<le> length remaining
                   then (eid, take len remaining) # parse_onebyte (drop len remaining)
                   else [])"

fun parse_twobyte :: "bytes \<Rightarrow> (u8 \<times> bytes) list" where
  "parse_twobyte (eid # len # remaining) =
     (if eid = 0 \<and> len = 0 then []
      else if unat len \<le> length remaining
           then (eid, take (unat len) remaining) # parse_twobyte (drop (unat len) remaining)
           else [])"
| "parse_twobyte _ = []"

definition parse_extensions :: "u16 \<Rightarrow> bytes \<Rightarrow> (u8 \<times> bytes) list" where
  "parse_extensions profile data =
     (if profile = 0xBEDE then parse_onebyte data
      else if profile AND 0xFFF = 0x100 then parse_twobyte data
      else [])"

section \<open>Packets\<close>

record RtpExtensions =
  ext_mid :: "bytes option"

record RtpExtensionIds =
  ids_mid :: "u8 option"

record RtpPacket =
  pkt_pt :: u8
  pkt_sequence_number :: SequenceNumber
  pkt_ssrc :: Ssrc
  pkt_timestamp :: RtpTimestamp
  pkt_extensions :: RtpExtensions
  pkt_payload :: bytes

text \<open>What the rtp-types builder is given and what its parser returns.\<close>

record rtp_parts =
  rp_pt :: u8
  rp_seq :: u16
  rp_ssrc :: u32
  rp_ts :: u32
  rp_extension :: "(u16 \<times> bytes) option"
  rp_payload :: bytes

definition from_packet :: "RtpExtensionIds \<Rightarrow> u16 \<Rightarrow> bytes \<Rightarrow> RtpExtensions" where
  "from_packet ids profile extension_data =
     foldl (\<lambda>this (eid, data). if Some eid = ids_mid ids then this\<lparr>ext_mid := Some data\<rparr> else this)
       \<lparr>ext_mid = None\<rparr> (parse_extensions profile extension_data)"

definition extensions_write ::
    "RtpExtensions \<Rightarrow> RtpExtensionIds \<Rightarrow> rtp_parts \<Rightarrow> rtp_parts panics" where
  "extensions_write self ids packet_builder =
     (case (ids_mid ids, ext_mid self) of
        (Some eid, Some mid) \<Rightarrow>
          (case ew_with (ew_new [] (length mid \<le> 16)) eid mid of
             None \<Rightarrow> None
           | Some w \<Rightarrow> Some (packet_builder\<lparr>rp_extension := Some (ew_finish w)\<rparr>))
      | _ \<Rightarrow> Some packet_builder)"

definition write_vec ::
    "(rtp_parts \<Rightarrow> bytes panics) \<Rightarrow> RtpPacket \<Rightarrow> RtpExtensionIds \<Rightarrow> bytes \<Rightarrow> bytes panics" where
  "write_vec build self ids vec =
     (case extensions_write (pkt_extensions self) ids
             \<lparr>rp_pt = pkt_pt self, rp_seq = seq_0 (pkt_sequence_number self),
              rp_ssrc = ssrc_0 (pkt_ssrc self), rp_ts = ts_0 (pkt_timestamp self),
              rp_extension = None, rp_payload = pkt_payload self\<rparr> of
        None \<Rightarrow> None
      | Some builder \<Rightarrow> map_option (\<lambda>out. vec @ out) (build builder))"

definition to_vec ::
    "(rtp_parts \<Rightarrow> bytes panics) \<Rightarrow> RtpPacket \<Rightarrow> RtpExtensionIds \<Rightarrow> bytes panics" where
  "to_vec build self ids = write_vec build self ids []"

definition rtp_packet_parse ::
    "(bytes \<Rightarrow> ('e, rtp_parts) result) \<Rightarrow> RtpExtensionIds \<Rightarrow> bytes \<Rightarrow> ('e, RtpPacket) result" where
  "rtp_packet_parse rtp_parse ids packet =
     bind_res (rtp_parse packet) (\<lambda>parsed.
       Inr \<lparr>pkt_pt = rp_pt parsed,
            pkt_sequence_number = SequenceNumber (rp_seq parsed),
            pkt_ssrc = Ssrc (rp_ssrc parsed),
            pkt_timestamp = RtpTimestamp (rp_ts parsed),
            pkt_extensions =
              (case rp_extension parsed of
                 Some (profile, extension_data) \<Rightarrow> from_packet ids profile extension_data
               | None \<Rightarrow> \<lparr>ext_mid = None\<rparr>),
            pkt_payload = rp_payload parsed\<rparr>)"

text \<open>The \<^verbatim>\<open>Vec\<close> sink handed to the builder.\<close>

record RtpPacketWriterVec =
  wv_output :: bytes
  wv_padding :: "u8 option"

definition wv_push :: "RtpPacketWriterVec \<Rightarrow> bytes \<Rightarrow> RtpPacketWriterVec" where
  "wv_push self data = self\<lparr>wv_output := wv_output self @ data\<rparr>"

definition wv_padding_set :: "RtpPacketWriterVec \<Rightarrow> u8 \<Rightarrow> RtpPacketWriterVec" where
  "wv_padding_set self n = self\<lparr>wv_padding := Some n\<rparr>"

definition resize :: "nat \<Rightarrow> bytes \<Rightarrow> bytes" where
  "resize n bs = take n bs @ replicate (n - length bs) 0"

definition wv_finish :: "RtpPacketWriterVec \<Rightarrow> RtpPacketWriterVec panics" where
  "wv_finish self =
     (case wv_padding self of
        None \<Rightarrow> Some self
      | Some padding \<Rightarrow>
          if length (wv_output self) + unat padding = 0 then None
          else Some \<lparr>wv_output =
                       resize (length (wv_output self) + unat padding - 1) (wv_output self) @ [padding],
                     wv_padding = None\<rparr>)"

section \<open>Lemmas\<close>

lemma padding_aligned: "(n + padding_32_bit_boundry n) mod 4 = 0"
  unfolding padding_32_bit_boundry_def by presburger

lemma padding_less: "padding_32_bit_boundry n < 4"
  by (simp add: padding_32_bit_boundry_def)

lemma parse_twobyte_padding: "n < 4 \<Longrightarrow> parse_twobyte (replicate n 0) = []"
  by (cases n; cases "n - 1") auto

lemma unat_of_nat_u8: "n \<le> 255 \<Longrightarrow> unat (of_nat n :: u8) = n"
  by (simp add: unat_of_nat take_bit_nat_eq_self)

text \<open>The elements a two-byte header can carry and a parser can tell from padding.\<close>

definition twobyte_ok :: "u8 \<times> bytes \<Rightarrow> bool" where
  "twobyte_ok e \<longleftrightarrow> length (snd e) \<le> 255 \<and> (fst e \<noteq> 0 \<or> snd e \<noteq> [])"

definition twobyte_elem :: "u8 \<times> bytes \<Rightarrow> bytes" where
  "twobyte_elem e = [fst e, of_nat (length (snd e))] @ snd e"

lemma ew_with_all_twobyte:
  "ew_two_byte w \<Longrightarrow> (\<forall>e\<in>set es. twobyte_ok e) \<Longrightarrow>
     ew_with_all w es = Some (w\<lparr>ew_writer := ew_writer w @ concat (map twobyte_elem es),
       ew_len := ew_len w + length (concat (map twobyte_elem es))\<rparr>)"
proof (induction es arbitrary: w)
  case Nil
  then show ?case by simp
next
  case (Cons e es)
  obtain eid data where e: "e = (eid, data)" by (cases e)
  with Cons.prems have "length data \<le> 255" by (simp add: twobyte_ok_def)
  with Cons show ?case by (simp add: e ew_with_def twobyte_elem_def)
qed

lemma parse_twobyte_elem:
  assumes "twobyte_ok e"
  shows "parse_twobyte (twobyte_elem e @ rest) = e # parse_twobyte rest"
proof (cases e)
  case (Pair eid data)
  with assms have "length data \<le> 255" "\<not> (eid = 0 \<and> data = [])"
    by (auto simp: twobyte_ok_def)
  moreover from this have "unat (of_nat (length data) :: u8) = length data"
    by (simp add: unat_of_nat_u8)
  moreover from this have "(of_nat (length data) :: u8) = 0 \<longleftrightarrow> data = []"
    by (metis length_0_conv unat_eq_zero)
  ultimately show ?thesis by (simp add: Pair twobyte_elem_def)
qed

lemma parse_twobyte_elems:
  "(\<forall>e\<in>set es. twobyte_ok e) \<Longrightarrow> n < 4 \<Longrightarrow>
     parse_twobyte (concat (map twobyte_elem es) @ replicate n 0) = es"
  by (induction es) (auto simp: parse_twobyte_padding parse_twobyte_elem)

lemma nibbles_of_small:
  assumes "unat (b :: u8) < 16"
  shows "drop_bit 4 (b AND 0xF0) = 0" "b AND 0x0F = b"
proof -
  have low: "take_bit 4 b = b"
    using assms by (simp add: word_unat_eq_iff unsigned_take_bit_eq take_bit_nat_eq_self)
  then have "\<not> bit b i" if "4 \<le> i" for i
    using that by (metis bit_take_bit_iff not_less)
  then show "drop_bit 4 (b AND 0xF0) = 0"
    by (intro bit_eqI) (simp add: bit_simps)
  show "b AND 0x0F = b"
    using low by (simp add: take_bit_eq_mask mask_eq_exp_minus_1)
qed

lemma parse_onebyte_small:
  assumes "unat b < 16" "b \<noteq> 0"
  shows "parse_onebyte (b # rest) =
    (if unat b + 1 \<le> length rest
     then (0, take (unat b + 1) rest) # parse_onebyte (drop (unat b + 1) rest) else [])"
  using assms by (simp only: parse_onebyte.simps(2) Let_def nibbles_of_small [OF assms(1)]) simp

section \<open>Properties\<close>

text \<open>
  the two-byte element format round-trips. Any sequence of elements of at most 255
  bytes, none of them the all-zero element that doubles as padding, is written without a
  panic, fills whole 32-bit words, and the two-byte parser reads exactly these elements
  back.
\<close>

theorem twobyte_elements_roundtrip:
  assumes "\<forall>e\<in>set es. twobyte_ok e"
  shows "\<exists>w. ew_with_all (ew_new [] True) es = Some w
    \<and> length (snd (ew_finish w)) mod 4 = 0
    \<and> parse_twobyte (snd (ew_finish w)) = es"
  using assms padding_aligned padding_less
  by (simp add: ew_with_all_twobyte ew_new_def ew_finish_def parse_twobyte_elems)

theorem twobyte_elements_roundtrip_witness:
  "\<exists>w. ew_with_all (ew_new [] True) [(1, [7, 8]), (2, [])] = Some w
    \<and> length (snd (ew_finish w)) mod 4 = 0
    \<and> parse_twobyte (snd (ew_finish w)) = [(1, [7, 8]), (2, [])]"
  using twobyte_elements_roundtrip [of "[(1, [7, 8]), (2, [])]"] by (simp add: twobyte_ok_def)

text \<open>
  a one-byte \<^verbatim>\<open>mid\<close> is not read back by this crate. The writer chooses the two-byte
  layout for short values and labels it with the one-byte profile, so for every extension
  id the one-byte header can carry the parser of the same crate finds no \<^verbatim>\<open>mid\<close> in what
  was written.
\<close>

theorem short_mid_not_read_back:
  assumes "0 < unat eid" "unat eid < 16"
  shows "\<exists>b profile body.
      extensions_write \<lparr>ext_mid = Some [m]\<rparr> \<lparr>ids_mid = Some eid\<rparr> parts = Some b
      \<and> rp_extension b = Some (profile, body)
      \<and> ext_mid (from_packet \<lparr>ids_mid = Some eid\<rparr> profile body) = None"
proof -
  have nz: "eid \<noteq> 0" using assms(1) by auto
  have small: "k = 1 \<or> k = 2" if "0 < k" "k + 1 \<le> 3" for k :: nat
    using that by linarith
  have "parse_onebyte [eid, 1, m, 0] = [] \<or> (\<exists>d. parse_onebyte [eid, 1, m, 0] = [(0, d)])"
    using small [of "unat eid"] assms nz by (auto simp: parse_onebyte_small simp del: parse_onebyte.simps(2)) simp
  then have "ext_mid (from_packet \<lparr>ids_mid = Some eid\<rparr> 0xBEDE [eid, 1, m, 0]) = None"
    using nz by (auto simp: from_packet_def parse_extensions_def)
  then show ?thesis
    by (simp add: extensions_write_def ew_with_def ew_new_def ew_finish_def
        padding_32_bit_boundry_def)
qed

theorem short_mid_not_read_back_witness:
  "\<exists>b profile body.
      extensions_write \<lparr>ext_mid = Some [0x30]\<rparr> \<lparr>ids_mid = Some 1\<rparr>
        \<lparr>rp_pt = 0, rp_seq = 1, rp_ssrc = 2, rp_ts = 3, rp_extension = None, rp_payload = []\<rparr> = Some b
      \<and> rp_extension b = Some (profile, body)
      \<and> ext_mid (from_packet \<lparr>ids_mid = Some 1\<rparr> profile body) = None"
  by (rule short_mid_not_read_back) simp_all

text \<open>
  over an RTP header codec that parses what it builds, every packet that is serialised
  parses back to the same payload type, sequence number, SSRC, timestamp and payload, and
  without a \<^verbatim>\<open>mid\<close> extension id to the packet without extensions.
\<close>

theorem rtp_packet_fields_roundtrip:
  assumes codec: "\<And>p out. build p = Some out \<Longrightarrow> rtp_parse out = Inr p"
    and written: "to_vec build pkt ids = Some out"
  shows "\<exists>q. rtp_packet_parse rtp_parse ids out = Inr q
    \<and> pkt_pt q = pkt_pt pkt \<and> pkt_sequence_number q = pkt_sequence_number pkt
    \<and> pkt_ssrc q = pkt_ssrc pkt \<and> pkt_timestamp q = pkt_timestamp pkt
    \<and> pkt_payload q = pkt_payload pkt
    \<and> (ids_mid ids = None \<longrightarrow> ext_mid (pkt_extensions q) = None)"
proof -
  from written obtain b where
    b: "extensions_write (pkt_extensions pkt) ids
          \<lparr>rp_pt = pkt_pt pkt, rp_seq = seq_0 (pkt_sequence_number pkt),
           rp_ssrc = ssrc_0 (pkt_ssrc pkt), rp_ts = ts_0 (pkt_timestamp pkt),
           rp_extension = None, rp_payload = pkt_payload pkt\<rparr> = Some b"
    and out: "build b = Some out"
    by (auto simp: to_vec_def write_vec_def split: option.splits)
  from b have "rp_pt b = pkt_pt pkt \<and> rp_seq b = seq_0 (pkt_sequence_number pkt)
      \<and> rp_ssrc b = ssrc_0 (pkt_ssrc pkt) \<and> rp_ts b = ts_0 (pkt_timestamp pkt)
      \<and> rp_payload b = pkt_payload pkt \<and> (ids_mid ids = None \<longrightarrow> rp_extension b = None)"
    by (auto simp: extensions_write_def split: option.splits)
  then show ?thesis
    by (simp add: rtp_packet_parse_def codec [OF out])
qed

theorem rtp_packet_fields_roundtrip_witness:
  "\<exists>q. rtp_packet_parse
      (\<lambda>out. if out = [1] then Inr \<lparr>rp_pt = 9, rp_seq = 4, rp_ssrc = 5, rp_ts = 6,
                                   rp_extension = None, rp_payload = [3]\<rparr> else Inl ())
      \<lparr>ids_mid = None\<rparr> [1] = Inr q \<and> pkt_payload q = [3]"
proof -
  let ?p = "\<lparr>rp_pt = 9, rp_seq = 4, rp_ssrc = 5, rp_ts = 6, rp_extension = None, rp_payload = [3]\<rparr>"
  let ?build = "\<lambda>p. if p = ?p then Some [1 :: u8] else None"
  let ?parse = "\<lambda>out. if out = [1 :: u8] then Inr ?p else Inl ()"
  let ?pkt = "\<lparr>pkt_pt = 9, pkt_sequence_number = SequenceNumber 4, pkt_ssrc = Ssrc 5,
    pkt_timestamp = RtpTimestamp 6, pkt_extensions = \<lparr>ext_mid = None\<rparr>, pkt_payload = [3]\<rparr>"
  have "to_vec ?build ?pkt \<lparr>ids_mid = None\<rparr> = Some [1]"
    by (simp add: to_vec_def write_vec_def extensions_write_def)
  moreover have "?parse out = Inr p" if "?build p = Some out" for p out
    using that by (auto split: if_splits)
  ultimately have "\<exists>q. rtp_packet_parse ?parse \<lparr>ids_mid = None\<rparr> [1] = Inr q
      \<and> pkt_payload q = pkt_payload ?pkt"
    using rtp_packet_fields_roundtrip [of ?build ?parse ?pkt "\<lparr>ids_mid = None\<rparr>" "[1]"] by blast
  then show ?thesis by simp
qed

end
