(* ===== verification/Jitter_Buffer.thy ===== *)
theory Jitter_Buffer
  imports Rtp_Packet
begin

text \<open>
  The jitter buffer of \<^verbatim>\<open>media/rtp/src/session/jitter_buffer.rs\<close>: a queue of entries with
  consecutive sequence numbers, vacant where a packet is still missing. Front of the list
  is the front of the \<^verbatim>\<open>VecDeque\<close>. \<^verbatim>\<open>pop\<close> asserts that it only skips vacant entries;
  a failed assertion is the panic \<open>None\<close>.
\<close>

section \<open>State and operations\<close>

datatype QueueEntry =
    Vacant ExtendedSequenceNumber
  | Occupied ExtendedRtpTimestamp ExtendedSequenceNumber RtpPacket

fun entry_seq :: "QueueEntry \<Rightarrow> ExtendedSequenceNumber" where
  "entry_seq (Vacant s) = s"
| "entry_seq (Occupied _ s _) = s"

fun is_vacant :: "QueueEntry \<Rightarrow> bool" where
  "is_vacant (Vacant _) = True"
| "is_vacant (Occupied _ _ _) = False"

record JitterBuffer =
  jb_max_entries :: nat
  jb_queue :: "QueueEntry list"
  jb_last_sequence_number_returned :: "ExtendedSequenceNumber option"
  jb_dropped :: u64
  jb_received :: u64
  jb_lost :: u64

definition jb_default :: JitterBuffer where
  "jb_default = \<lparr>jb_max_entries = 1000, jb_queue = [], jb_last_sequence_number_returned = None,
     jb_dropped = 0, jb_received = 0, jb_lost = 0\<rparr>"

definition jb_drop_one :: "JitterBuffer \<Rightarrow> JitterBuffer" where
  "jb_drop_one self = self\<lparr>jb_dropped := jb_dropped self + 1\<rparr>"

text \<open>The length check at the end of \<^verbatim>\<open>push\<close>.\<close>

definition jb_limit :: "JitterBuffer \<Rightarrow> JitterBuffer" where
  "jb_limit self =
     (if length (jb_queue self) > jb_max_entries self
      then jb_drop_one (self\<lparr>jb_queue := tl (jb_queue self)\<rparr>) else self)"

definition jb_vacants :: "ExtendedSequenceNumber \<Rightarrow> nat \<Rightarrow> QueueEntry list" where
  "jb_vacants s gap = map (\<lambda>i. Vacant (ExtendedSequenceNumber (eseq_0 s + of_nat i))) [1..<gap]"

definition jb_push ::
    "JitterBuffer \<Rightarrow> ExtendedRtpTimestamp \<Rightarrow> ExtendedSequenceNumber \<Rightarrow> RtpPacket \<Rightarrow> JitterBuffer" where
  "jb_push self timestamp sequence_number packet =
     (let new = Occupied timestamp sequence_number packet in
      if (case jb_last_sequence_number_returned self of
            Some seq \<Rightarrow> sequence_number \<le> seq | None \<Rightarrow> False)
      then jb_drop_one self
      else if jb_queue self = [] then self\<lparr>jb_queue := [new]\<rparr>
      else let entry = last (jb_queue self) in
        if sequence_number < entry_seq entry then
          (case find (\<lambda>e. entry_seq e = sequence_number) (rev (jb_queue self)) of
             Some e \<Rightarrow>
               if is_vacant e then
                 self\<lparr>jb_queue :=
                   rev (update_first (\<lambda>e. entry_seq e = sequence_number) (\<lambda>_. new)
                          (rev (jb_queue self)))\<rparr>
               else jb_drop_one self
           | None \<Rightarrow> jb_limit self)
        else if entry_seq entry = sequence_number then
          jb_limit (if is_vacant entry then self\<lparr>jb_queue := butlast (jb_queue self) @ [new]\<rparr>
                    else jb_drop_one self)
        else
          let gap = unat (eseq_0 sequence_number - eseq_0 (entry_seq entry)) in
          jb_limit (self\<lparr>jb_queue :=
            jb_queue self @ jb_vacants (entry_seq entry) gap @ [new]\<rparr>))"

fun position :: "('a \<Rightarrow> bool) \<Rightarrow> 'a list \<Rightarrow> nat option" where
  "position P [] = None"
| "position P (x # xs) = (if P x then Some 0 else map_option Suc (position P xs))"

fun due :: "ExtendedRtpTimestamp \<Rightarrow> QueueEntry \<Rightarrow> bool" where
  "due max_timestamp (Vacant _) = False"
| "due max_timestamp (Occupied timestamp _ _) = (ets_0 timestamp \<le> ets_0 max_timestamp)"

definition jb_pop ::
    "JitterBuffer \<Rightarrow> ExtendedRtpTimestamp \<Rightarrow> (RtpPacket option \<times> JitterBuffer) panics" where
  "jb_pop self max_timestamp =
     (case position (due max_timestamp) (jb_queue self) of
        None \<Rightarrow> Some (None, self)
      | Some num_vacant \<Rightarrow>
          if list_all is_vacant (take num_vacant (jb_queue self)) then
            (case drop num_vacant (jb_queue self) of
               Occupied _ sequence_number packet # rest \<Rightarrow>
                 Some (Some packet,
                   self\<lparr>jb_queue := rest, jb_lost := jb_lost self + of_nat num_vacant,
                        jb_last_sequence_number_returned := Some sequence_number\<rparr>)
             | _ \<Rightarrow> None)
          else None)"

fun entry_ts :: "QueueEntry \<Rightarrow> ExtendedRtpTimestamp option" where
  "entry_ts (Vacant _) = None"
| "entry_ts (Occupied ts _ _) = Some ts"

definition timestamp_of_earliest_packet :: "JitterBuffer \<Rightarrow> ExtendedRtpTimestamp option" where
  "timestamp_of_earliest_packet self =
     (case List.map_filter entry_ts (jb_queue self) of [] \<Rightarrow> None | ts # _ \<Rightarrow> Some ts)"

section \<open>Sequence numbers of a queue\<close>

abbreviation seqn :: "QueueEntry \<Rightarrow> nat" where
  "seqn e \<equiv> unat (eseq_0 (entry_seq e))"

definition consecutive :: "QueueEntry list \<Rightarrow> bool" where
  "consecutive = successively (\<lambda>a b. seqn b = seqn a + 1)"

lemma consecutive_Nil [simp]: "consecutive []"
  and consecutive_single [simp]: "consecutive [e]"
  by (simp_all add: consecutive_def)

lemma consecutive_append_iff:
  "consecutive (xs @ ys) \<longleftrightarrow> consecutive xs \<and> consecutive ys
     \<and> (xs = [] \<or> ys = [] \<or> seqn (hd ys) = seqn (last xs) + 1)"
  by (auto simp: consecutive_def successively_append_iff)

lemma consecutive_map:
  "map entry_seq xs = map entry_seq ys \<Longrightarrow> consecutive xs = consecutive ys"
proof (induction xs arbitrary: ys)
  case Nil
  then show ?case by simp
next
  case (Cons x xs)
  then obtain y ys' where ys: "ys = y # ys'" "entry_seq x = entry_seq y"
    "map entry_seq xs = map entry_seq ys'" by auto
  from Cons.IH [OF ys(3)] ys show ?case
    by (cases xs; cases ys') (auto simp: consecutive_def)
qed

lemma consecutive_Cons_iff:
  "consecutive (x # xs) \<longleftrightarrow> consecutive xs \<and> (xs = [] \<or> seqn (hd xs) = seqn x + 1)"
  by (cases xs) (auto simp: consecutive_def)

lemma consecutive_nth:
  "consecutive xs \<Longrightarrow> i < length xs \<Longrightarrow> seqn (xs ! i) = seqn (hd xs) + i"
proof (induction xs arbitrary: i)
  case Nil
  then show ?case by simp
next
  case (Cons x xs)
  then show ?case by (cases i) (auto simp: consecutive_Cons_iff)
qed

lemma consecutive_hd_least: "consecutive xs \<Longrightarrow> e \<in> set xs \<Longrightarrow> seqn (hd xs) \<le> seqn e"
  by (metis consecutive_nth in_set_conv_nth le_add1)

lemma consecutive_tl: "consecutive xs \<Longrightarrow> consecutive (tl xs)"
  by (cases xs) (auto simp: consecutive_Cons_iff)

lemma consecutive_drop: "consecutive xs \<Longrightarrow> consecutive (drop n xs)"
  by (metis append_take_drop_id consecutive_append_iff)

lemma consecutive_drop_less:
  assumes "consecutive xs" "drop n xs = e # rest" "f \<in> set rest"
  shows "seqn e < seqn f"
proof -
  have "consecutive (e # rest)"
    using assms(1,2) consecutive_drop [of xs n] by simp
  then have "consecutive rest" "seqn (hd rest) = seqn e + 1"
    using assms(3) by (auto simp: consecutive_Cons_iff)
  then show ?thesis
    using consecutive_hd_least [of rest f] assms(3) by simp
qed

lemma position_SomeD:
  "position P xs = Some n \<Longrightarrow> n < length xs \<and> P (xs ! n) \<and> (\<forall>i<n. \<not> P (xs ! i))"
proof (induction xs arbitrary: n)
  case Nil
  then show ?case by simp
next
  case (Cons x xs)
  show ?case
  proof (cases "P x")
    case True
    with Cons.prems show ?thesis by simp
  next
    case False
    with Cons.prems obtain m where "n = Suc m" "position P xs = Some m" by auto
    with Cons.IH [of m] False show ?thesis by (auto simp: less_Suc_eq_0_disj)
  qed
qed

lemma position_NoneD: "position P xs = None \<Longrightarrow> x \<in> set xs \<Longrightarrow> \<not> P x"
  by (induction xs) (auto split: if_splits)

section \<open>The invariant\<close>

text \<open>
  The queue holds consecutive sequence numbers, its back is occupied, and everything in it
  is newer than the last packet handed out.
\<close>

definition jb_inv :: "JitterBuffer \<Rightarrow> bool" where
  "jb_inv self \<longleftrightarrow>
     consecutive (jb_queue self)
     \<and> (jb_queue self \<noteq> [] \<longrightarrow> \<not> is_vacant (last (jb_queue self)))
     \<and> (\<forall>s. jb_last_sequence_number_returned self = Some s \<longrightarrow>
           (\<forall>e\<in>set (jb_queue self). unat (eseq_0 s) < seqn e))
     \<and> 1 \<le> jb_max_entries self"

lemma jb_inv_default: "jb_inv jb_default"
  by (simp add: jb_inv_def jb_default_def)

lemma jb_inv_drop_one [simp]: "jb_inv (jb_drop_one self) = jb_inv self"
  by (simp add: jb_inv_def jb_drop_one_def)

lemma jb_inv_limit:
  assumes "jb_inv self"
  shows "jb_inv (jb_limit self)"
proof (cases "length (jb_queue self) > jb_max_entries self")
  case True
  with assms have "2 \<le> length (jb_queue self)" by (simp add: jb_inv_def)
  then obtain e f q where "jb_queue self = e # f # q"
    by (metis (no_types) One_nat_def Suc_1 Suc_le_length_iff)
  with assms show ?thesis
    by (auto simp: jb_limit_def jb_inv_def jb_drop_one_def consecutive_Cons_iff)
next
  case False
  with assms show ?thesis by (simp add: jb_limit_def)
qed

lemma unat_seq_add:
  "unat s + i < 2 ^ 64 \<Longrightarrow> unat (s + of_nat i :: u64) = unat s + i"
  by (simp add: unat_word_ariths unat_of_nat take_bit_nat_eq_self)

lemma consecutive_vacants:
  "unat (eseq_0 s) + gap \<le> 2 ^ 64 \<Longrightarrow> consecutive (jb_vacants s gap)"
  by (simp add: consecutive_def successively_conv_nth jb_vacants_def unat_seq_add
      del: of_nat_Suc)

lemma hd_vacants:
  assumes "unat (eseq_0 s) + gap \<le> 2 ^ 64" "1 < gap"
  shows "seqn (hd (jb_vacants s gap)) = unat (eseq_0 s) + 1"
proof -
  have "[1..<gap] = 1 # [2..<gap]"
    using assms(2) by (simp add: upt_conv_Cons numeral_2_eq_2)
  then show ?thesis
    using assms unat_seq_add [of "eseq_0 s" 1] by (simp add: jb_vacants_def)
qed

lemma unat_gap: "a < b \<Longrightarrow> unat (eseq_0 b - eseq_0 a) = unat (eseq_0 b) - unat (eseq_0 a)"
  by (simp add: less_ExtendedSequenceNumber_def unat_sub word_less_nat_alt word_le_nat_alt)

text \<open>Appending a newer packet: the new tail continues the numbers of the queue.\<close>

lemma consecutive_extend:
  assumes "s < n" and gap: "gap = unat (eseq_0 n - eseq_0 s)"
  shows "consecutive (jb_vacants s gap @ [Occupied t n p])"
    and "seqn (hd (jb_vacants s gap @ [Occupied t n p])) = unat (eseq_0 s) + 1"
proof -
  have less: "unat (eseq_0 s) < unat (eseq_0 n)"
    using assms(1) by (simp add: less_ExtendedSequenceNumber_def word_less_nat_alt)
  then have g: "0 < gap" "unat (eseq_0 s) + Suc gap \<le> 2 ^ 64"
    using unsigned_less [of "eseq_0 n", where 'a = nat] by (simp_all add: gap unat_gap assms(1))
  have n: "n = ExtendedSequenceNumber (eseq_0 s + of_nat gap)"
    by (simp add: gap)
  have "map entry_seq (jb_vacants s gap @ [Occupied t n p]) = map entry_seq (jb_vacants s (Suc gap))"
    using g(1) n by (simp add: jb_vacants_def)
  then show "consecutive (jb_vacants s gap @ [Occupied t n p])"
    using consecutive_map consecutive_vacants [OF g(2)] by blast
  have m: "map seqn (jb_vacants s gap @ [Occupied t n p]) = map seqn (jb_vacants s (Suc gap))"
    using g(1) n by (simp add: jb_vacants_def)
  then have "jb_vacants s (Suc gap) \<noteq> []" by auto
  then have "seqn (hd (jb_vacants s gap @ [Occupied t n p])) = seqn (hd (jb_vacants s (Suc gap)))"
    using arg_cong [OF m, of hd] by (simp only: hd_map append_is_Nil_conv list.distinct simp_thms)
  then show "seqn (hd (jb_vacants s gap @ [Occupied t n p])) = unat (eseq_0 s) + 1"
    using hd_vacants [OF g(2)] g(1) by simp
qed

lemma map_entry_seq_fill:
  "entry_seq new = s \<Longrightarrow>
     map entry_seq (rev (update_first (\<lambda>e. entry_seq e = s) (\<lambda>_. new) (rev q))) = map entry_seq q"
  by (simp add: rev_map [symmetric] map_update_first)

lemma last_fill:
  assumes "q \<noteq> []" "s < entry_seq (last q)"
  shows "last (rev (update_first (\<lambda>e. entry_seq e = s) f (rev q))) = last q"
proof -
  obtain xs x where q: "q = xs @ [x]" using assms(1) by (metis rev_exhaust)
  with assms(2) have "entry_seq x \<noteq> s" by auto
  then show ?thesis by (simp add: q)
qed

lemma jb_inv_fill:
  assumes "jb_inv self" "jb_queue self \<noteq> []" "n < entry_seq (last (jb_queue self))"
  shows "jb_inv (self\<lparr>jb_queue := rev (update_first (\<lambda>e. entry_seq e = n)
           (\<lambda>_. Occupied t n p) (rev (jb_queue self)))\<rparr>)"
proof -
  let ?q = "rev (update_first (\<lambda>e. entry_seq e = n) (\<lambda>_. Occupied t n p) (rev (jb_queue self)))"
  have m: "map entry_seq ?q = map entry_seq (jb_queue self)"
    by (simp add: map_entry_seq_fill)
  then have "entry_seq ` set ?q = entry_seq ` set (jb_queue self)"
    by (metis list.set_map)
  then have "\<exists>e'\<in>set (jb_queue self). entry_seq e = entry_seq e'" if "e \<in> set ?q" for e
    using that by (metis image_iff)
  moreover have "consecutive ?q"
    using consecutive_map [OF m] assms(1) by (simp add: jb_inv_def)
  moreover have "last ?q = last (jb_queue self)"
    using last_fill assms(2,3) by blast
  ultimately show ?thesis
    using assms(1,2) unfolding jb_inv_def by (fastforce simp del: set_rev)
qed

lemma jb_inv_extend:
  assumes "jb_inv self" "jb_queue self \<noteq> []" "entry_seq (last (jb_queue self)) < n"
  shows "jb_inv (self\<lparr>jb_queue := jb_queue self
           @ jb_vacants (entry_seq (last (jb_queue self)))
               (unat (eseq_0 n - eseq_0 (entry_seq (last (jb_queue self)))))
           @ [Occupied t n p]\<rparr>)"
proof -
  let ?l = "entry_seq (last (jb_queue self))"
  let ?tail = "jb_vacants ?l (unat (eseq_0 n - eseq_0 ?l)) @ [Occupied t n p]"
  note ext = consecutive_extend [OF assms(3) refl, of t p]
  have "consecutive (jb_queue self @ ?tail)"
    using assms ext by (simp add: consecutive_append_iff jb_inv_def)
  moreover have "\<forall>s. jb_last_sequence_number_returned self = Some s \<longrightarrow>
      (\<forall>e\<in>set ?tail. unat (eseq_0 s) < seqn e)"
  proof (intro allI impI ballI)
    fix s e
    assume s: "jb_last_sequence_number_returned self = Some s" and e: "e \<in> set ?tail"
    have "unat (eseq_0 s) < seqn (last (jb_queue self))"
      using assms(1,2) s by (simp add: jb_inv_def)
    moreover have "seqn (last (jb_queue self)) + 1 \<le> seqn e"
      using consecutive_hd_least [OF ext(1) e] ext(2) by simp
    ultimately show "unat (eseq_0 s) < seqn e" by simp
  qed
  ultimately show ?thesis
    using assms(1) by (auto simp: jb_inv_def)
qed

lemma jb_inv_push:
  assumes inv: "jb_inv self"
  shows "jb_inv (jb_push self t n p)"
proof (cases "case jb_last_sequence_number_returned self of Some s \<Rightarrow> n \<le> s | None \<Rightarrow> False")
  case True
  with inv show ?thesis by (simp add: jb_push_def)
next
  case new: False
  then have fresh: "unat (eseq_0 s) < unat (eseq_0 n)"
    if "jb_last_sequence_number_returned self = Some s" for s
    using that by (simp add: not_le less_ExtendedSequenceNumber_def word_less_nat_alt)
  show ?thesis
  proof (cases "jb_queue self = []")
    case True
    with inv new fresh show ?thesis by (simp add: jb_push_def jb_inv_def)
  next
    case ne: False
    let ?l = "entry_seq (last (jb_queue self))"
    consider "n < ?l" | "?l = n" | "?l < n" by (metis linorder_less_linear)
    then show ?thesis
    proof cases
      case 1
      with inv new ne show ?thesis
        by (auto simp: jb_push_def Let_def jb_inv_fill jb_inv_limit split: option.splits)
    next
      case 2
      with inv ne have "\<not> is_vacant (last (jb_queue self))" by (simp add: jb_inv_def)
      with inv new ne 2 show ?thesis by (auto simp: jb_push_def Let_def jb_inv_limit)
    next
      case 3
      with inv new ne show ?thesis
        by (auto simp: jb_push_def Let_def intro!: jb_inv_limit jb_inv_extend)
    qed
  qed
qed

text \<open>What a successful \<^verbatim>\<open>pop\<close> did.\<close>

lemma jb_pop_SomeE:
  assumes "jb_pop self m = Some (Some p, self')"
  obtains n t s rest where
    "position (due m) (jb_queue self) = Some n"
    "list_all is_vacant (take n (jb_queue self))"
    "drop n (jb_queue self) = Occupied t s p # rest"
    "self' = self\<lparr>jb_queue := rest, jb_lost := jb_lost self + of_nat n,
               jb_last_sequence_number_returned := Some s\<rparr>"
  using assms by (auto simp: jb_pop_def split: option.splits if_splits list.splits QueueEntry.splits)

lemma jb_pop_None: "jb_pop self m = Some (None, self') \<Longrightarrow> self' = self"
  by (auto simp: jb_pop_def split: option.splits if_splits list.splits QueueEntry.splits)

lemma in_set_drop_Cons: "drop n xs = e # rest \<Longrightarrow> e \<in> set xs \<and> set rest \<subseteq> set xs"
  by (metis list.set_intros(1) set_drop_subset set_subset_Cons subset_trans subsetD)

lemma jb_inv_pop:
  assumes "jb_inv self" "jb_pop self m = Some (r, self')"
  shows "jb_inv self'"
proof (cases r)
  case None
  with assms jb_pop_None show ?thesis by blast
next
  case (Some p)
  with assms(2) obtain n t s rest where d: "drop n (jb_queue self) = Occupied t s p # rest"
    and self': "self' = self\<lparr>jb_queue := rest, jb_lost := jb_lost self + of_nat n,
               jb_last_sequence_number_returned := Some s\<rparr>"
    by (auto elim: jb_pop_SomeE)
  have c: "consecutive (jb_queue self)" using assms(1) by (simp add: jb_inv_def)
  have "consecutive (Occupied t s p # rest)"
    using consecutive_drop [OF c, of n] d by simp
  moreover have "unat (eseq_0 s) < seqn f" if "f \<in> set rest" for f
    using consecutive_drop_less [OF c d that] by simp
  moreover have "rest \<noteq> [] \<Longrightarrow> last rest = last (jb_queue self)"
    using d by (metis last.simps last_drop drop_all linorder_not_le list.distinct(1))
  ultimately show ?thesis
    using assms(1) d by (auto simp: self' jb_inv_def consecutive_Cons_iff)
qed

lemma jb_pop_newer:
  assumes "jb_inv self" "jb_pop self m = Some (Some p, self')"
  shows "\<exists>s. jb_last_sequence_number_returned self' = Some s
    \<and> (\<forall>s0. jb_last_sequence_number_returned self = Some s0 \<longrightarrow> s0 < s)"
proof -
  from assms(2) obtain n t s rest where d: "drop n (jb_queue self) = Occupied t s p # rest"
    and self': "jb_last_sequence_number_returned self' = Some s"
    by (auto elim: jb_pop_SomeE)
  from d have "Occupied t s p \<in> set (jb_queue self)" by (simp add: in_set_drop_Cons)
  with assms(1) self' show ?thesis
    by (force simp: jb_inv_def less_ExtendedSequenceNumber_def word_less_nat_alt)
qed

section \<open>Buffers that hand out increasing keys\<close>

text \<open>
  A client of the buffer only interleaves pushes and pops. The interface it relies on: an
  invariant, and a floor (the last key handed out) that pushes keep and every delivering
  pop raises. Whatever satisfies it delivers strictly increasing keys on every run.
\<close>

datatype ('i, 'm) buffer_op = PushOp 'i | PopOp 'm

fun buffer_run ::
    "('b \<Rightarrow> 'i \<Rightarrow> 'b) \<Rightarrow> ('b \<Rightarrow> 'm \<Rightarrow> ('p option \<times> 'b) option) \<Rightarrow> ('b \<Rightarrow> 'k option) \<Rightarrow>
     'b \<Rightarrow> ('i, 'm) buffer_op list \<Rightarrow> (('k option \<times> 'p) list \<times> 'b) option" where
  "buffer_run push pop flr b [] = Some ([], b)"
| "buffer_run push pop flr b (PushOp i # ops) = buffer_run push pop flr (push b i) ops"
| "buffer_run push pop flr b (PopOp m # ops) =
     (case pop b m of
        None \<Rightarrow> None
      | Some (r, b') \<Rightarrow>
          (case buffer_run push pop flr b' ops of
             None \<Rightarrow> None
           | Some (out, b'') \<Rightarrow>
               Some (case r of None \<Rightarrow> out | Some p \<Rightarrow> (flr b', p) # out, b'')))"

locale ordered_buffer =
  fixes inv :: "'b \<Rightarrow> bool"
    and push :: "'b \<Rightarrow> 'i \<Rightarrow> 'b"
    and pop :: "'b \<Rightarrow> 'm \<Rightarrow> ('p option \<times> 'b) option"
    and flr :: "'b \<Rightarrow> 'k::linorder option"
  assumes inv_push: "inv b \<Longrightarrow> inv (push b i)"
    and floor_push: "flr (push b i) = flr b"
    and inv_pop: "inv b \<Longrightarrow> pop b m = Some (r, b') \<Longrightarrow> inv b'"
    and floor_pop_None: "pop b m = Some (None, b') \<Longrightarrow> flr b' = flr b"
    and floor_pop_Some: "inv b \<Longrightarrow> pop b m = Some (Some p, b') \<Longrightarrow>
      \<exists>k. flr b' = Some k \<and> (\<forall>k0. flr b = Some k0 \<longrightarrow> k0 < k)"
begin

lemma run_above_floor:
  "inv b \<Longrightarrow> buffer_run push pop flr b ops = Some (out, b') \<Longrightarrow>
     (\<forall>x\<in>set out. \<exists>k. fst x = Some k \<and> (\<forall>k0. flr b = Some k0 \<longrightarrow> k0 < k)) \<and> inv b'"
proof (induction ops arbitrary: b out)
  case Nil
  then show ?case by simp
next
  case (Cons op ops)
  show ?case
  proof (cases op)
    case (PushOp i)
    with Cons.IH [OF inv_push [OF Cons.prems(1), of i]] Cons.prems(2) show ?thesis
      by (simp add: floor_push)
  next
    case (PopOp m)
    with Cons.prems(2) obtain r b1 out1 where
      pop: "pop b m = Some (r, b1)" and run: "buffer_run push pop flr b1 ops = Some (out1, b')"
      and out: "out = (case r of None \<Rightarrow> out1 | Some p \<Rightarrow> (flr b1, p) # out1)"
      by (auto split: option.splits prod.splits)
    note IH = Cons.IH [OF inv_pop [OF Cons.prems(1) pop] run]
    show ?thesis
    proof (cases r)
      case None
      with IH out pop floor_pop_None show ?thesis by fastforce
    next
      case (Some p)
      with floor_pop_Some [OF Cons.prems(1)] pop obtain k where
        k: "flr b1 = Some k" "\<forall>k0. flr b = Some k0 \<longrightarrow> k0 < k" by blast
      with IH out Some show ?thesis by (fastforce dest: less_trans)
    qed
  qed
qed

lemma run_increasing:
  "inv b \<Longrightarrow> buffer_run push pop flr b ops = Some (out, b') \<Longrightarrow>
     sorted_wrt (\<lambda>x y. the (fst x) < the (fst y)) out"
proof (induction ops arbitrary: b out)
  case Nil
  then show ?case by simp
next
  case (Cons op ops)
  show ?case
  proof (cases op)
    case (PushOp i)
    with Cons inv_push show ?thesis by fastforce
  next
    case (PopOp m)
    with Cons.prems(2) obtain r b1 out1 where
      pop: "pop b m = Some (r, b1)" and run: "buffer_run push pop flr b1 ops = Some (out1, b')"
      and out: "out = (case r of None \<Rightarrow> out1 | Some p \<Rightarrow> (flr b1, p) # out1)"
      by (auto split: option.splits prod.splits)
    note inv1 = inv_pop [OF Cons.prems(1) pop]
    show ?thesis
      using Cons.IH [OF inv1 run] run_above_floor [OF inv1 run] out
        floor_pop_Some [OF Cons.prems(1)] pop
      by (cases r) fastforce+
  qed
qed

end

definition jb_push_op ::
    "JitterBuffer \<Rightarrow> ExtendedRtpTimestamp \<times> ExtendedSequenceNumber \<times> RtpPacket \<Rightarrow> JitterBuffer" where
  "jb_push_op b i = (case i of (t, s, p) \<Rightarrow> jb_push b t s p)"

lemma jb_push_floor:
  "jb_last_sequence_number_returned (jb_push self t n p) = jb_last_sequence_number_returned self"
  by (simp add: jb_push_def Let_def jb_limit_def jb_drop_one_def split: option.splits)

interpretation jb: ordered_buffer jb_inv jb_push_op jb_pop jb_last_sequence_number_returned
proof unfold_locales
  show "jb_inv b \<Longrightarrow> jb_inv (jb_push_op b i)" for b i
    by (cases i) (simp add: jb_push_op_def jb_inv_push)
  show "jb_last_sequence_number_returned (jb_push_op b i) = jb_last_sequence_number_returned b" for b i
    by (cases i) (simp add: jb_push_op_def jb_push_floor)
  show "jb_inv b \<Longrightarrow> jb_pop b m = Some (r, b') \<Longrightarrow> jb_inv b'" for b m r b'
    by (rule jb_inv_pop)
  show "jb_pop b m = Some (None, b') \<Longrightarrow>
      jb_last_sequence_number_returned b' = jb_last_sequence_number_returned b" for b m b'
    using jb_pop_None by blast
  show "jb_inv b \<Longrightarrow> jb_pop b m = Some (Some p, b') \<Longrightarrow>
      \<exists>k. jb_last_sequence_number_returned b' = Some k
        \<and> (\<forall>k0. jb_last_sequence_number_returned b = Some k0 \<longrightarrow> k0 < k)" for b m p b'
    by (rule jb_pop_newer)
qed

section \<open>When pop cannot panic\<close>

text \<open>Occupied entries whose timestamps do not decrease from front to back.\<close>

definition ts_ordered :: "QueueEntry list \<Rightarrow> bool" where
  "ts_ordered q \<longleftrightarrow>
     sorted_wrt (\<lambda>a b. is_vacant a \<or> is_vacant b \<or> the (entry_ts a) \<le> the (entry_ts b)) q"

lemma ts_ordered_prefix_vacant:
  assumes "ts_ordered q" "position (due m) q = Some n"
  shows "list_all is_vacant (take n q)"
proof -
  from position_SomeD [OF assms(2)] have n: "n < length q" "due m (q ! n)"
    and before: "\<forall>i<n. \<not> due m (q ! i)" by auto
  have "is_vacant (q ! i)" if "i < n" for i
  proof (rule ccontr)
    assume "\<not> is_vacant (q ! i)"
    moreover have "\<not> is_vacant (q ! n)" using n(2) by (cases "q ! n") auto
    ultimately have "the (entry_ts (q ! i)) \<le> the (entry_ts (q ! n))"
      using assms(1) n(1) that by (auto simp: ts_ordered_def sorted_wrt_iff_nth_less)
    with n(2) have "due m (q ! i)"
      using \<open>\<not> is_vacant (q ! i)\<close> \<open>\<not> is_vacant (q ! n)\<close>
      by (cases "q ! i"; cases "q ! n") (auto simp: less_eq_ExtendedRtpTimestamp_def)
    with before that show False by blast
  qed
  with n(1) show ?thesis by (auto simp: list_all_iff in_set_conv_nth)
qed

lemma due_not_vacant: "due m e \<Longrightarrow> \<exists>t s p. e = Occupied t s p"
  by (cases e) auto

lemma consecutive_covers:
  assumes "consecutive q" "q \<noteq> []" "seqn (hd q) \<le> unat (eseq_0 n)" "unat (eseq_0 n) \<le> seqn (last q)"
  shows "\<exists>e\<in>set q. entry_seq e = n"
proof -
  let ?i = "unat (eseq_0 n) - seqn (hd q)"
  have "seqn (last q) = seqn (hd q) + (length q - 1)"
    using consecutive_nth [OF assms(1), of "length q - 1"] assms(2) by (simp add: last_conv_nth)
  with assms(2,4) have i: "?i < length q" by (cases q) auto
  then have "seqn (q ! ?i) = unat (eseq_0 n)"
    using consecutive_nth [OF assms(1)] assms(3) by simp
  then have "entry_seq (q ! ?i) = n"
    by (simp add: word_unat_eq_iff ExtendedSequenceNumber.expand)
  with i show ?thesis using nth_mem by blast
qed

lemma new_in_limit:
  "1 \<le> jb_max_entries self \<Longrightarrow> jb_queue self = q @ [e] \<Longrightarrow> e \<in> set (jb_queue (jb_limit self))"
  by (cases q) (auto simp: jb_limit_def jb_drop_one_def)

lemma find_rev_None_iff: "find P (rev xs) = None \<longleftrightarrow> (\<forall>x\<in>set xs. \<not> P x)"
  by (auto simp: find_None_iff)

lemma new_in_fill:
  "find (\<lambda>e. entry_seq e = n) (rev q) = Some e \<Longrightarrow>
     new \<in> set (rev (update_first (\<lambda>e. entry_seq e = n) (\<lambda>_. new) (rev q)))"
proof -
  have "find P xs = Some e \<Longrightarrow> new \<in> set (update_first P (\<lambda>_. new) xs)" for P xs
    by (induction xs) (auto split: if_splits)
  then show "find (\<lambda>e. entry_seq e = n) (rev q) = Some e \<Longrightarrow> ?thesis" by simp
qed

text \<open>A packet as the unit tests of the source build it.\<close>

definition make_packet :: "u16 \<Rightarrow> RtpPacket" where
  "make_packet seq = \<lparr>pkt_pt = 0, pkt_sequence_number = SequenceNumber seq, pkt_ssrc = Ssrc 0,
     pkt_timestamp = RtpTimestamp 0, pkt_extensions = \<lparr>ext_mid = None\<rparr>, pkt_payload = []\<rparr>"

section \<open>Properties\<close>

text \<open>
  C23: on every run of pushes and pops from the empty buffer that does not panic, the
  packets handed out carry strictly increasing extended sequence numbers: no packet is
  delivered late, twice or out of order.
\<close>

theorem jb_delivers_in_order:
  assumes "buffer_run jb_push_op jb_pop jb_last_sequence_number_returned jb_default ops = Some (out, b)"
  shows "sorted_wrt (\<lambda>x y. the (fst x) < the (fst y)) out \<and> (\<forall>x\<in>set out. fst x \<noteq> None)"
  using jb.run_increasing [OF jb_inv_default assms] jb.run_above_floor [OF jb_inv_default assms]
  by fastforce

theorem jb_delivers_in_order_witness:
  "\<exists>out b. buffer_run jb_push_op jb_pop jb_last_sequence_number_returned jb_default
      [PushOp (ExtendedRtpTimestamp 100, ExtendedSequenceNumber 1, make_packet 1),
       PushOp (ExtendedRtpTimestamp 400, ExtendedSequenceNumber 4, make_packet 4),
       PushOp (ExtendedRtpTimestamp 300, ExtendedSequenceNumber 3, make_packet 3),
       PopOp (ExtendedRtpTimestamp 100), PopOp (ExtendedRtpTimestamp 500)] = Some (out, b)
    \<and> length out = 2 \<and> sorted_wrt (\<lambda>x y. the (fst x) < the (fst y)) out"
proof -
  let ?ops = "[PushOp (ExtendedRtpTimestamp 100, ExtendedSequenceNumber 1, make_packet 1),
       PushOp (ExtendedRtpTimestamp 400, ExtendedSequenceNumber 4, make_packet 4),
       PushOp (ExtendedRtpTimestamp 300, ExtendedSequenceNumber 3, make_packet 3),
       PopOp (ExtendedRtpTimestamp 100), PopOp (ExtendedRtpTimestamp 500)]"
  obtain out b where run: "buffer_run jb_push_op jb_pop jb_last_sequence_number_returned jb_default
      ?ops = Some (out, b)" and "length out = 2"
    by (simp add: jb_push_op_def jb_push_def jb_default_def Let_def jb_vacants_def jb_limit_def
        jb_pop_def less_ExtendedSequenceNumber_def less_eq_ExtendedSequenceNumber_def upt_rec)
  with jb_delivers_in_order [OF run] show ?thesis by blast
qed

text \<open>
  C37: when the timestamps of the queued packets do not decrease along the queue,
  \<^verbatim>\<open>pop\<close> does not panic. It returns nothing and changes nothing when no queued packet is
  due; otherwise it removes a run of vacant entries and the first due packet, returns that
  packet, and adds exactly the number of vacant entries to the lost counter.
\<close>

theorem jb_pop_spec:
  assumes "ts_ordered (jb_queue self)"
  shows "(jb_pop self m = Some (None, self) \<and> (\<forall>e\<in>set (jb_queue self). \<not> due m e))
    \<or> (\<exists>vs t s p rest. jb_queue self = vs @ Occupied t s p # rest \<and> list_all is_vacant vs
        \<and> due m (Occupied t s p)
        \<and> jb_pop self m = Some (Some p, self\<lparr>jb_queue := rest,
             jb_lost := jb_lost self + of_nat (length vs),
             jb_last_sequence_number_returned := Some s\<rparr>))"
proof (cases "position (due m) (jb_queue self)")
  case None
  then show ?thesis by (auto simp: jb_pop_def dest: position_NoneD)
next
  case (Some n)
  note n = position_SomeD [OF Some]
  then obtain t s p where e: "jb_queue self ! n = Occupied t s p"
    using due_not_vacant by blast
  have d: "drop n (jb_queue self) = Occupied t s p # drop (Suc n) (jb_queue self)"
    using n e by (metis Cons_nth_drop_Suc)
  have split: "jb_queue self = take n (jb_queue self) @ Occupied t s p # drop (Suc n) (jb_queue self)"
    using d by (metis append_take_drop_id)
  have "jb_pop self m = Some (Some p, self\<lparr>jb_queue := drop (Suc n) (jb_queue self),
      jb_lost := jb_lost self + of_nat (length (take n (jb_queue self))),
      jb_last_sequence_number_returned := Some s\<rparr>)"
    using Some n d ts_ordered_prefix_vacant [OF assms Some] by (simp add: jb_pop_def)
  with split ts_ordered_prefix_vacant [OF assms Some] n e show ?thesis by metis
qed

theorem jb_pop_spec_witness:
  "jb_pop (jb_default\<lparr>jb_queue := [Vacant (ExtendedSequenceNumber 2),
       Occupied (ExtendedRtpTimestamp 300) (ExtendedSequenceNumber 3) (make_packet 3)]\<rparr>)
     (ExtendedRtpTimestamp 500) \<noteq> None"
  using jb_pop_spec [of "jb_default\<lparr>jb_queue := [Vacant (ExtendedSequenceNumber 2),
       Occupied (ExtendedRtpTimestamp 300) (ExtendedSequenceNumber 3) (make_packet 3)]\<rparr>"
       "ExtendedRtpTimestamp 500"]
  by (auto simp: ts_ordered_def)

text \<open>
  without that condition \<^verbatim>\<open>pop\<close> can panic. Three packets with rising timestamps of
  which the last fills a gap leave an occupied entry that is not yet due in front of one
  that is; the assertion that only vacant entries are skipped then fails.
\<close>

theorem jb_pop_panics_on_unordered_timestamps:
  "buffer_run jb_push_op jb_pop jb_last_sequence_number_returned jb_default
     [PushOp (ExtendedRtpTimestamp 50, ExtendedSequenceNumber 8, make_packet 8),
      PushOp (ExtendedRtpTimestamp 100, ExtendedSequenceNumber 10, make_packet 10),
      PushOp (ExtendedRtpTimestamp 200, ExtendedSequenceNumber 9, make_packet 9),
      PopOp (ExtendedRtpTimestamp 60), PopOp (ExtendedRtpTimestamp 150)] = None"
  by (simp add: jb_push_op_def jb_push_def jb_default_def Let_def jb_vacants_def jb_limit_def
      jb_pop_def less_ExtendedSequenceNumber_def less_eq_ExtendedSequenceNumber_def upt_rec)

text \<open>
  \<^verbatim>\<open>max_entries\<close> does not bound the queue. A packet whose sequence number is more than
  \<^verbatim>\<open>max_entries + 1\<close> ahead of the back of the queue leaves more than \<^verbatim>\<open>max_entries\<close>
  entries behind, because one vacant entry is queued per missing number while only a single
  entry is removed.
\<close>

theorem jb_push_gap_exceeds_max_entries:
  assumes "jb_queue self \<noteq> []" "jb_last_sequence_number_returned self = None"
    and "unat (eseq_0 n) > seqn (last (jb_queue self)) + jb_max_entries self + 1"
  shows "length (jb_queue (jb_push self t n p)) > jb_max_entries self"
proof -
  let ?l = "entry_seq (last (jb_queue self))"
  have less: "?l < n"
    using assms(3) by (simp add: less_ExtendedSequenceNumber_def word_less_nat_alt)
  then have "unat (eseq_0 n - eseq_0 ?l) > jb_max_entries self + 1"
    using assms(3) by (simp add: unat_gap)
  moreover have "\<not> n < ?l" "?l \<noteq> n" using less by auto
  moreover have "1 \<le> length (jb_queue self)" using assms(1) by (cases "jb_queue self") auto
  ultimately show ?thesis
    using assms(1,2)
    by (simp add: jb_push_def Let_def jb_limit_def jb_drop_one_def jb_vacants_def)
qed

theorem jb_push_gap_exceeds_max_entries_witness:
  "length (jb_queue (jb_push
      (jb_push jb_default (ExtendedRtpTimestamp 1) (ExtendedSequenceNumber 1) (make_packet 1))
      (ExtendedRtpTimestamp 2) (ExtendedSequenceNumber 3000) (make_packet 3000))) > 1000"
proof -
  let ?b = "jb_push jb_default (ExtendedRtpTimestamp 1) (ExtendedSequenceNumber 1) (make_packet 1)"
  have b: "jb_queue ?b = [Occupied (ExtendedRtpTimestamp 1) (ExtendedSequenceNumber 1) (make_packet 1)]"
    "jb_last_sequence_number_returned ?b = None" "jb_max_entries ?b = 1000"
    by (simp_all add: jb_push_def jb_default_def)
  show ?thesis
    using jb_push_gap_exceeds_max_entries [of ?b "ExtendedSequenceNumber 3000"
        "ExtendedRtpTimestamp 2" "make_packet 3000"] by (simp add: b)
qed

text \<open>
  every pushed packet is accounted for except one kind. After a push the packet is in
  the queue, or the dropped counter went up (by one, or by two when the full queue also lost
  its front), or its sequence number is older than the front of the queue, in which case the
  packet disappears without being stored or counted.
\<close>

theorem jb_push_accounts:
  assumes "jb_inv self"
  shows "Occupied t n p \<in> set (jb_queue (jb_push self t n p))
    \<or> jb_dropped (jb_push self t n p) - jb_dropped self \<in> {1, 2}
    \<or> (jb_queue self \<noteq> [] \<and> n < entry_seq (hd (jb_queue self)) \<and> jb_push self t n p = jb_limit self)"
proof (cases "(case jb_last_sequence_number_returned self of Some s \<Rightarrow> n \<le> s | None \<Rightarrow> False)
    \<or> jb_queue self = []")
  case True
  then show ?thesis by (auto simp: jb_push_def Let_def jb_drop_one_def)
next
  case False
  let ?l = "entry_seq (last (jb_queue self))"
  from False have ne: "jb_queue self \<noteq> []" and fresh:
    "\<not> (case jb_last_sequence_number_returned self of Some s \<Rightarrow> n \<le> s | None \<Rightarrow> False)" by auto
  have max1: "1 \<le> jb_max_entries self" using assms by (simp add: jb_inv_def)
  consider "n < ?l" | "?l = n" | "?l < n" by (metis linorder_less_linear)
  then show ?thesis
  proof cases
    case 1
    then have le: "unat (eseq_0 n) \<le> seqn (last (jb_queue self))"
      by (simp add: less_ExtendedSequenceNumber_def word_less_nat_alt)
    show ?thesis
    proof (cases "find (\<lambda>e. entry_seq e = n) (rev (jb_queue self))")
      case None
      then have "\<not> seqn (hd (jb_queue self)) \<le> unat (eseq_0 n)"
        using consecutive_covers [OF _ ne _ le] assms by (auto simp: find_rev_None_iff jb_inv_def)
      with None 1 ne fresh show ?thesis
        by (simp add: jb_push_def Let_def less_ExtendedSequenceNumber_def word_less_nat_alt)
    next
      case (Some e)
      with 1 ne fresh new_in_fill [OF Some, of "Occupied t n p"] show ?thesis
        by (simp add: jb_push_def Let_def jb_drop_one_def)
    qed
  next
    case 2
    with assms ne have "\<not> is_vacant (last (jb_queue self))" by (simp add: jb_inv_def)
    with 2 ne fresh show ?thesis
      by (cases "length (jb_queue self) > jb_max_entries self")
        (simp_all add: jb_push_def Let_def jb_drop_one_def jb_limit_def)
  next
    case 3
    then have "\<not> n < ?l" "?l \<noteq> n" by auto
    with 3 ne fresh max1 show ?thesis
      by (auto simp: jb_push_def Let_def intro!: disjI1 new_in_limit)
  qed
qed

theorem jb_push_accounts_witness:
  "Occupied (ExtendedRtpTimestamp 1) (ExtendedSequenceNumber 7) (make_packet 7)
     \<in> set (jb_queue (jb_push jb_default (ExtendedRtpTimestamp 1) (ExtendedSequenceNumber 7) (make_packet 7)))"
  using jb_push_accounts [OF jb_inv_default, of "ExtendedRtpTimestamp 1"
      "ExtendedSequenceNumber 7" "make_packet 7"]
  by (simp add: jb_push_def jb_default_def)

end
