(* ===== verification/Stun_Header.thy ===== *)
theory Stun_Header
  imports Prelude
begin

text \<open>
  The STUN message head (\<^verbatim>\<open>media/stun-types/src/header.rs\<close>), the error type, padding
  and the detection of STUN messages in a byte stream (\<^verbatim>\<open>media/stun-types/src/lib.rs\<close>).
  The head is the first 32-bit word of a message: two zero bits, 14 bits of type and 16
  bits of length; its accessors read and write the bit ranges the source declares.
\<close>

section \<open>Errors and padding\<close>

datatype stun_error = InvalidData string | TryFromInt | Utf8

abbreviation eof_error :: stun_error where
  "eof_error \<equiv> InvalidData ''buffer seems incomplete''"

definition padding_u16 :: "u16 \<Rightarrow> u16" where
  "padding_u16 n = (if n mod 4 = 0 then 0 else if n mod 4 = 1 then 3 else if n mod 4 = 2 then 2 else 1)"

definition padding_usize :: "nat \<Rightarrow> nat" where
  "padding_usize n = (if n mod 4 = 0 then 0 else if n mod 4 = 1 then 3 else if n mod 4 = 2 then 2 else 1)"

definition COOKIE :: u32 where "COOKIE = 0x2112A442"

definition STUN_HEADER_LENGTH :: nat where "STUN_HEADER_LENGTH = 20"

section \<open>The head\<close>

type_synonym MessageHead = u32

definition head_z :: "MessageHead \<Rightarrow> u8" where
  "head_z h = ucast (take_bit 2 (drop_bit 30 h))"

definition head_typ :: "MessageHead \<Rightarrow> u16" where
  "head_typ h = ucast (take_bit 14 (drop_bit 16 h))"

definition head_len :: "MessageHead \<Rightarrow> u16" where
  "head_len h = ucast (take_bit 16 h)"

definition head_set_typ :: "MessageHead \<Rightarrow> u16 \<Rightarrow> MessageHead" where
  "head_set_typ h t = (h AND NOT (push_bit 16 (mask 14))) OR push_bit 16 (take_bit 14 (ucast t))"

definition head_set_len :: "MessageHead \<Rightarrow> u16 \<Rightarrow> MessageHead" where
  "head_set_len h l = (h AND NOT (mask 16)) OR ucast l"

lemma head_len_set_len [simp]: "head_len (head_set_len h l) = l"
  by (rule bit_eqI) (auto simp: head_len_def head_set_len_def bit_simps)

lemma head_typ_set_len [simp]: "head_typ (head_set_len h l) = head_typ h"
  by (rule bit_eqI) (auto simp: head_typ_def head_set_len_def bit_simps dest: bit_imp_le_length)

lemma head_z_set_len [simp]: "head_z (head_set_len h l) = head_z h"
  by (rule bit_eqI) (auto simp: head_z_def head_set_len_def bit_simps dest: bit_imp_le_length)

lemma head_set_len_twice [simp]: "head_set_len (head_set_len h l) l' = head_set_len h l'"
  by (rule bit_eqI) (auto simp: head_set_len_def bit_simps dest: bit_imp_le_length)

lemma head_set_len_same [simp]: "head_set_len h (head_len h) = h"
  by (rule bit_eqI) (auto simp: head_set_len_def head_len_def bit_simps)

section \<open>Class and method\<close>

datatype Class = Request | Indication | Success | Error

datatype Method =
  Binding | Allocate | Refresh | Send | Data | CreatePermission | ChannelBind

definition CLASS_MASK :: u16 where "CLASS_MASK = 0x110"
definition METHOD_MASK :: u16 where "METHOD_MASK = 0x3EEF"

primrec class_bits :: "Class \<Rightarrow> u16" where
  "class_bits Request = 0x000"
| "class_bits Indication = 0x010"
| "class_bits Success = 0x100"
| "class_bits Error = 0x110"

definition class_set_bits :: "Class \<Rightarrow> u16 \<Rightarrow> u16" where
  "class_set_bits self typ = (typ AND METHOD_MASK) OR class_bits self"

definition class_try_from :: "u16 \<Rightarrow> (stun_error, Class) result" where
  "class_try_from v =
     (let k = v AND CLASS_MASK in
      if k = 0x000 then Inr Request
      else if k = 0x010 then Inr Indication
      else if k = 0x100 then Inr Success
      else if k = 0x110 then Inr Error
      else Inl (InvalidData ''unknown class''))"

primrec method_bits :: "Method \<Rightarrow> u16" where
  "method_bits Binding = 0x1"
| "method_bits Allocate = 0x3"
| "method_bits Refresh = 0x4"
| "method_bits Send = 0x6"
| "method_bits Data = 0x7"
| "method_bits CreatePermission = 0x8"
| "method_bits ChannelBind = 0x9"

definition method_set_bits :: "Method \<Rightarrow> u16 \<Rightarrow> u16" where
  "method_set_bits self typ = (typ AND CLASS_MASK) OR method_bits self"

definition method_try_from :: "u16 \<Rightarrow> (stun_error, Method) result" where
  "method_try_from v =
     (let k = v AND METHOD_MASK in
      if k = 0x1 then Inr Binding
      else if k = 0x3 then Inr Allocate
      else if k = 0x4 then Inr Refresh
      else if k = 0x6 then Inr Send
      else if k = 0x7 then Inr Data
      else if k = 0x8 then Inr CreatePermission
      else if k = 0x9 then Inr ChannelBind
      else Inl (InvalidData ''unknown method''))"

lemma message_typ_roundtrip:
  "class_try_from (class_set_bits c (method_set_bits m 0)) = Inr c"
  "method_try_from (class_set_bits c (method_set_bits m 0)) = Inr m"
  by (cases c; cases m; simp add: class_try_from_def class_set_bits_def method_set_bits_def
      CLASS_MASK_def METHOD_MASK_def Let_def method_try_from_def)+

lemma head_of_typ:
  "head_typ (head_set_typ 0 (class_set_bits c (method_set_bits m 0))) = class_set_bits c (method_set_bits m 0)"
  "head_z (head_set_typ 0 (class_set_bits c (method_set_bits m 0))) = 0"
  by (cases c; cases m; simp add: head_typ_def head_z_def head_set_typ_def class_set_bits_def
      method_set_bits_def CLASS_MASK_def METHOD_MASK_def)+

section \<open>Recognising a message\<close>

datatype IsStunMessageInfo = TooShort | No | Yes nat | YesIncomplete nat

definition is_stun_message :: "bytes \<Rightarrow> IsStunMessageInfo" where
  "is_stun_message i =
     (if length i < 20 then TooShort
      else let head = from_be (take 4 i) :: u32; cookie = from_be (take 4 (drop 4 i)) :: u32 in
        if head_z head \<noteq> 0 then No
        else if cookie \<noteq> COOKIE then No
        else let expected_msg_len = unat (head_len head) + 20 in
          if length i < expected_msg_len then YesIncomplete (expected_msg_len - length i)
          else Yes expected_msg_len)"

section \<open>Padding\<close>

lemma padding_usize_aligned [simp]: "(n + padding_usize n) mod 4 = 0"
  unfolding padding_usize_def by presburger

lemma padding_usize_less: "padding_usize n < 4"
  by (simp add: padding_usize_def)

lemma padding_usize_4 [simp]: "n mod 4 = 0 \<Longrightarrow> padding_usize n = 0"
  by (simp add: padding_usize_def)

lemma unat_padding_u16: "unat (padding_u16 n) = padding_usize (unat n)"
proof -
  have "unat (n mod 4) = unat n mod 4" by (simp add: unat_mod)
  then show ?thesis by (simp add: padding_u16_def padding_usize_def word_unat_eq_iff)
qed

end
