(* ===== verification/Stun_Message.thy ===== *)
theory Stun_Message
  imports Stun_Header
begin

text \<open>
  Parsing (\<^verbatim>\<open>media/stun-types/src/parse.rs\<close>) and building
  (\<^verbatim>\<open>media/stun-types/src/builder.rs\<close>) of STUN messages, and the trait every attribute
  implements (\<^verbatim>\<open>media/stun-types/src/attributes/mod.rs\<close>). The trait is a record of its
  constant and functions; an implementation of it is a value of that record. Functions that
  take \<^verbatim>\<open>&mut self\<close> return the new state beside their result. Buffer lengths are natural
  numbers; a builder's buffer always holds at least the 20 header bytes that \<^verbatim>\<open>new\<close>
  writes, so writing the four head bytes in place cannot be out of range.
\<close>

section \<open>Messages\<close>

datatype TransactionId = TransactionId (tid_0: bytes)

record AttrSpan =
  span_begin :: nat
  span_end :: nat
  span_padding_end :: nat
  span_typ :: u16

definition get_value :: "AttrSpan \<Rightarrow> bytes \<Rightarrow> bytes" where
  "get_value self buf = take (span_end self - span_begin self) (drop (span_begin self) buf)"

record Message =
  msg_buffer :: bytes
  msg_head :: MessageHead
  msg_id :: u128
  msg_class :: Class
  msg_method :: Method
  msg_transaction_id :: TransactionId
  msg_attributes :: "AttrSpan list"

text \<open>The attribute loop of \<^verbatim>\<open>parse\<close>, with the cursor position as an argument.\<close>

function parse_attributes :: "bytes \<Rightarrow> nat \<Rightarrow> (stun_error, AttrSpan list) result" where
  "parse_attributes buf pos =
     (if length buf \<le> pos then Inr []
      else bind_res (ok_or (read_u16 (drop pos buf)) eof_error) (\<lambda>(attr_typ, rest).
           bind_res (ok_or (read_u16 rest) eof_error) (\<lambda>(attr_len, _).
             let value_begin = pos + 4;
                 value_end = value_begin + unat attr_len;
                 padding_end = value_end + padding_usize (unat attr_len)
             in if length buf < padding_end
                then Inl (InvalidData ''Invalid attribute length in STUN message'')
                else bind_res (parse_attributes buf padding_end) (\<lambda>attrs.
                  Inr (\<lparr>span_begin = value_begin, span_end = value_end,
                        span_padding_end = padding_end, span_typ = attr_typ\<rparr> # attrs)))))"
  by pat_completeness auto
termination
  by (relation "measure (\<lambda>(buf, pos). length buf - pos)") auto

declare parse_attributes.simps [simp del]

definition message_parse :: "bytes \<Rightarrow> (stun_error, Message) result" where
  "message_parse buffer =
     bind_res (ok_or (read_u32 buffer) eof_error) (\<lambda>(head, rest).
       if head_z head \<noteq> 0 then Inl (InvalidData ''not a stun message'')
       else bind_res (ok_or (read_u128 rest) eof_error) (\<lambda>(ident, _).
         let id_bytes = to_be 16 ident;
             cookie = from_be (take 4 id_bytes) :: u32;
             transaction_id = drop 4 id_bytes
         in if cookie \<noteq> COOKIE then Inl (InvalidData ''not a stun message'')
            else bind_res (class_try_from (head_typ head)) (\<lambda>cls.
                 bind_res (method_try_from (head_typ head)) (\<lambda>meth.
                 bind_res (parse_attributes buffer 20) (\<lambda>attributes.
                   Inr \<lparr>msg_buffer = buffer, msg_head = head, msg_id = ident, msg_class = cls,
                        msg_method = meth, msg_transaction_id = TransactionId transaction_id,
                        msg_attributes = attributes\<rparr>)))))"

text \<open>The constants \<^verbatim>\<open>TYPE\<close> of the integrity and fingerprint attributes.\<close>

definition TYPE_MessageIntegrity :: u16 where "TYPE_MessageIntegrity = 0x0008"
definition TYPE_MessageIntegritySha256 :: u16 where "TYPE_MessageIntegritySha256 = 0x001C"
definition TYPE_Fingerprint :: u16 where "TYPE_Fingerprint = 0x8028"

text \<open>The search loop of \<^verbatim>\<open>attribute_with\<close>, over the types of the spans.\<close>

fun find_attribute :: "bool \<Rightarrow> u16 \<Rightarrow> AttrSpan list \<Rightarrow> AttrSpan option" where
  "find_attribute after_integrity typ [] = None"
| "find_attribute after_integrity typ (attr # attrs) =
     (if after_integrity
         \<and> \<not> (span_typ attr = TYPE_MessageIntegritySha256 \<or> span_typ attr = TYPE_Fingerprint)
      then None
      else if span_typ attr = typ then Some attr
      else find_attribute
             (after_integrity \<or> span_typ attr = TYPE_MessageIntegrity
              \<or> span_typ attr = TYPE_MessageIntegritySha256) typ attrs)"

definition set_msg_len :: "Message \<Rightarrow> u16 \<Rightarrow> Message" where
  "set_msg_len self len =
     (let head = head_set_len (msg_head self) len
      in self\<lparr>msg_head := head, msg_buffer := put_u32 head @ drop 4 (msg_buffer self)\<rparr>)"

definition with_msg_len :: "Message \<Rightarrow> u16 \<Rightarrow> (Message \<Rightarrow> 'r \<times> Message) \<Rightarrow> 'r \<times> Message" where
  "with_msg_len self len f =
     (let old_len = head_len (msg_head self);
          (res, self') = f (set_msg_len self len)
      in (res, set_msg_len self' old_len))"

section \<open>The builder\<close>

record MessageBuilder =
  mb_head :: MessageHead
  mb_transaction_id :: TransactionId
  mb_padding_in_value_len :: bool
  mb_buffer :: bytes

definition builder_new :: "Class \<Rightarrow> Method \<Rightarrow> TransactionId \<Rightarrow> MessageBuilder" where
  "builder_new cls meth transaction_id =
     (let typ = class_set_bits cls (method_set_bits meth 0); head = head_set_typ 0 typ
      in \<lparr>mb_head = head, mb_transaction_id = transaction_id, mb_padding_in_value_len = False,
          mb_buffer = put_u32 head @ put_u32 COOKIE @ tid_0 transaction_id\<rparr>)"

definition builder_padding_in_value_len :: "MessageBuilder \<Rightarrow> bool \<Rightarrow> MessageBuilder" where
  "builder_padding_in_value_len self b = self\<lparr>mb_padding_in_value_len := b\<rparr>"

definition builder_set_len :: "MessageBuilder \<Rightarrow> u16 \<Rightarrow> MessageBuilder" where
  "builder_set_len self len =
     (let head = head_set_len (mb_head self) len
      in self\<lparr>mb_head := head, mb_buffer := put_u32 head @ drop 4 (mb_buffer self)\<rparr>)"

definition builder_put :: "MessageBuilder \<Rightarrow> bytes \<Rightarrow> MessageBuilder" where
  "builder_put self bs = self\<lparr>mb_buffer := mb_buffer self @ bs\<rparr>"

definition builder_id :: "MessageBuilder \<Rightarrow> u128" where
  "builder_id self = from_be (put_u32 COOKIE @ tid_0 (mb_transaction_id self))"

definition builder_finish :: "MessageBuilder \<Rightarrow> bytes panics" where
  "builder_finish self =
     (case u16_try_from (length (mb_buffer self) - STUN_HEADER_LENGTH) of
        None \<Rightarrow> None
      | Some len \<Rightarrow> Some (mb_buffer (builder_set_len self len)))"

section \<open>The trait\<close>

record ('c, 'a) Attribute =
  attr_TYPE :: u16
  attr_decode :: "'c \<Rightarrow> Message \<Rightarrow> AttrSpan \<Rightarrow> (stun_error, 'a) result \<times> Message"
  attr_encode :: "'a \<Rightarrow> 'c \<Rightarrow> MessageBuilder \<Rightarrow> MessageBuilder panics"
  attr_encode_len :: "'a \<Rightarrow> (stun_error, u16) result"

definition add_attr_with ::
    "('c, 'a) Attribute \<Rightarrow> 'a \<Rightarrow> 'c \<Rightarrow> MessageBuilder \<Rightarrow> MessageBuilder panics" where
  "add_attr_with A attr ctx self =
     (case attr_encode_len A attr of
        Inl _ \<Rightarrow> None
      | Inr enc_len \<Rightarrow>
          let padding = padding_u16 enc_len;
              len = (if mb_padding_in_value_len self then enc_len + padding else enc_len)
          in map_option (\<lambda>b. builder_put b (replicate (padding_usize (unat enc_len)) 0))
               (attr_encode A attr ctx
                  (builder_put (builder_put self (put_u16 (attr_TYPE A))) (put_u16 len))))"

definition add_attr ::
    "(unit, 'a) Attribute \<Rightarrow> 'a \<Rightarrow> MessageBuilder \<Rightarrow> MessageBuilder panics" where
  "add_attr A attr self = add_attr_with A attr () self"

definition attribute_with ::
    "('c, 'a) Attribute \<Rightarrow> 'c \<Rightarrow> Message \<Rightarrow> (stun_error, 'a) result option \<times> Message" where
  "attribute_with A ctx self =
     (case find_attribute False (attr_TYPE A) (msg_attributes self) of
        None \<Rightarrow> (None, self)
      | Some attr \<Rightarrow> (let (r, self') = attr_decode A ctx self attr in (Some r, self')))"

definition attribute ::
    "(unit, 'a) Attribute \<Rightarrow> Message \<Rightarrow> (stun_error, 'a) result option \<times> Message" where
  "attribute A self = attribute_with A () self"

section \<open>Type-length-value view of a message\<close>

text \<open>
  What a message carries, independently of offsets: its attributes as a list of types and
  values in order. \<open>tlv_bytes\<close> is the wire form of one attribute and \<open>tlv_find\<close> the
  lookup the message performs.
\<close>

type_synonym tlv = "u16 \<times> bytes"

definition tlv_ok :: "tlv \<Rightarrow> bool" where
  "tlv_ok e \<longleftrightarrow> length (snd e) < 65536"

definition tlv_bytes :: "tlv \<Rightarrow> bytes" where
  "tlv_bytes e = put_u16 (fst e) @ put_u16 (of_nat (length (snd e))) @ snd e
     @ replicate (padding_usize (length (snd e))) 0"

abbreviation tlvs_bytes :: "tlv list \<Rightarrow> bytes" where
  "tlvs_bytes es \<equiv> concat (map tlv_bytes es)"

definition span_tlv :: "bytes \<Rightarrow> AttrSpan \<Rightarrow> tlv" where
  "span_tlv buf sp = (span_typ sp, get_value sp buf)"

definition span_ok :: "bytes \<Rightarrow> AttrSpan \<Rightarrow> bool" where
  "span_ok buf sp \<longleftrightarrow> 24 \<le> span_begin sp \<and> span_begin sp \<le> span_end sp
     \<and> span_end sp \<le> span_padding_end sp \<and> span_padding_end sp \<le> length buf"

fun tlv_find :: "bool \<Rightarrow> u16 \<Rightarrow> tlv list \<Rightarrow> tlv option" where
  "tlv_find after_integrity typ [] = None"
| "tlv_find after_integrity typ (e # es) =
     (if after_integrity \<and> \<not> (fst e = TYPE_MessageIntegritySha256 \<or> fst e = TYPE_Fingerprint)
      then None
      else if fst e = typ then Some e
      else tlv_find (after_integrity \<or> fst e = TYPE_MessageIntegrity
             \<or> fst e = TYPE_MessageIntegritySha256) typ es)"

lemma find_attribute_tlv:
  "map_option (span_tlv buf) (find_attribute ai typ spans) = tlv_find ai typ (map (span_tlv buf) spans)"
  by (induction spans arbitrary: ai) (auto simp: span_tlv_def)

lemma find_attribute_in: "find_attribute ai typ spans = Some sp \<Longrightarrow> sp \<in> set spans \<and> span_typ sp = typ"
  by (induction spans arbitrary: ai) (auto split: if_splits)

lemma length_tlv_bytes: "length (tlv_bytes e) = 4 + length (snd e) + padding_usize (length (snd e))"
  by (simp add: tlv_bytes_def)

lemma length_tlv_bytes_mod [simp]: "length (tlv_bytes e) mod 4 = 0"
  using padding_usize_aligned [of "length (snd e)"] by (simp add: length_tlv_bytes add.assoc)

section \<open>Parsing what has the wire form\<close>

fun tlv_spans :: "nat \<Rightarrow> tlv list \<Rightarrow> AttrSpan list" where
  "tlv_spans pos [] = []"
| "tlv_spans pos (e # es) =
     \<lparr>span_begin = pos + 4, span_end = pos + 4 + length (snd e),
      span_padding_end = pos + length (tlv_bytes e), span_typ = fst e\<rparr>
     # tlv_spans (pos + length (tlv_bytes e)) es"

lemma parse_attributes_step:
  assumes "tlv_ok e"
  shows "parse_attributes (pre @ tlv_bytes e @ post) (length pre) =
     bind_res (parse_attributes (pre @ tlv_bytes e @ post) (length pre + length (tlv_bytes e)))
       (\<lambda>attrs. Inr (\<lparr>span_begin = length pre + 4, span_end = length pre + 4 + length (snd e),
          span_padding_end = length pre + length (tlv_bytes e), span_typ = fst e\<rparr> # attrs))"
proof -
  let ?v = "snd e @ replicate (padding_usize (length (snd e))) 0 @ post"
  have split: "tlv_bytes e @ post = put_u16 (fst e) @ put_u16 (of_nat (length (snd e))) @ ?v"
    by (simp add: tlv_bytes_def)
  have len: "unat (of_nat (length (snd e)) :: u16) = length (snd e)"
    using assms by (simp add: tlv_ok_def unat_of_nat_u16)
  have r1: "read_u16 (tlv_bytes e @ post) = Some (fst e, put_u16 (of_nat (length (snd e))) @ ?v)"
    unfolding split by (rule read_be_append) simp
  have r2: "read_u16 (put_u16 (of_nat (length (snd e))) @ ?v) = Some (of_nat (length (snd e)), ?v)"
    by (rule read_be_append) simp
  have "\<not> length (pre @ tlv_bytes e @ post) \<le> length pre"
    by (simp add: length_tlv_bytes)
  then show ?thesis
    by (subst parse_attributes.simps)
      (simp add: r1 r2 len Let_def length_tlv_bytes add.assoc del: to_be.simps)
qed

lemma parse_attributes_tlvs:
  "(\<forall>e\<in>set es. tlv_ok e) \<Longrightarrow>
     parse_attributes (pre @ tlvs_bytes es) (length pre) = Inr (tlv_spans (length pre) es)"
proof (induction es arbitrary: pre)
  case Nil
  then show ?case by (simp add: parse_attributes.simps)
next
  case (Cons e es)
  have "parse_attributes ((pre @ tlv_bytes e) @ tlvs_bytes es) (length (pre @ tlv_bytes e))
      = Inr (tlv_spans (length (pre @ tlv_bytes e)) es)"
    using Cons by (intro Cons.IH) simp
  with Cons.prems show ?case
    using parse_attributes_step [of e pre "tlvs_bytes es"] by simp
qed

lemma span_tlv_bytes:
  "span_tlv (pre @ tlv_bytes e @ post) \<lparr>span_begin = length pre + 4,
      span_end = length pre + 4 + length (snd e), span_padding_end = pe, span_typ = fst e\<rparr> = e"
  by (simp add: span_tlv_def get_value_def tlv_bytes_def)

lemma map_span_tlv_spans:
  "map (span_tlv (pre @ tlvs_bytes es)) (tlv_spans (length pre) es) = es"
proof (induction es arbitrary: pre)
  case Nil
  then show ?case by simp
next
  case (Cons e es)
  have "map (span_tlv ((pre @ tlv_bytes e) @ tlvs_bytes es)) (tlv_spans (length (pre @ tlv_bytes e)) es) = es"
    by (rule Cons.IH)
  then show ?case
    by (simp add: span_tlv_bytes)
qed

text \<open>The 20 header bytes and what follows them.\<close>

definition header_bytes :: "MessageHead \<Rightarrow> bytes \<Rightarrow> bytes" where
  "header_bytes head tid = put_u32 head @ put_u32 COOKIE @ tid"

lemma length_header_bytes [simp]: "length (header_bytes head tid) = 8 + length tid"
  by (simp add: header_bytes_def)

definition stun_id :: "bytes \<Rightarrow> u128" where
  "stun_id tid = from_be (put_u32 COOKIE @ tid)"

lemma to_be_stun_id: "length tid = 12 \<Longrightarrow> to_be 16 (stun_id tid) = put_u32 COOKIE @ tid"
  unfolding stun_id_def using to_be_from_be [of "put_u32 COOKIE @ tid", where 'a = 128]
  by (simp del: to_be.simps)

lemma message_parse_wire:
  assumes tid: "length tid = 12" and es: "\<forall>e\<in>set es. tlv_ok e"
    and head: "head_z head = 0" "class_try_from (head_typ head) = Inr c"
      "method_try_from (head_typ head) = Inr m"
  shows "message_parse (header_bytes head tid @ tlvs_bytes es) =
    Inr \<lparr>msg_buffer = header_bytes head tid @ tlvs_bytes es, msg_head = head, msg_id = stun_id tid,
      msg_class = c, msg_method = m, msg_transaction_id = TransactionId tid,
      msg_attributes = tlv_spans 20 es\<rparr>"
proof -
  let ?buf = "header_bytes head tid @ tlvs_bytes es"
  have r1: "read_u32 ?buf = Some (head, put_u32 COOKIE @ tid @ tlvs_bytes es)"
    unfolding header_bytes_def append_assoc by (rule read_be_append) simp
  have r2: "read_u128 (put_u32 COOKIE @ tid @ tlvs_bytes es) = Some (stun_id tid, tlvs_bytes es)"
    using tid by (simp add: read_be_def stun_id_def del: to_be.simps)
  have attrs: "parse_attributes ?buf 20 = Inr (tlv_spans 20 es)"
    using parse_attributes_tlvs [OF es, of "header_bytes head tid"] tid by simp
  have "from_be (put_u32 COOKIE) = COOKIE"
    by (rule from_be_to_be_full) simp
  then show ?thesis
    using head tid
    by (simp add: message_parse_def r1 r2 attrs to_be_stun_id Let_def del: to_be.simps)
qed

section \<open>Builders and the attributes they hold\<close>

definition builder_holds :: "MessageBuilder \<Rightarrow> Class \<Rightarrow> Method \<Rightarrow> bytes \<Rightarrow> tlv list \<Rightarrow> bool" where
  "builder_holds b c m tid es \<longleftrightarrow>
     length tid = 12 \<and> mb_transaction_id b = TransactionId tid \<and> \<not> mb_padding_in_value_len b
     \<and> head_set_len (mb_head b) 0 = head_set_len (head_set_typ 0 (class_set_bits c (method_set_bits m 0))) 0
     \<and> mb_buffer b = header_bytes (mb_head b) tid @ tlvs_bytes es
     \<and> (\<forall>e\<in>set es. tlv_ok e)"

lemma builder_holds_new:
  "length tid = 12 \<Longrightarrow> builder_holds (builder_new c m (TransactionId tid)) c m tid []"
  by (simp add: builder_holds_def builder_new_def Let_def header_bytes_def)

lemma builder_holds_id: "builder_holds b c m tid es \<Longrightarrow> builder_id b = stun_id tid"
  by (simp add: builder_holds_def builder_id_def stun_id_def)

lemma builder_holds_set_len:
  "builder_holds b c m tid es \<Longrightarrow> builder_holds (builder_set_len b l) c m tid es"
  by (simp add: builder_holds_def builder_set_len_def Let_def header_bytes_def del: to_be.simps)

text \<open>The head of a builder: the type bits and some length.\<close>

lemma builder_holds_head:
  assumes "builder_holds b c m tid es"
  shows "head_z (head_set_len (mb_head b) l) = 0"
    "class_try_from (head_typ (head_set_len (mb_head b) l)) = Inr c"
    "method_try_from (head_typ (head_set_len (mb_head b) l)) = Inr m"
proof -
  have eq: "head_set_len (mb_head b) 0 = head_set_len (head_set_typ 0 (class_set_bits c (method_set_bits m 0))) 0"
    using assms by (simp add: builder_holds_def)
  have "head_z (mb_head b) = 0"
    using arg_cong [OF eq, of head_z] by (simp add: head_of_typ)
  moreover have "head_typ (mb_head b) = class_set_bits c (method_set_bits m 0)"
    using arg_cong [OF eq, of head_typ] by (simp add: head_of_typ)
  ultimately show "head_z (head_set_len (mb_head b) l) = 0"
    "class_try_from (head_typ (head_set_len (mb_head b) l)) = Inr c"
    "method_try_from (head_typ (head_set_len (mb_head b) l)) = Inr m"
    by (simp_all add: message_typ_roundtrip)
qed

text \<open>Finishing a builder and parsing the result.\<close>

lemma builder_finish_parse:
  assumes b: "builder_holds b c m tid es" and small: "length (tlvs_bytes es) < 65536"
  shows "\<exists>bs msg. builder_finish b = Some bs \<and> message_parse bs = Inr msg
    \<and> bs = header_bytes (head_set_len (mb_head b) (of_nat (length (tlvs_bytes es)))) tid @ tlvs_bytes es
    \<and> msg_class msg = c \<and> msg_method msg = m \<and> msg_transaction_id msg = TransactionId tid
    \<and> msg_id msg = stun_id tid \<and> msg_buffer msg = bs \<and> msg_attributes msg = tlv_spans 20 es
    \<and> msg_head msg = head_set_len (mb_head b) (of_nat (length (tlvs_bytes es)))"
proof -
  let ?l = "of_nat (length (tlvs_bytes es)) :: u16"
  let ?bs = "header_bytes (head_set_len (mb_head b) ?l) tid @ tlvs_bytes es"
  have tid: "length tid = 12" and es: "\<forall>e\<in>set es. tlv_ok e"
    and buf: "mb_buffer b = header_bytes (mb_head b) tid @ tlvs_bytes es"
    using b by (auto simp: builder_holds_def)
  have "mb_buffer (builder_set_len b ?l) = ?bs"
    by (simp add: builder_set_len_def Let_def buf header_bytes_def del: to_be.simps)
  then have "builder_finish b = Some ?bs"
    using small tid by (simp add: builder_finish_def buf STUN_HEADER_LENGTH_def u16_try_from_def)
  with message_parse_wire [OF tid es builder_holds_head [OF b, of ?l]] show ?thesis by simp
qed

section \<open>Spans of any parsed message are in bounds\<close>

lemma parse_attributes_in_bounds:
  "parse_attributes buf pos = Inr spans \<Longrightarrow> 20 \<le> pos \<Longrightarrow> \<forall>sp\<in>set spans. span_ok buf sp"
proof (induction buf pos arbitrary: spans rule: parse_attributes.induct)
  case (1 buf pos)
  show ?case
  proof (cases "length buf \<le> pos")
    case True
    with "1.prems" show ?thesis by (simp add: parse_attributes.simps)
  next
    case False
    with "1.prems"(1) obtain t r l r' attrs where
      rd: "read_u16 (drop pos buf) = Some (t, r)" "read_u16 r = Some (l, r')"
      and fits: "\<not> length buf < pos + 4 + unat l + padding_usize (unat l)"
      and rec: "parse_attributes buf (pos + 4 + unat l + padding_usize (unat l)) = Inr attrs"
      and spans: "spans = \<lparr>span_begin = pos + 4, span_end = pos + 4 + unat l,
        span_padding_end = pos + 4 + unat l + padding_usize (unat l), span_typ = t\<rparr> # attrs"
      by (subst (asm) parse_attributes.simps)
        (auto simp: res_iff Let_def split: if_splits prod.splits)
    have "\<forall>sp\<in>set attrs. span_ok buf sp"
      using "1.IH" [OF False _ refl _ refl refl refl refl fits rec] rd "1.prems"(2)
      by (simp add: res_iff)
    with spans fits "1.prems"(2) show ?thesis by (auto simp: span_ok_def)
  qed
qed

lemma message_parse_spans:
  assumes "message_parse buf = Inr msg"
  shows "msg_buffer msg = buf \<and> (\<forall>sp\<in>set (msg_attributes msg). span_ok buf sp)
    \<and> 20 \<le> length buf \<and> take 4 buf = put_u32 (msg_head msg)"
proof -
  from assms obtain head rest ident rest' where
    rd: "read_u32 buf = Some (head, rest)" "read_u128 rest = Some (ident, rest')"
    and m: "msg_buffer msg = buf" "msg_head msg = head"
    and at: "parse_attributes buf 20 = Inr (msg_attributes msg)"
    by (auto simp: message_parse_def res_iff Let_def split: if_splits prod.splits)
  have "take 4 buf = put_u32 head" "20 \<le> length buf"
    using read_be_SomeD [OF rd(1)] read_be_SomeD [OF rd(2)]
      to_be_from_be [of "take 4 buf", where 'a = 32] by auto
  with m parse_attributes_in_bounds [OF at] show ?thesis by simp
qed

text \<open>
  Running a computation under a temporarily changed length leaves the message as it was, as
  long as the computation itself does.
\<close>

lemma with_msg_len_restores:
  assumes "take 4 (msg_buffer self) = put_u32 (msg_head self)" "4 \<le> length (msg_buffer self)"
    and f: "\<And>msg. snd (f msg) = msg"
  shows "snd (with_msg_len self len f) = self"
proof -
  have "put_u32 (msg_head self) @ drop 4 (msg_buffer self) = msg_buffer self"
    using assms(1) append_take_drop_id [of 4 "msg_buffer self"] by simp
  then have "set_msg_len (set_msg_len self len) (head_len (msg_head self)) = self"
    by (simp add: set_msg_len_def Let_def del: to_be.simps)
  then show ?thesis
    using f [of "set_msg_len self len"] by (simp add: with_msg_len_def Let_def case_prod_unfold)
qed

section \<open>The attributes tile the message\<close>

text \<open>
  Each span starts four bytes after the padded end of the one before it, and the last one
  ends where the buffer does.
\<close>

fun spans_tile :: "nat \<Rightarrow> AttrSpan list \<Rightarrow> nat \<Rightarrow> bool" where
  "spans_tile pos [] n \<longleftrightarrow> n = pos"
| "spans_tile pos (sp # sps) n \<longleftrightarrow>
     span_begin sp = pos + 4 \<and> span_begin sp \<le> span_end sp
     \<and> span_padding_end sp = span_end sp + padding_usize (span_end sp - span_begin sp)
     \<and> spans_tile (span_padding_end sp) sps n"

lemma parse_attributes_tile:
  "parse_attributes buf pos = Inr spans \<Longrightarrow> pos \<le> length buf \<Longrightarrow> spans_tile pos spans (length buf)"
proof (induction buf pos arbitrary: spans rule: parse_attributes.induct)
  case (1 buf pos)
  show ?case
  proof (cases "length buf \<le> pos")
    case True
    with "1.prems" show ?thesis by (simp add: parse_attributes.simps)
  next
    case False
    with "1.prems"(1) obtain t r l r' attrs where
      rd: "read_u16 (drop pos buf) = Some (t, r)" "read_u16 r = Some (l, r')"
      and fits: "\<not> length buf < pos + 4 + unat l + padding_usize (unat l)"
      and rec: "parse_attributes buf (pos + 4 + unat l + padding_usize (unat l)) = Inr attrs"
      and spans: "spans = \<lparr>span_begin = pos + 4, span_end = pos + 4 + unat l,
        span_padding_end = pos + 4 + unat l + padding_usize (unat l), span_typ = t\<rparr> # attrs"
      by (subst (asm) parse_attributes.simps)
        (auto simp: res_iff Let_def split: if_splits prod.splits)
    have "spans_tile (pos + 4 + unat l + padding_usize (unat l)) attrs (length buf)"
      using "1.IH" [OF False _ refl _ refl refl refl refl fits rec] rd fits by (simp add: res_iff)
    with spans show ?thesis by simp
  qed
qed

text \<open>
  C35: Parsing never loses or invents bytes: the attributes of a parsed message tile the
  buffer from byte 20 to its end, each value and its padding lying inside the buffer, so
  that slicing a value out of the buffer cannot fail.\<close>

theorem message_parse_tiles:
  assumes "message_parse buf = Inr msg"
  shows "msg_buffer msg = buf \<and> 20 \<le> length buf \<and> spans_tile 20 (msg_attributes msg) (length buf)
    \<and> (\<forall>sp\<in>set (msg_attributes msg). 24 \<le> span_begin sp \<and> span_begin sp \<le> span_end sp
          \<and> span_end sp \<le> span_padding_end sp \<and> span_padding_end sp \<le> length buf)"
proof -
  have "parse_attributes buf 20 = Inr (msg_attributes msg)"
    using assms by (auto simp: message_parse_def res_iff Let_def split: if_splits prod.splits)
  with message_parse_spans [OF assms] parse_attributes_tile [of buf 20 "msg_attributes msg"]
  show ?thesis by (simp add: span_ok_def)
qed

definition sample_request :: bytes where
  "sample_request = header_bytes 0x0001000C (replicate 12 7)
     @ [0x80, 0x22, 0, 3, 0x65, 0x7A, 0x6B, 0, 0, 0x25, 0, 0]"

theorem message_parse_tiles_witness:
  "\<exists>msg. message_parse sample_request = Inr msg \<and> length (msg_attributes msg) = 2
     \<and> spans_tile 20 (msg_attributes msg) (length sample_request)"
proof -
  have "sample_request = header_bytes 0x0001000C (replicate 12 7)
      @ tlvs_bytes [(0x8022, [0x65, 0x7A, 0x6B]), (0x0025, [])]"
    by code_simp
  moreover have "head_z 0x0001000C = 0" "class_try_from (head_typ 0x0001000C) = Inr Request"
    "method_try_from (head_typ 0x0001000C) = Inr Binding"
    by (simp_all add: head_z_def head_typ_def class_try_from_def method_try_from_def CLASS_MASK_def
        METHOD_MASK_def Let_def)
  ultimately obtain msg where "message_parse sample_request = Inr msg" "length (msg_attributes msg) = 2"
    using message_parse_wire [of "replicate 12 7" "[(0x8022, [0x65, 0x7A, 0x6B]), (0x0025, [])]" "0x0001000C"]
    by (simp add: tlv_ok_def)
  with message_parse_tiles [of sample_request msg] show ?thesis by blast
qed

section \<open>Which attributes a lookup reaches\<close>

text \<open>Whether a lookup of type \<open>T\<close> gets past the attributes \<open>es\<close>.\<close>

fun tlv_visible :: "bool \<Rightarrow> u16 \<Rightarrow> tlv list \<Rightarrow> bool" where
  "tlv_visible ai T [] = (ai \<longrightarrow> T = TYPE_MessageIntegritySha256 \<or> T = TYPE_Fingerprint)"
| "tlv_visible ai T (e # es) =
     ((ai \<longrightarrow> fst e = TYPE_MessageIntegritySha256 \<or> fst e = TYPE_Fingerprint) \<and> fst e \<noteq> T
      \<and> tlv_visible (ai \<or> fst e = TYPE_MessageIntegrity \<or> fst e = TYPE_MessageIntegritySha256) T es)"

lemma tlv_find_visible:
  "tlv_visible ai T es \<Longrightarrow> tlv_find ai T (es @ (T, v) # es') = Some (T, v)"
  by (induction es arbitrary: ai) auto

lemma find_attribute_visible:
  "tlv_visible ai T es \<Longrightarrow>
     find_attribute ai T (tlv_spans pos (es @ (T, v) # es')) =
       Some \<lparr>span_begin = pos + length (tlvs_bytes es) + 4,
             span_end = pos + length (tlvs_bytes es) + 4 + length v,
             span_padding_end = pos + length (tlvs_bytes es) + length (tlv_bytes (T, v)), span_typ = T\<rparr>"
  by (induction es arbitrary: ai pos) (auto simp: add.assoc)

abbreviation sealing_types :: "u16 set" where
  "sealing_types \<equiv> {TYPE_MessageIntegrity, TYPE_MessageIntegritySha256, TYPE_Fingerprint}"

lemma tlv_visible_plain:
  "(\<forall>e\<in>set es. fst e \<noteq> T \<and> fst e \<notin> sealing_types) \<Longrightarrow> tlv_visible False T es"
  by (induction es) auto

lemma find_attribute_hidden:
  assumes "\<forall>sp\<in>set before. span_typ sp \<noteq> T" "span_typ sp = TYPE_MessageIntegrity"
    "T \<notin> sealing_types"
  shows "find_attribute ai T (before @ sp # behind) = None"
  using assms
proof (induction before arbitrary: ai)
  case Nil
  have "find_attribute True T behind = None"
    using assms(3) by (induction behind) auto
  with Nil show ?case by auto
next
  case (Cons a before)
  then show ?case by simp
qed

section \<open>The contract of an attribute\<close>

text \<open>
  What the builder and the message rely on: encoding appends the attribute's value, whose
  length the attribute announced, and decoding that value gives the attribute back. The
  value may depend on the 128-bit id of the message, which the xor-ed addresses use.
  \<open>wf\<close> delimits the attribute values the wire format can carry.
\<close>

locale plain_attribute =
  fixes A :: "(unit, 'a) Attribute" and val :: "u128 \<Rightarrow> 'a \<Rightarrow> bytes" and wf :: "'a \<Rightarrow> bool"
  assumes encode: "wf a \<Longrightarrow> attr_encode A a () b = Some (builder_put b (val (builder_id b) a))"
    and encode_len: "wf a \<Longrightarrow> \<exists>n. attr_encode_len A a = Inr n \<and> unat n = length (val i a)"
    and decode: "wf a \<Longrightarrow> get_value sp (msg_buffer msg) = val (msg_id msg) a \<Longrightarrow>
      attr_decode A () msg sp = (Inr a, msg)"
begin

lemma add_attr_holds:
  assumes b: "builder_holds b c m tid es" and a: "wf a"
  shows "\<exists>b'. add_attr A a b = Some b'
    \<and> builder_holds b' c m tid (es @ [(attr_TYPE A, val (stun_id tid) a)])"
proof -
  from encode_len [OF a, of "stun_id tid"] obtain n where
    n: "attr_encode_len A a = Inr n" "unat n = length (val (stun_id tid) a)" by blast
  have id': "builder_id (b\<lparr>mb_buffer := x\<rparr>) = stun_id tid" for x
    using builder_holds_id [OF b] by (simp add: builder_id_def)
  have small: "length (val (stun_id tid) a) < 65536"
    using unat_u16_less [of n] n(2) by simp
  have n': "n = of_nat (length (val (stun_id tid) a))"
    using n(2) by (metis of_nat_unat ucast_id)
  show ?thesis
    using b encode [OF a] n(1) small
    by (auto simp: add_attr_def add_attr_with_def builder_holds_def Let_def id' n(2) builder_put_def
        tlv_bytes_def tlv_ok_def n' [symmetric] simp del: to_be.simps)
qed

lemma attribute_reads:
  assumes "tlv_find False (attr_TYPE A) (map (span_tlv (msg_buffer msg)) (msg_attributes msg))
      = Some (attr_TYPE A, val (msg_id msg) a)" and "wf a"
  shows "attribute A msg = (Some (Inr a), msg)"
proof -
  from assms(1) obtain sp where
    sp: "find_attribute False (attr_TYPE A) (msg_attributes msg) = Some sp"
    "span_tlv (msg_buffer msg) sp = (attr_TYPE A, val (msg_id msg) a)"
    by (auto simp: find_attribute_tlv [symmetric])
  then show ?thesis
    using decode [OF assms(2), of sp msg]
    by (simp add: attribute_def attribute_with_def span_tlv_def)
qed

end

end
