(* ===== verification/Stun_Attributes.thy ===== *)
theory Stun_Attributes
  imports Stun_Message
begin

text \<open>
  The STUN, TURN and ICE attributes that need no key
  (\<^verbatim>\<open>media/stun-types/src/attributes/\<close>): one value of the attribute record per
  implementation of the trait. A \<^verbatim>\<open>&str\<close> is its UTF-8 bytes. Every attribute that can
  carry all its values over the wire is an instance of the contract \<open>plain_attribute\<close>.
\<close>

section \<open>Text and lengths\<close>

definition from_utf8 :: "bytes \<Rightarrow> (stun_error, bytes) result" where
  "from_utf8 bs = (if utf8_valid bs then Inr bs else Inl Utf8)"

definition len_u16 :: "nat \<Rightarrow> (stun_error, u16) result" where
  "len_u16 n = ok_or (u16_try_from n) TryFromInt"

lemma len_u16_small: "n < 65536 \<Longrightarrow> \<exists>w. len_u16 n = Inr w \<and> unat w = n"
  by (simp add: len_u16_def u16_try_from_def unat_of_nat_u16)

section \<open>Socket addresses\<close>

definition XOR16 :: u16 where "XOR16 = ucast (drop_bit 16 COOKIE)"

definition decode_addr :: "bytes \<Rightarrow> u16 \<Rightarrow> u32 \<Rightarrow> u128 \<Rightarrow> (stun_error, SocketAddr) result" where
  "decode_addr buf xor16 xor32 xor128 =
     bind_res (ok_or (read_u8 buf) eof_error) (\<lambda>(zero, buf).
       if zero \<noteq> 0 then Inl (InvalidData ''first byte must be zero'')
       else bind_res (ok_or (read_u8 buf) eof_error) (\<lambda>(family, buf).
         bind_res (ok_or (read_u16 buf) eof_error) (\<lambda>(port, buf).
           if family = 1 then
             bind_res (ok_or (read_u32 buf) eof_error) (\<lambda>(ip, _).
               Inr (SockV4 (ip XOR xor32) (port XOR xor16)))
           else if family = 2 then
             bind_res (ok_or (read_u128 buf) eof_error) (\<lambda>(ip, _).
               Inr (SockV6 (ip XOR xor128) (port XOR xor16) 0 0))
           else Inl (InvalidData ''invalid address family''))))"

fun encode_addr :: "SocketAddr \<Rightarrow> u16 \<Rightarrow> u32 \<Rightarrow> u128 \<Rightarrow> bytes" where
  "encode_addr (SockV4 ip port) xor16 xor32 xor128 =
     [0] @ [1] @ put_u16 (port XOR xor16) @ put_u32 (ip XOR xor32)"
| "encode_addr (SockV6 ip port _ _) xor16 xor32 xor128 =
     [0] @ [2] @ put_u16 (port XOR xor16) @ put_u128 (ip XOR xor128)"

fun addr_encode_len :: "SocketAddr \<Rightarrow> (stun_error, u16) result" where
  "addr_encode_len (SockV4 _ _) = Inr 8"
| "addr_encode_len (SockV6 _ _ _ _) = Inr 20"

text \<open>The IPv6 flow info and scope id are not transmitted.\<close>

fun addr_wf :: "SocketAddr \<Rightarrow> bool" where
  "addr_wf (SockV4 _ _) = True"
| "addr_wf (SockV6 _ _ flow scope) = (flow = 0 \<and> scope = 0)"

lemma xor_xor_cancel [simp]: "(x XOR k) XOR k = (x :: 'a::len word)"
  by (simp add: xor.assoc)

lemma decode_encode_addr:
  assumes "addr_wf a"
  shows "decode_addr (encode_addr a k16 k32 k128) k16 k32 k128 = Inr a"
proof (cases a)
  case (SockV4 ip port)
  have "read_u16 (put_u16 (port XOR k16) @ put_u32 (ip XOR k32)) = Some (port XOR k16, put_u32 (ip XOR k32))"
    by (rule read_be_append) simp
  moreover have "read_u32 (put_u32 (ip XOR k32)) = Some (ip XOR k32, [])"
    by (rule read_be_whole) simp
  ultimately show ?thesis by (simp add: SockV4 decode_addr_def read_u8_Cons del: to_be.simps)
next
  case (SockV6 ip port flow scope)
  have "read_u16 (put_u16 (port XOR k16) @ put_u128 (ip XOR k128)) = Some (port XOR k16, put_u128 (ip XOR k128))"
    by (rule read_be_append) simp
  moreover have "read_u128 (put_u128 (ip XOR k128)) = Some (ip XOR k128, [])"
    by (rule read_be_whole) simp
  ultimately show ?thesis
    using assms by (simp add: SockV6 decode_addr_def read_u8_Cons del: to_be.simps)
qed

lemma length_encode_addr: "addr_encode_len a = Inr n \<Longrightarrow> unat n = length (encode_addr a k16 k32 k128)"
  by (cases a) auto

section \<open>Generic attributes\<close>

definition string_attribute :: "u16 \<Rightarrow> (unit, bytes) Attribute" where
  "string_attribute T =
     \<lparr>attr_TYPE = T,
      attr_decode = (\<lambda>_ msg attr. (from_utf8 (get_value attr (msg_buffer msg)), msg)),
      attr_encode = (\<lambda>s _ builder. Some (builder_put builder s)),
      attr_encode_len = (\<lambda>s. len_u16 (length s))\<rparr>"

definition bytes_attribute :: "u16 \<Rightarrow> (unit, bytes) Attribute" where
  "bytes_attribute T =
     \<lparr>attr_TYPE = T,
      attr_decode = (\<lambda>_ msg attr. (Inr (get_value attr (msg_buffer msg)), msg)),
      attr_encode = (\<lambda>s _ builder. Some (builder_put builder s)),
      attr_encode_len = (\<lambda>s. len_u16 (length s))\<rparr>"

abbreviation Username :: "(unit, bytes) Attribute" where "Username \<equiv> string_attribute 0x0006"
abbreviation Realm :: "(unit, bytes) Attribute" where "Realm \<equiv> string_attribute 0x0014"
abbreviation Nonce :: "(unit, bytes) Attribute" where "Nonce \<equiv> bytes_attribute 0x0015"
abbreviation Software :: "(unit, bytes) Attribute" where "Software \<equiv> string_attribute 0x8022"
abbreviation AlternateDomain :: "(unit, bytes) Attribute" where
  "AlternateDomain \<equiv> bytes_attribute 0x8003"
abbreviation DataAttribute :: "(unit, bytes) Attribute" where
  "DataAttribute \<equiv> bytes_attribute 0x0013"

fun read_u16s :: "bytes \<Rightarrow> (stun_error, u16 list) result" where
  "read_u16s [] = Inr []"
| "read_u16s [b] = Inl eof_error"
| "read_u16s (a # b # bs) = bind_res (read_u16s bs) (\<lambda>ws. Inr (from_be [a, b] # ws))"

definition UnknownAttributes :: "(unit, u16 list) Attribute" where
  "UnknownAttributes =
     \<lparr>attr_TYPE = 0x000A,
      attr_decode = (\<lambda>_ msg attr. (read_u16s (get_value attr (msg_buffer msg)), msg)),
      attr_encode = (\<lambda>attrs _ builder. Some (builder_put builder (concat (map put_u16 attrs)))),
      attr_encode_len = (\<lambda>attrs. len_u16 (length attrs * 2))\<rparr>"

section \<open>Addresses\<close>

definition addr_attribute :: "u16 \<Rightarrow> (u128 \<Rightarrow> u16 \<times> u32 \<times> u128) \<Rightarrow> (unit, SocketAddr) Attribute" where
  "addr_attribute T key =
     \<lparr>attr_TYPE = T,
      attr_decode = (\<lambda>_ msg attr.
        (case key (msg_id msg) of (k16, k32, k128) \<Rightarrow>
           decode_addr (get_value attr (msg_buffer msg)) k16 k32 k128, msg)),
      attr_encode = (\<lambda>addr _ builder.
        case key (builder_id builder) of (k16, k32, k128) \<Rightarrow>
          Some (builder_put builder (encode_addr addr k16 k32 k128))),
      attr_encode_len = addr_encode_len\<rparr>"

definition MappedAddress :: "(unit, SocketAddr) Attribute" where
  "MappedAddress = addr_attribute 0x0001 (\<lambda>_. (0, 0, 0))"

definition XorMappedAddress :: "(unit, SocketAddr) Attribute" where
  "XorMappedAddress = addr_attribute 0x0020 (\<lambda>i. (XOR16, COOKIE, i))"

definition AlternateServer :: "(unit, SocketAddr) Attribute" where
  "AlternateServer = addr_attribute 0x8023 (\<lambda>_. (0, 0, 0))"

definition XorPeerAddress :: "(unit, SocketAddr) Attribute" where
  "XorPeerAddress = XorMappedAddress\<lparr>attr_TYPE := 0x0012\<rparr>"

definition XorRelayedAddress :: "(unit, SocketAddr) Attribute" where
  "XorRelayedAddress = XorMappedAddress\<lparr>attr_TYPE := 0x0016\<rparr>"

section \<open>Error codes\<close>

record ErrorCode =
  ec_number :: u32
  ec_reason :: bytes

definition ec_head_number :: "u32 \<Rightarrow> u32" where "ec_head_number h = take_bit 8 h"
definition ec_head_class :: "u32 \<Rightarrow> u32" where "ec_head_class h = take_bit 4 (drop_bit 8 h)"

definition ec_head_set_number :: "u32 \<Rightarrow> u32 \<Rightarrow> u32" where
  "ec_head_set_number h n = (h AND NOT (mask 8)) OR take_bit 8 n"

definition ec_head_set_class :: "u32 \<Rightarrow> u32 \<Rightarrow> u32" where
  "ec_head_set_class h c = (h AND NOT (push_bit 8 (mask 4))) OR push_bit 8 (take_bit 4 c)"

definition error_code_decode :: "bytes \<Rightarrow> (stun_error, ErrorCode) result" where
  "error_code_decode value =
     (if length value < 4 then Inl (InvalidData ''error code must be at least 4 bytes'')
      else let head = from_be (take 4 value) :: u32; rest = drop 4 value in
        bind_res (if rest \<noteq> [] then from_utf8 rest else Inr []) (\<lambda>reason.
          Inr \<lparr>ec_number = ec_head_class head * 100 + ec_head_number head, ec_reason = reason\<rparr>))"

definition error_code_encode :: "ErrorCode \<Rightarrow> bytes" where
  "error_code_encode self =
     (let head = ec_head_set_number (ec_head_set_class 0 (ec_number self div 100)) (ec_number self mod 100)
      in put_u32 head @ ec_reason self)"

definition ErrorCodeAttr :: "(unit, ErrorCode) Attribute" where
  "ErrorCodeAttr =
     \<lparr>attr_TYPE = 0x0009,
      attr_decode = (\<lambda>_ msg attr. (error_code_decode (get_value attr (msg_buffer msg)), msg)),
      attr_encode = (\<lambda>self _ builder. Some (builder_put builder (error_code_encode self))),
      attr_encode_len = (\<lambda>self. len_u16 (4 + length (ec_reason self)))\<rparr>"

section \<open>Fixed-width integers\<close>

text \<open>
  An integer of \<open>n\<close> bytes; a value of any other length is rejected with the given message
  when there is one, and otherwise only if it is too short.
\<close>

definition int_decode :: "nat \<Rightarrow> string option \<Rightarrow> bytes \<Rightarrow> (stun_error, 'w::len word) result" where
  "int_decode n exact value =
     (case exact of
        Some err \<Rightarrow> if length value \<noteq> n then Inl (InvalidData err) else Inr (from_be (take n value))
      | None \<Rightarrow> if length value < n then Inl eof_error else Inr (from_be (take n value)))"

definition int_attribute :: "u16 \<Rightarrow> nat \<Rightarrow> string option \<Rightarrow> bytes \<Rightarrow> (unit, 'w::len word) Attribute" where
  "int_attribute T n exact suffix =
     \<lparr>attr_TYPE = T,
      attr_decode = (\<lambda>_ msg attr. (int_decode n exact (get_value attr (msg_buffer msg)), msg)),
      attr_encode = (\<lambda>w _ builder. Some (builder_put builder (to_be n w @ suffix))),
      attr_encode_len = (\<lambda>_. Inr (of_nat (n + length suffix)))\<rparr>"

definition Priority :: "(unit, u32) Attribute" where
  "Priority = int_attribute 0x0024 4 (Some ''priority value must be 4 bytes'') []"

definition IceControlled :: "(unit, u64) Attribute" where
  "IceControlled = int_attribute 0x8029 8 (Some ''ice-controlled value must be 8 bytes'') []"

definition IceControlling :: "(unit, u64) Attribute" where
  "IceControlling = int_attribute 0x802A 8 (Some ''ice-controlling value must be 8 bytes'') []"

definition ChannelNumber :: "(unit, u16) Attribute" where
  "ChannelNumber = int_attribute 0x000C 2 None [0, 0]"

definition Lifetime :: "(unit, u32) Attribute" where
  "Lifetime = int_attribute 0x000D 4 None []"

definition RequestedTransport :: "(unit, u8) Attribute" where
  "RequestedTransport = int_attribute 0x0019 1 None [0, 0, 0]"

definition EvenPort :: "(unit, bool) Attribute" where
  "EvenPort =
     \<lparr>attr_TYPE = 0x0018,
      attr_decode = (\<lambda>_ msg attr.
        (bind_res (ok_or (read_u8 (get_value attr (msg_buffer msg))) eof_error)
           (\<lambda>(b, _). Inr (b = 1)), msg)),
      attr_encode = (\<lambda>self _ builder. Some (builder_put builder [if self then 1 else 0])),
      attr_encode_len = (\<lambda>_. Inr 1)\<rparr>"

section \<open>Flags and fixed arrays\<close>

definition flag_attribute :: "u16 \<Rightarrow> (unit, unit) Attribute" where
  "flag_attribute T =
     \<lparr>attr_TYPE = T, attr_decode = (\<lambda>_ msg _. (Inr (), msg)),
      attr_encode = (\<lambda>_ _ builder. Some builder), attr_encode_len = (\<lambda>_. Inr 0)\<rparr>"

definition UseCandidate :: "(unit, unit) Attribute" where "UseCandidate = flag_attribute 0x0025"
definition DontFragment :: "(unit, unit) Attribute" where "DontFragment = flag_attribute 0x001A"

definition array_attribute :: "u16 \<Rightarrow> nat \<Rightarrow> string \<Rightarrow> (unit, bytes) Attribute" where
  "array_attribute T n err =
     \<lparr>attr_TYPE = T,
      attr_decode = (\<lambda>_ msg attr.
        (let value = get_value attr (msg_buffer msg)
         in if length value \<noteq> n then Inl (InvalidData err) else Inr value, msg)),
      attr_encode = (\<lambda>self _ builder. Some (builder_put builder self)),
      attr_encode_len = (\<lambda>_. Inr (of_nat n))\<rparr>"

definition ReservationToken :: "(unit, bytes) Attribute" where
  "ReservationToken = array_attribute 0x0022 8 ''reservation token must be 8 bytes''"

definition UserHash :: "(unit, bytes) Attribute" where
  "UserHash = array_attribute 0x001E 32 ''user hash buf must be 32 bytes''"

text \<open>\<open>UserHash::new\<close> over the SHA-256 function.\<close>

definition user_hash_new :: "(bytes \<Rightarrow> bytes) \<Rightarrow> bytes \<Rightarrow> bytes \<Rightarrow> bytes" where
  "user_hash_new sha256 username realm = sha256 (username @ [0x3A] @ realm)"

section \<open>Password algorithms\<close>

definition pa_bytes :: "u16 \<times> bytes \<Rightarrow> bytes" where
  "pa_bytes e = put_u16 (fst e) @ put_u16 (of_nat (length (snd e))) @ snd e
     @ replicate (padding_usize (length (snd e))) 0"

definition pa_fits :: "u16 \<times> bytes \<Rightarrow> bool" where
  "pa_fits e \<longleftrightarrow> length (snd e) < 65536"

text \<open>One entry: the algorithm and a slice of its parameters, and what is left to read.\<close>

definition pa_read :: "bytes \<Rightarrow> (stun_error, (u16 \<times> bytes) \<times> bytes) result" where
  "pa_read value =
     bind_res (ok_or (read_u16 value) eof_error) (\<lambda>(alg, value).
     bind_res (ok_or (read_u16 value) eof_error) (\<lambda>(len, value).
       if length value < unat len then Inl (InvalidData ''invalid algorithm len'')
       else Inr ((alg, take (unat len) value), value)))"

lemma pa_read_shorter: "pa_read value = Inr (e, rest) \<Longrightarrow> length rest < length value"
  by (auto simp: pa_read_def res_iff read_be_def split: if_splits)

function pa_decode :: "bytes \<Rightarrow> (stun_error, (u16 \<times> bytes) list) result" where
  "pa_decode value =
     (if value = [] then Inr []
      else bind_res (pa_read value) (\<lambda>(e, rest).
           bind_res (pa_decode rest) (\<lambda>es. Inr (e # es))))"
  by pat_completeness auto
termination
  by (relation "measure length") (auto dest: pa_read_shorter)

declare pa_decode.simps [simp del]

definition pa_len :: "(u16 \<times> bytes) list \<Rightarrow> nat" where
  "pa_len es = sum_list (map (\<lambda>e. 4 + length (snd e) + padding_usize (length (snd e))) es)"

definition PasswordAlgorithms :: "(unit, (u16 \<times> bytes) list) Attribute" where
  "PasswordAlgorithms =
     \<lparr>attr_TYPE = 0x8002,
      attr_decode = (\<lambda>_ msg attr. (pa_decode (get_value attr (msg_buffer msg)), msg)),
      attr_encode = (\<lambda>es _ builder.
        if list_all pa_fits es then Some (builder_put builder (concat (map pa_bytes es))) else None),
      attr_encode_len = (\<lambda>es. len_u16 (pa_len es))\<rparr>"

definition PasswordAlgorithm :: "(unit, u16 \<times> bytes) Attribute" where
  "PasswordAlgorithm =
     \<lparr>attr_TYPE = 0x001D,
      attr_decode = (\<lambda>_ msg attr.
        (bind_res (pa_read (get_value attr (msg_buffer msg))) (\<lambda>(e, _). Inr e), msg)),
      attr_encode = (\<lambda>e _ builder.
        if pa_fits e then Some (builder_put builder (pa_bytes e)) else None),
      attr_encode_len = (\<lambda>e. len_u16 (4 + length (snd e) + padding_usize (length (snd e))))\<rparr>"

section \<open>The attributes keep the contract\<close>

lemmas attribute_defs = string_attribute_def bytes_attribute_def UnknownAttributes_def
  addr_attribute_def ErrorCodeAttr_def int_attribute_def EvenPort_def flag_attribute_def
  array_attribute_def PasswordAlgorithm_def PasswordAlgorithms_def

interpretation string_attr: plain_attribute "string_attribute T" "\<lambda>_ s. s"
  "\<lambda>s. utf8_valid s \<and> length s < 65536" for T
  by unfold_locales (auto simp: string_attribute_def from_utf8_def len_u16_small)

interpretation bytes_attr: plain_attribute "bytes_attribute T" "\<lambda>_ s. s" "\<lambda>s. length s < 65536" for T
  by unfold_locales (auto simp: bytes_attribute_def len_u16_small)

lemma read_u16s_put: "read_u16s (concat (map put_u16 ws)) = Inr ws"
proof (induction ws)
  case Nil
  then show ?case by simp
next
  case (Cons w ws)
  obtain a b where ab: "put_u16 w = [a, b]" by (simp add: numeral_2_eq_2)
  then have "from_be [a, b] = w" using from_be_to_be_full [of 2 w] by simp
  with Cons ab show ?case by simp
qed

lemma length_concat_put_u16: "length (concat (map put_u16 ws)) = length ws * 2"
  by (induction ws) auto

interpretation unknown_attrs: plain_attribute UnknownAttributes "\<lambda>_ ws. concat (map put_u16 ws)"
  "\<lambda>ws. length ws < 32768"
  using len_u16_small
  by unfold_locales (auto simp: UnknownAttributes_def read_u16s_put length_concat_put_u16)

interpretation addr_attr: plain_attribute "addr_attribute T key"
  "\<lambda>i a. case key i of (k16, k32, k128) \<Rightarrow> encode_addr a k16 k32 k128" addr_wf for T key
proof unfold_locales
  fix a i
  show "\<exists>n. attr_encode_len (addr_attribute T key) a = Inr n
      \<and> unat n = length (case key i of (k16, k32, k128) \<Rightarrow> encode_addr a k16 k32 k128)"
    by (cases a) (auto simp: addr_attribute_def split: prod.splits)
qed (auto simp: addr_attribute_def decode_encode_addr split: prod.splits)

lemma error_head_bits:
  "ec_head_class (ec_head_set_number (ec_head_set_class 0 c) n) = take_bit 4 c"
  "ec_head_number (ec_head_set_number (ec_head_set_class 0 c) n) = take_bit 8 n"
  by (rule bit_eqI; auto simp: ec_head_class_def ec_head_number_def ec_head_set_class_def
      ec_head_set_number_def bit_simps)+

lemma error_number_split:
  assumes "unat (n :: u32) < 1600"
  shows "take_bit 4 (n div 100) * 100 + take_bit 8 (n mod 100) = n"
proof -
  have "unat (n div 100) < 16" "unat (n mod 100) < 256"
    using assms by (simp_all add: unat_div unat_mod)
  then have "take_bit 4 (n div 100) = n div 100" "take_bit 8 (n mod 100) = n mod 100"
    by (simp_all add: word_unat_eq_iff unsigned_take_bit_eq take_bit_nat_eq_self)
  then show ?thesis by (simp add: word_mod_div_equality)
qed

lemma error_code_decode_encode:
  assumes "unat (ec_number e) < 1600" "utf8_valid (ec_reason e)"
  shows "error_code_decode (error_code_encode e) = Inr e"
proof -
  have "from_be (put_u32 h) = h" for h :: u32 by (rule from_be_to_be_full) simp
  with assms error_number_split [OF assms(1)] show ?thesis
    by (simp add: error_code_decode_def error_code_encode_def Let_def error_head_bits from_utf8_def
        del: to_be.simps)
qed

lemma length_error_code_encode: "length (error_code_encode e) = 4 + length (ec_reason e)"
  by (simp add: error_code_encode_def Let_def)

interpretation error_code_attr: plain_attribute ErrorCodeAttr "\<lambda>_. error_code_encode"
  "\<lambda>e. unat (ec_number e) < 1600 \<and> utf8_valid (ec_reason e) \<and> length (ec_reason e) < 65532"
proof unfold_locales
  fix e :: ErrorCode
  assume "unat (ec_number e) < 1600 \<and> utf8_valid (ec_reason e) \<and> length (ec_reason e) < 65532"
  then show "\<exists>n. attr_encode_len ErrorCodeAttr e = Inr n \<and> unat n = length (error_code_encode e)"
    using len_u16_small [of "4 + length (ec_reason e)"]
    by (simp add: ErrorCodeAttr_def length_error_code_encode)
qed (auto simp: ErrorCodeAttr_def error_code_decode_encode)

lemma int_decode_encode:
  "8 * n = LENGTH('w::len) \<Longrightarrow> exact = None \<or> suffix = [] \<Longrightarrow>
     int_decode n exact (to_be n (w :: 'w word) @ suffix) = Inr w"
  by (cases exact) (auto simp: int_decode_def from_be_to_be_full)

interpretation priority_attr: plain_attribute Priority "\<lambda>_ w. put_u32 w" "\<lambda>_. True"
  using int_decode_encode [of 4 _ "[]", where 'w = 32]
  by unfold_locales (auto simp: Priority_def int_attribute_def simp del: to_be.simps)

interpretation controlled_attr: plain_attribute IceControlled "\<lambda>_ w. put_u64 w" "\<lambda>_. True"
  using int_decode_encode [of 8 _ "[]", where 'w = 64]
  by unfold_locales (auto simp: IceControlled_def int_attribute_def simp del: to_be.simps)

interpretation controlling_attr: plain_attribute IceControlling "\<lambda>_ w. put_u64 w" "\<lambda>_. True"
  using int_decode_encode [of 8 _ "[]", where 'w = 64]
  by unfold_locales (auto simp: IceControlling_def int_attribute_def simp del: to_be.simps)

interpretation channel_attr: plain_attribute ChannelNumber "\<lambda>_ w. put_u16 w @ [0, 0]" "\<lambda>_. True"
  using int_decode_encode [of 2 None "[0, 0]", where 'w = 16]
  by unfold_locales (auto simp: ChannelNumber_def int_attribute_def simp del: to_be.simps)

interpretation lifetime_attr: plain_attribute Lifetime "\<lambda>_ w. put_u32 w" "\<lambda>_. True"
  using int_decode_encode [of 4 None "[]", where 'w = 32]
  by unfold_locales (auto simp: Lifetime_def int_attribute_def simp del: to_be.simps)

interpretation requested_transport_attr: plain_attribute RequestedTransport
  "\<lambda>_ w. to_be 1 w @ [0, 0, 0]" "\<lambda>_. True"
  using int_decode_encode [of 1 None "[0, 0, 0]", where 'w = 8]
  by unfold_locales (auto simp: RequestedTransport_def int_attribute_def simp del: to_be.simps)

interpretation even_port_attr: plain_attribute EvenPort "\<lambda>_ b. [if b then 1 else 0]" "\<lambda>_. True"
  by unfold_locales (auto simp: EvenPort_def read_u8_Cons)

interpretation flag_attr: plain_attribute "flag_attribute T" "\<lambda>_ _. []" "\<lambda>_. True" for T
  by unfold_locales (auto simp: flag_attribute_def builder_put_def)

interpretation reservation_attr: plain_attribute ReservationToken "\<lambda>_ s. s" "\<lambda>s. length s = 8"
  by unfold_locales (auto simp: ReservationToken_def array_attribute_def)

interpretation user_hash_attr: plain_attribute UserHash "\<lambda>_ s. s" "\<lambda>s. length s = 32"
  by unfold_locales (auto simp: UserHash_def array_attribute_def)

lemma pa_read_bytes:
  assumes "pa_fits e"
  shows "pa_read (pa_bytes e @ rest)
    = Inr (e, snd e @ replicate (padding_usize (length (snd e))) 0 @ rest)"
proof -
  let ?v = "snd e @ replicate (padding_usize (length (snd e))) 0 @ rest"
  have "read_u16 (pa_bytes e @ rest) = Some (fst e, put_u16 (of_nat (length (snd e))) @ ?v)"
    unfolding pa_bytes_def append_assoc by (rule read_be_append) simp
  moreover have "read_u16 (put_u16 (of_nat (length (snd e))) @ ?v) = Some (of_nat (length (snd e)), ?v)"
    by (rule read_be_append) simp
  ultimately show ?thesis
    using assms by (simp add: pa_read_def pa_fits_def unat_of_nat_u16 del: to_be.simps)
qed

lemma length_pa_bytes1: "length (pa_bytes e) = 4 + length (snd e) + padding_usize (length (snd e))"
  by (simp add: pa_bytes_def)

interpretation password_algorithm_attr: plain_attribute PasswordAlgorithm "\<lambda>_. pa_bytes"
  "\<lambda>e. length (snd e) < 65528"
proof unfold_locales
  fix e :: "u16 \<times> bytes" and i :: u128 and sp msg b
  assume e: "length (snd e) < 65528"
  then have "4 + length (snd e) + padding_usize (length (snd e)) < 65536"
    using padding_usize_less [of "length (snd e)"] by linarith
  from len_u16_small [OF this]
  show "\<exists>n. attr_encode_len PasswordAlgorithm e = Inr n \<and> unat n = length (pa_bytes e)"
    by (simp add: PasswordAlgorithm_def length_pa_bytes1)
  show "attr_encode PasswordAlgorithm e () b = Some (builder_put b (pa_bytes e))"
    using e by (simp add: PasswordAlgorithm_def pa_fits_def)
  show "attr_decode PasswordAlgorithm () msg sp = (Inr e, msg)"
    if "get_value sp (msg_buffer msg) = pa_bytes e"
    using e that pa_read_bytes [of e "[]"] by (simp add: PasswordAlgorithm_def pa_fits_def)
qed

text \<open>
  The list form keeps it only for entries without parameters: the decoder does not step
  over the parameters it has just read.
\<close>

lemma pa_decode_plain:
  "(\<forall>e\<in>set es. snd e = []) \<Longrightarrow> pa_decode (concat (map pa_bytes es)) = Inr es"
proof (induction es)
  case Nil
  then show ?case by (simp add: pa_decode.simps)
next
  case (Cons e es)
  then have "pa_read (pa_bytes e @ concat (map pa_bytes es)) = Inr (e, concat (map pa_bytes es))"
    by (subst pa_read_bytes) (simp_all add: pa_fits_def)
  moreover have "pa_bytes e \<noteq> []" by (simp add: pa_bytes_def numeral_2_eq_2)
  ultimately show ?case
    using Cons by (subst pa_decode.simps) simp
qed

lemma length_pa_bytes: "length (concat (map pa_bytes es)) = pa_len es"
  by (induction es) (auto simp: pa_len_def pa_bytes_def)

interpretation password_algorithms_attr: plain_attribute PasswordAlgorithms
  "\<lambda>_ es. concat (map pa_bytes es)" "\<lambda>es. (\<forall>e\<in>set es. snd e = []) \<and> pa_len es < 65536"
  using len_u16_small
  by unfold_locales
    (auto simp: PasswordAlgorithms_def pa_decode_plain length_pa_bytes list_all_iff pa_fits_def)

end
