(* ===== verification/Stun_Integrity.thy ===== *)
theory Stun_Integrity
  imports Stun_Attributes
begin

text \<open>
  The attributes that protect a message: the keyed digests
  (\<^verbatim>\<open>media/stun-types/src/attributes/integrity.rs\<close>) and the fingerprint
  (\<^verbatim>\<open>media/stun-types/src/attributes/fingerprint.rs\<close>), with its CRC-32 table. The HMAC
  and hash functions are parameters, a keyed \<^verbatim>\<open>SimpleHmac\<close> being a function from the
  message to the digest. The contract \<open>sealing_attribute\<close> holds what the three share: the
  value is a function of the message up to the attribute, read with its length set to the
  end of the attribute.
\<close>

definition ATTRIBUTE_HEADER_LEN :: nat where "ATTRIBUTE_HEADER_LEN = 4"

section \<open>Message integrity\<close>

definition long_term_password :: "(bytes \<Rightarrow> bytes) \<Rightarrow> bytes \<Rightarrow> bytes \<Rightarrow> bytes \<Rightarrow> bytes" where
  "long_term_password digest username realm password =
     digest (username @ [0x3A] @ realm @ [0x3A] @ password)"

definition message_integrity_decode ::
    "(bytes \<Rightarrow> bytes) \<Rightarrow> Message \<Rightarrow> AttrSpan \<Rightarrow> (stun_error, unit) result \<times> Message" where
  "message_integrity_decode hmac msg attr =
     (case u16_try_from (span_padding_end attr - STUN_HEADER_LENGTH) of
        None \<Rightarrow> (Inl TryFromInt, msg)
      | Some len \<Rightarrow> with_msg_len msg len (\<lambda>msg.
          let received_digest = get_value attr (msg_buffer msg);
              message = take (span_begin attr - ATTRIBUTE_HEADER_LEN) (msg_buffer msg);
              calculated_digest = hmac message
          in (if calculated_digest \<noteq> received_digest
              then Inl (InvalidData ''failed to verify message integrity'') else Inr (), msg)))"

definition message_integrity_encode ::
    "(bytes \<Rightarrow> bytes) \<Rightarrow> nat \<Rightarrow> MessageBuilder \<Rightarrow> MessageBuilder panics" where
  "message_integrity_encode hmac output_size builder =
     (case u16_try_from (length (mb_buffer builder) + output_size - STUN_HEADER_LENGTH) of
        None \<Rightarrow> None
      | Some len \<Rightarrow>
          let builder = builder_set_len builder len;
              data = take (length (mb_buffer builder) - ATTRIBUTE_HEADER_LEN) (mb_buffer builder)
          in Some (builder_put builder (hmac data)))"

definition integrity_attribute ::
    "u16 \<Rightarrow> nat \<Rightarrow> (bytes \<Rightarrow> bytes \<Rightarrow> bytes) \<Rightarrow> (bytes, unit) Attribute" where
  "integrity_attribute T output_size hmac =
     \<lparr>attr_TYPE = T,
      attr_decode = (\<lambda>key. message_integrity_decode (hmac key)),
      attr_encode = (\<lambda>_ key. message_integrity_encode (hmac key) output_size),
      attr_encode_len = (\<lambda>_. len_u16 output_size)\<rparr>"

definition MessageIntegrity :: "(bytes \<Rightarrow> bytes \<Rightarrow> bytes) \<Rightarrow> (bytes, unit) Attribute" where
  "MessageIntegrity hmac_sha1 = integrity_attribute TYPE_MessageIntegrity 20 hmac_sha1"

definition MessageIntegritySha256 :: "(bytes \<Rightarrow> bytes \<Rightarrow> bytes) \<Rightarrow> (bytes, unit) Attribute" where
  "MessageIntegritySha256 hmac_sha256 = integrity_attribute TYPE_MessageIntegritySha256 32 hmac_sha256"

section \<open>Fingerprint\<close>

definition crc32_step :: "u32 \<Rightarrow> u32" where
  "crc32_step c = (if c AND 1 = 1 then 0xedb88320 XOR drop_bit 1 c else drop_bit 1 c)"

definition crc32_table :: "u32 list" where
  "crc32_table = map (\<lambda>n. (crc32_step ^^ 8) (of_nat n)) [0..<256]"

definition update_crc32 :: "u32 \<Rightarrow> bytes \<Rightarrow> u32" where
  "update_crc32 crc buf =
     foldl (\<lambda>c b. crc32_table ! unat ((c XOR ucast b) AND 0xff) XOR drop_bit 8 c)
       (crc XOR 0xffffffff) buf XOR 0xffffffff"

definition crc32 :: "bytes \<Rightarrow> u32" where
  "crc32 buf = update_crc32 0 buf"

definition fingerprint_decode :: "Message \<Rightarrow> AttrSpan \<Rightarrow> (stun_error, unit) result \<times> Message" where
  "fingerprint_decode msg attr =
     (case u16_try_from (span_padding_end attr - STUN_HEADER_LENGTH) of
        None \<Rightarrow> (Inl TryFromInt, msg)
      | Some len \<Rightarrow> with_msg_len msg len (\<lambda>msg.
          let value = get_value attr (msg_buffer msg) in
          if length value \<noteq> 4 then (Inl (InvalidData ''fingerprint value must be 4 bytes''), msg)
          else let attr_value = from_be value;
                   data = take (span_begin attr - ATTRIBUTE_HEADER_LEN) (msg_buffer msg);
                   crc = crc32 data XOR 0x5354554e
               in (if crc \<noteq> attr_value
                   then Inl (InvalidData ''failed to verify message fingerprint'') else Inr (), msg)))"

definition fingerprint_encode :: "MessageBuilder \<Rightarrow> MessageBuilder panics" where
  "fingerprint_encode builder =
     (case u16_try_from (length (mb_buffer builder) + 4 - STUN_HEADER_LENGTH) of
        None \<Rightarrow> None
      | Some len \<Rightarrow>
          let builder = builder_set_len builder len;
              data = take (length (mb_buffer builder) - ATTRIBUTE_HEADER_LEN) (mb_buffer builder);
              crc = crc32 data XOR 0x5354554e
          in Some (builder_put builder (put_u32 crc)))"

definition Fingerprint :: "(unit, unit) Attribute" where
  "Fingerprint =
     \<lparr>attr_TYPE = TYPE_Fingerprint, attr_decode = (\<lambda>_. fingerprint_decode),
      attr_encode = (\<lambda>_ _. fingerprint_encode), attr_encode_len = (\<lambda>_. Inr 4)\<rparr>"

section \<open>The CRC-32 table\<close>

text \<open>The checksum by its definition, one bit at a time.\<close>

definition crc32_bitwise :: "bytes \<Rightarrow> u32" where
  "crc32_bitwise buf =
     foldl (\<lambda>c b. (crc32_step ^^ 8) (c XOR ucast b)) 0xffffffff buf XOR 0xffffffff"

lemma and_1_word: "(c :: u32) AND 1 = 1 \<longleftrightarrow> bit c 0"
  by (simp add: and_one_eq odd_iff_mod_2_eq_one [symmetric] bit_0)

lemma crc32_step_xor: "crc32_step (a XOR b) = crc32_step a XOR crc32_step b"
  by (rule bit_eqI) (auto simp: crc32_step_def and_1_word bit_simps)

lemma crc32_steps_xor: "(crc32_step ^^ k) (a XOR b) = (crc32_step ^^ k) a XOR (crc32_step ^^ k) b"
  by (induction k) (simp_all add: crc32_step_xor)

lemma crc32_steps_high: "(\<And>i. i < k \<Longrightarrow> \<not> bit c i) \<Longrightarrow> (crc32_step ^^ k) c = drop_bit k c"
proof (induction k)
  case 0
  then show ?case by simp
next
  case (Suc k)
  then have "(crc32_step ^^ k) c = drop_bit k c" by simp
  moreover have "\<not> bit (drop_bit k c) 0" using Suc.prems [of k] by (simp add: bit_simps)
  ultimately show ?case using crc32_step_def [of "drop_bit k c"] by (simp add: and_1_word)
qed

lemma crc32_table_byte:
  "crc32_table ! unat ((c XOR ucast b) AND 0xff) XOR drop_bit 8 c
     = (crc32_step ^^ 8) (c XOR ucast (b :: u8))"
proof -
  let ?x = "c XOR ucast b :: u32"
  let ?lo = "?x AND 0xff" and ?hi = "push_bit 8 (drop_bit 8 c) :: u32"
  have ff: "(0xff :: u32) = mask 8" by (simp add: mask_eq_exp_minus_1)
  have "unat ?lo < 256"
    using unsigned_less [of "?lo"] take_bit_nat_less_exp [of 8 "unat ?x"]
    by (simp only: ff take_bit_eq_mask [symmetric] unsigned_take_bit_eq) simp
  then have "crc32_table ! unat ?lo = (crc32_step ^^ 8) ?lo"
    by (simp add: crc32_table_def)
  moreover have "(crc32_step ^^ 8) ?hi = drop_bit 8 ?hi"
    by (rule crc32_steps_high) (simp add: bit_simps)
  moreover have "drop_bit 8 ?hi = drop_bit 8 c"
    by (rule bit_eqI) (auto simp: bit_simps dest: bit_imp_le_length)
  moreover have "?x = ?lo XOR ?hi"
    by (rule bit_eqI) (auto simp: ff bit_simps dest: bit_imp_le_length)
  ultimately show ?thesis
    using crc32_steps_xor [of 8 ?lo ?hi] by metis
qed

text \<open>
  C36: The table-driven checksum of the fingerprint is the CRC-32 of its definition, for
  every input.\<close>

theorem crc32_is_bitwise: "crc32 buf = crc32_bitwise buf"
  by (simp only: crc32_def update_crc32_def crc32_bitwise_def crc32_table_byte) simp

section \<open>Sealing a message\<close>

text \<open>The head of a message of class \<open>c\<close>, method \<open>m\<close> and length \<open>l\<close>.\<close>

definition wire_head :: "Class \<Rightarrow> Method \<Rightarrow> nat \<Rightarrow> MessageHead" where
  "wire_head c m l = head_set_len (head_set_typ 0 (class_set_bits c (method_set_bits m 0))) (of_nat l)"

lemma builder_holds_wire_head:
  assumes "builder_holds b c m tid es"
  shows "head_set_len (mb_head b) (of_nat l) = wire_head c m l"
proof -
  have "head_set_len (head_set_len (mb_head b) 0) (of_nat l)
      = head_set_len (head_set_len (head_set_typ 0 (class_set_bits c (method_set_bits m 0))) 0) (of_nat l)"
    using assms unfolding builder_holds_def by metis
  then show ?thesis by (simp add: wire_head_def)
qed

text \<open>
  What a sealing attribute of \<open>n\<close> bytes covers: the header, with the length reaching to the
  end of that attribute, and the attributes before it.
\<close>

definition sealed_part :: "Class \<Rightarrow> Method \<Rightarrow> bytes \<Rightarrow> tlv list \<Rightarrow> nat \<Rightarrow> bytes" where
  "sealed_part c m tid es n =
     header_bytes (wire_head c m (length (tlvs_bytes es) + 4 + n)) tid @ tlvs_bytes es"

text \<open>
  The contract: \<open>seal ctx\<close> maps the covered bytes to the \<open>n\<close> bytes of the value, encoding
  appends it and decoding accepts nothing else.
\<close>

locale sealing_attribute =
  fixes A :: "('c, unit) Attribute" and seal :: "'c \<Rightarrow> bytes \<Rightarrow> bytes" and n :: nat
  assumes n_aligned: "n mod 4 = 0" and n_small: "n < 65536"
    and seal_encode_len: "attr_encode_len A u = Inr (of_nat n)"
    and seal_encode: "attr_encode A u ctx b =
      map_option (\<lambda>l. builder_put (builder_set_len b l)
          (seal ctx (take (length (mb_buffer (builder_set_len b l)) - 4) (mb_buffer (builder_set_len b l)))))
        (u16_try_from (length (mb_buffer b) + n - 20))"
    and seal_decode: "\<exists>e. attr_decode A ctx msg sp =
      (case u16_try_from (span_padding_end sp - 20) of
         None \<Rightarrow> (Inl TryFromInt, msg)
       | Some l \<Rightarrow> with_msg_len msg l (\<lambda>msg.
           (if get_value sp (msg_buffer msg) = seal ctx (take (span_begin sp - 4) (msg_buffer msg))
            then Inr () else Inl e, msg)))"
begin

lemma seal_holds:
  assumes b: "builder_holds b c m tid es" and small: "length (tlvs_bytes es) + 4 + n < 65536"
    and seal_length: "length (seal ctx (sealed_part c m tid es n)) = n"
  shows "\<exists>b'. add_attr_with A () ctx b = Some b'
    \<and> builder_holds b' c m tid (es @ [(attr_TYPE A, seal ctx (sealed_part c m tid es n))])"
proof -
  let ?l = "length (tlvs_bytes es) + 4 + n"
  let ?b = "builder_put (builder_put b (put_u16 (attr_TYPE A))) (put_u16 (of_nat n))"
  have tid: "length tid = 12" and nopad: "\<not> mb_padding_in_value_len b"
    and buf: "mb_buffer b = header_bytes (mb_head b) tid @ tlvs_bytes es"
    using b by (auto simp: builder_holds_def)
  have len: "length (mb_buffer ?b) + n - 20 = ?l"
    using tid by (simp add: builder_put_def buf)
  have part: "take (length (mb_buffer (builder_set_len ?b (of_nat ?l))) - 4)
      (mb_buffer (builder_set_len ?b (of_nat ?l))) = sealed_part c m tid es n"
    using builder_holds_wire_head [OF b, of ?l]
    by (simp add: builder_set_len_def builder_put_def buf header_bytes_def Let_def sealed_part_def
        del: to_be.simps)
  have "u16_try_from ?l = Some (of_nat ?l)"
    using small by (simp only: u16_try_from_def if_True)
  then have "attr_encode A () ctx ?b
      = Some (builder_put (builder_set_len ?b (of_nat ?l)) (seal ctx (sealed_part c m tid es n)))"
    by (simp only: seal_encode len option.map part)
  then have "add_attr_with A () ctx b
      = Some (builder_put (builder_set_len ?b (of_nat ?l)) (seal ctx (sealed_part c m tid es n)))"
    using nopad n_small n_aligned
    by (simp add: add_attr_with_def seal_encode_len Let_def unat_of_nat_u16 builder_put_def)
  moreover have "builder_holds (builder_put (builder_set_len ?b (of_nat ?l)) (seal ctx (sealed_part c m tid es n)))
      c m tid (es @ [(attr_TYPE A, seal ctx (sealed_part c m tid es n))])"
    using b n_small n_aligned
    by (simp add: builder_holds_def builder_set_len_def builder_put_def Let_def header_bytes_def
        tlv_bytes_def seal_length tlv_ok_def del: to_be.simps)
  ultimately show ?thesis by blast
qed

text \<open>Accepting a message means that the value is the seal of what it covers.\<close>

lemma accepts_iff:
  assumes msg: "message_parse buf = Inr msg"
    and sp: "find_attribute False (attr_TYPE A) (msg_attributes msg) = Some sp"
  shows "\<exists>r. attribute_with A ctx msg = (Some r, msg)
    \<and> (r = Inr () \<longleftrightarrow> span_padding_end sp < 65556
        \<and> get_value sp buf = seal ctx (put_u32 (head_set_len (msg_head msg) (of_nat (span_padding_end sp - 20)))
              @ take (span_begin sp - 8) (drop 4 buf)))"
proof -
  from seal_decode [of ctx msg sp] obtain e where e: "attr_decode A ctx msg sp =
      (case u16_try_from (span_padding_end sp - 20) of
         None \<Rightarrow> (Inl TryFromInt, msg)
       | Some l \<Rightarrow> with_msg_len msg l (\<lambda>msg.
           (if get_value sp (msg_buffer msg) = seal ctx (take (span_begin sp - 4) (msg_buffer msg))
            then Inr () else Inl e, msg)))" by blast
  have m: "msg_buffer msg = buf" "20 \<le> length buf" "take 4 buf = put_u32 (msg_head msg)"
    and ok: "span_ok buf sp"
    using message_parse_spans [OF msg] find_attribute_in [OF sp] by auto
  have b24: "24 \<le> span_begin sp" using ok by (simp add: span_ok_def)
  show ?thesis
  proof (cases "span_padding_end sp - 20 < 65536")
    case False
    then show ?thesis
      using e sp by (auto simp: attribute_with_def u16_try_from_def)
  next
    case True
    let ?l = "of_nat (span_padding_end sp - 20) :: u16"
    let ?g = "\<lambda>msg. (if get_value sp (msg_buffer msg) = seal ctx (take (span_begin sp - 4) (msg_buffer msg))
            then Inr () else Inl e, msg)"
    let ?m = "set_msg_len msg ?l"
    have buf': "msg_buffer ?m = put_u32 (head_set_len (msg_head msg) ?l) @ drop 4 buf"
      by (simp add: set_msg_len_def Let_def m del: to_be.simps)
    have val: "get_value sp (msg_buffer ?m) = get_value sp buf"
      using b24 m(2) by (simp add: get_value_def buf' del: to_be.simps)
    have pre: "take (span_begin sp - 4) (msg_buffer ?m)
        = put_u32 (head_set_len (msg_head msg) ?l) @ take (span_begin sp - 8) (drop 4 buf)"
      using b24 by (simp add: buf' del: to_be.simps)
    have "with_msg_len msg ?l ?g = (fst (with_msg_len msg ?l ?g), snd (with_msg_len msg ?l ?g))"
      by simp
    moreover have "snd (with_msg_len msg ?l ?g) = msg"
      using m by (intro with_msg_len_restores) auto
    moreover have "fst (with_msg_len msg ?l ?g) = fst (?g ?m)"
      by (simp add: with_msg_len_def Let_def)
    ultimately have "with_msg_len msg ?l ?g = (fst (?g ?m), msg)" by metis
    then have "attribute_with A ctx msg = (Some (fst (?g ?m)), msg)"
      using True e sp by (simp add: attribute_with_def u16_try_from_def)
    with True show ?thesis by (auto simp: val pre simp del: to_be.simps)
  qed
qed

text \<open>A value that is the seal of what stands before it is accepted.\<close>

lemma seal_verifies:
  assumes buf: "buf = header_bytes (wire_head c m k) tid
      @ tlvs_bytes (es @ (attr_TYPE A, seal ctx (sealed_part c m tid es n)) # es')"
    and msg: "message_parse buf = Inr msg"
    and at: "msg_attributes msg = tlv_spans 20 (es @ (attr_TYPE A, seal ctx (sealed_part c m tid es n)) # es')"
    and tid: "length tid = 12" and head: "msg_head msg = wire_head c m k"
    and vis: "tlv_visible False (attr_TYPE A) es"
    and small: "length (tlvs_bytes es) + 4 + n < 65536"
    and seal_length: "length (seal ctx (sealed_part c m tid es n)) = n"
  shows "attribute_with A ctx msg = (Some (Inr ()), msg)"
proof -
  let ?v = "seal ctx (sealed_part c m tid es n)"
  let ?sp = "\<lparr>span_begin = 24 + length (tlvs_bytes es), span_end = 24 + length (tlvs_bytes es) + n,
      span_padding_end = 24 + length (tlvs_bytes es) + n, span_typ = attr_TYPE A\<rparr>"
  have sp: "find_attribute False (attr_TYPE A) (msg_attributes msg) = Some ?sp"
    using find_attribute_visible [OF vis] n_aligned
    by (simp add: at length_tlv_bytes seal_length add.assoc add.commute add.left_commute)
  have val: "get_value ?sp buf = ?v"
    using tid by (simp add: get_value_def buf tlv_bytes_def seal_length)
  have part: "put_u32 (head_set_len (msg_head msg) (of_nat (span_padding_end ?sp - 20)))
      @ take (span_begin ?sp - 8) (drop 4 buf) = sealed_part c m tid es n"
    using tid by (simp add: head wire_head_def sealed_part_def header_bytes_def buf add.commute
        add.left_commute del: to_be.simps)
  have "span_padding_end ?sp < 65556" using small by simp
  with accepts_iff [OF msg sp, of ctx] val part show ?thesis by metis
qed

end

lemmas sealing_defs = ATTRIBUTE_HEADER_LEN_def STUN_HEADER_LENGTH_def Let_def

lemma message_integrity_decode_alt:
  "message_integrity_decode h msg sp =
      (case u16_try_from (span_padding_end sp - 20) of
         None \<Rightarrow> (Inl TryFromInt, msg)
       | Some l \<Rightarrow> with_msg_len msg l (\<lambda>msg.
           (if get_value sp (msg_buffer msg) = h (take (span_begin sp - 4) (msg_buffer msg))
            then Inr () else Inl (InvalidData ''failed to verify message integrity''), msg)))"
proof -
  have "(\<lambda>msg :: Message. (if h (take (span_begin sp - 4) (msg_buffer msg)) \<noteq> get_value sp (msg_buffer msg)
           then Inl (InvalidData ''failed to verify message integrity'') else Inr (), msg)) =
        (\<lambda>msg. (if get_value sp (msg_buffer msg) = h (take (span_begin sp - 4) (msg_buffer msg))
           then Inr () else Inl (InvalidData ''failed to verify message integrity''), msg))"
    by auto
  then show ?thesis by (simp only: message_integrity_decode_def sealing_defs)
qed

lemma message_integrity_encode_alt:
  "message_integrity_encode h n b =
      map_option (\<lambda>l. builder_put (builder_set_len b l)
          (h (take (length (mb_buffer (builder_set_len b l)) - 4) (mb_buffer (builder_set_len b l)))))
        (u16_try_from (length (mb_buffer b) + n - 20))"
  by (simp add: message_integrity_encode_def sealing_defs split: option.split)

lemma integrity_attribute_decode:
  "\<exists>e. attr_decode (integrity_attribute T n hmac) key msg sp =
      (case u16_try_from (span_padding_end sp - 20) of
         None \<Rightarrow> (Inl TryFromInt, msg)
       | Some l \<Rightarrow> with_msg_len msg l (\<lambda>msg.
           (if get_value sp (msg_buffer msg) = hmac key (take (span_begin sp - 4) (msg_buffer msg))
            then Inr () else Inl e, msg)))"
  by (rule exI [of _ "InvalidData ''failed to verify message integrity''"])
    (simp add: integrity_attribute_def message_integrity_decode_alt)

interpretation mi: sealing_attribute "MessageIntegrity hmac" hmac 20 for hmac
  using integrity_attribute_decode
  by unfold_locales (simp_all add: MessageIntegrity_def integrity_attribute_def
      message_integrity_encode_alt len_u16_def u16_try_from_def)

interpretation mi256: sealing_attribute "MessageIntegritySha256 hmac" hmac 32 for hmac
  using integrity_attribute_decode
  by unfold_locales (simp_all add: MessageIntegritySha256_def integrity_attribute_def
      message_integrity_encode_alt len_u16_def u16_try_from_def)

lemma read_value_iff: "length v = 4 \<and> w = from_be v \<longleftrightarrow> v = put_u32 w"
  using to_be_from_be [of v, where 'a = 32] from_be_to_be_full [of 4 w] by (auto simp del: to_be.simps)

interpretation fp: sealing_attribute Fingerprint "\<lambda>_ d. put_u32 (crc32 d XOR 0x5354554e)" 4
proof unfold_locales
  fix ctx :: unit and msg sp
  show "\<exists>e. attr_decode Fingerprint ctx msg sp =
      (case u16_try_from (span_padding_end sp - 20) of
         None \<Rightarrow> (Inl TryFromInt, msg)
       | Some l \<Rightarrow> with_msg_len msg l (\<lambda>msg.
           (if get_value sp (msg_buffer msg)
               = put_u32 (crc32 (take (span_begin sp - 4) (msg_buffer msg)) XOR 0x5354554e)
            then Inr () else Inl e, msg)))"
    unfolding read_value_iff [symmetric]
    by (auto simp: Fingerprint_def fingerprint_decode_def sealing_defs with_msg_len_def
        split: option.splits)
qed (auto simp: Fingerprint_def fingerprint_encode_def sealing_defs u16_try_from_def)

section \<open>Messages built and sealed\<close>

text \<open>Adding attributes that are given by type and value, one after the other.\<close>

fun add_tlvs :: "tlv list \<Rightarrow> MessageBuilder \<Rightarrow> MessageBuilder panics" where
  "add_tlvs [] b = Some b"
| "add_tlvs (e # es) b = Option.bind (add_attr (bytes_attribute (fst e)) (snd e) b) (add_tlvs es)"

lemma add_tlvs_holds:
  "builder_holds b c m tid es0 \<Longrightarrow> \<forall>e\<in>set es. length (snd e) < 65536 \<Longrightarrow>
     \<exists>b'. add_tlvs es b = Some b' \<and> builder_holds b' c m tid (es0 @ es)"
proof (induction es arbitrary: b es0)
  case Nil
  then show ?case by simp
next
  case (Cons e es)
  from bytes_attr.add_attr_holds [OF Cons.prems(1), of "snd e" "fst e"] Cons.prems(2)
  obtain b1 where b1: "add_attr (bytes_attribute (fst e)) (snd e) b = Some b1"
    "builder_holds b1 c m tid (es0 @ [e])"
    by (auto simp: bytes_attribute_def)
  with Cons.IH [OF b1(2)] Cons.prems(2) show ?case by simp
qed

lemma tlv_find_plain:
  "(\<forall>e\<in>set es. fst e \<notin> sealing_types) \<Longrightarrow> T \<notin> sealing_types \<Longrightarrow>
     tlv_find False T (es @ (TYPE_MessageIntegrity, v) # es') = find (\<lambda>e. fst e = T) es"
proof (induction es)
  case Nil
  have "tlv_find True T es' = None" using Nil(2) by (induction es') auto
  with Nil show ?case by auto
next
  case (Cons e es)
  then show ?case by auto
qed

lemma bytes_attribute_find:
  assumes "msg_buffer msg = buf"
  shows "attribute (bytes_attribute T) msg
    = (map_option (\<lambda>e. Inr (snd e)) (tlv_find False T (map (span_tlv buf) (msg_attributes msg))), msg)"
  by (simp add: attribute_def attribute_with_def bytes_attribute_def assms [symmetric]
      find_attribute_tlv [symmetric] span_tlv_def split: option.split)

lemma is_stun_message_wire:
  assumes "length tid = 12" "length rest < 65536"
  shows "is_stun_message (header_bytes (wire_head c m (length rest)) tid @ rest) = Yes (20 + length rest)"
proof -
  have be: "from_be (put_u32 w) = w" for w by (rule from_be_to_be_full) simp
  have "head_z (wire_head c m (length rest)) = 0" "head_len (wire_head c m (length rest)) = of_nat (length rest)"
    by (simp_all add: wire_head_def head_of_typ)
  with assms show ?thesis
    by (simp add: is_stun_message_def header_bytes_def be unat_of_nat_u16 Let_def del: to_be.simps)
qed

lemma tlv_visible_fingerprint:
  "(\<forall>e\<in>set es. fst e \<notin> sealing_types) \<Longrightarrow>
     tlv_visible False TYPE_Fingerprint (es @ [(TYPE_MessageIntegrity, v)])"
  by (induction es) (auto simp: TYPE_MessageIntegrity_def TYPE_Fingerprint_def)

lemma sealing_attr_TYPE [simp]:
  "attr_TYPE (MessageIntegrity hmac) = TYPE_MessageIntegrity"
  "attr_TYPE (MessageIntegritySha256 hmac) = TYPE_MessageIntegritySha256"
  "attr_TYPE Fingerprint = TYPE_Fingerprint"
  by (simp_all add: MessageIntegrity_def MessageIntegritySha256_def integrity_attribute_def Fingerprint_def)

text \<open>
  Closing a builder with MESSAGE-INTEGRITY and FINGERPRINT: the bytes and the message they
  parse to.
\<close>

definition sealed_tlvs ::
    "(bytes \<Rightarrow> bytes) \<Rightarrow> Class \<Rightarrow> Method \<Rightarrow> bytes \<Rightarrow> tlv list \<Rightarrow> tlv list" where
  "sealed_tlvs hmac c m tid es =
     (let es1 = es @ [(TYPE_MessageIntegrity, hmac (sealed_part c m tid es 20))]
      in es1 @ [(TYPE_Fingerprint, put_u32 (crc32 (sealed_part c m tid es1 4) XOR 0x5354554e))])"

lemma seal_and_finish:
  assumes b: "builder_holds b c m tid es" and hmac: "\<And>d. length (hmac key d) = 20"
    and small: "length (tlvs_bytes es) + 32 < 65536"
  shows "\<exists>b2 b3 bs msg. add_attr_with (MessageIntegrity hmac) () key b = Some b2
    \<and> add_attr Fingerprint () b2 = Some b3 \<and> builder_finish b3 = Some bs \<and> message_parse bs = Inr msg
    \<and> msg_class msg = c \<and> msg_method msg = m \<and> msg_transaction_id msg = TransactionId tid
    \<and> msg_id msg = stun_id tid \<and> msg_buffer msg = bs
    \<and> bs = header_bytes (wire_head c m (length (tlvs_bytes es) + 32)) tid @ tlvs_bytes (sealed_tlvs (hmac key) c m tid es)
    \<and> msg_attributes msg = tlv_spans 20 (sealed_tlvs (hmac key) c m tid es)
    \<and> msg_head msg = wire_head c m (length (tlvs_bytes es) + 32)"
proof -
  let ?mi = "(TYPE_MessageIntegrity, hmac key (sealed_part c m tid es 20)) :: tlv"
  let ?es = "sealed_tlvs (hmac key) c m tid es"
  have len: "length (tlvs_bytes (es @ [?mi])) = length (tlvs_bytes es) + 24"
    "length (tlvs_bytes ?es) = length (tlvs_bytes es) + 32"
    by (simp_all add: length_tlv_bytes hmac sealed_tlvs_def Let_def)
  from mi.seal_holds [OF b, of hmac key] hmac small obtain b2 where
    b2: "add_attr_with (MessageIntegrity hmac) () key b = Some b2" "builder_holds b2 c m tid (es @ [?mi])"
    by auto
  from fp.seal_holds [OF b2(2), of "()"] small len(1) obtain b3 where
    b3: "add_attr Fingerprint () b2 = Some b3" "builder_holds b3 c m tid ?es"
    by (auto simp: add_attr_def sealed_tlvs_def)
  from builder_finish_parse [OF b3(2)] b2(1) b3(1) builder_holds_wire_head [OF b3(2)] len(2) small
  show ?thesis by (metis (no_types, lifting))
qed

lemma sealed_message_reads:
  assumes bs: "message_parse bs = Inr msg"
    "bs = header_bytes (wire_head c m (length (tlvs_bytes es) + 32)) tid @ tlvs_bytes (sealed_tlvs (hmac key) c m tid es)"
    and msg: "msg_buffer msg = bs" "msg_attributes msg = tlv_spans 20 (sealed_tlvs (hmac key) c m tid es)"
      "msg_head msg = wire_head c m (length (tlvs_bytes es) + 32)"
    and tid: "length tid = 12" and hmac: "\<And>d. length (hmac key d) = 20"
    and plain: "\<forall>e\<in>set es. fst e \<notin> sealing_types"
    and small: "length (tlvs_bytes es) + 32 < 65536"
  shows "attribute_with (MessageIntegrity hmac) key msg = (Some (Inr ()), msg)"
    "attribute Fingerprint msg = (Some (Inr ()), msg)"
    "map (span_tlv bs) (msg_attributes msg) = sealed_tlvs (hmac key) c m tid es"
    "is_stun_message bs = Yes (length bs)"
proof -
  let ?mi = "(TYPE_MessageIntegrity, hmac key (sealed_part c m tid es 20)) :: tlv"
  let ?fp = "(TYPE_Fingerprint, put_u32 (crc32 (sealed_part c m tid (es @ [?mi]) 4) XOR 0x5354554e)) :: tlv"
  let ?k = "length (tlvs_bytes es) + 32"
  have es: "sealed_tlvs (hmac key) c m tid es = es @ [?mi, ?fp]" by (simp add: sealed_tlvs_def)
  have len: "length (tlvs_bytes (es @ [?mi, ?fp])) = ?k" "length (tlvs_bytes (es @ [?mi])) = ?k - 8"
    by (simp_all add: length_tlv_bytes hmac)
  show "attribute_with (MessageIntegrity hmac) key msg = (Some (Inr ()), msg)"
    using assms
    by (intro mi.seal_verifies [where es = es and es' = "[?fp]" and c = c and m = m and tid = tid
          and k = ?k] tlv_visible_plain) (auto simp: es)
  show "attribute Fingerprint msg = (Some (Inr ()), msg)"
    unfolding attribute_def using assms len(2) tlv_visible_fingerprint [OF plain]
    by (intro fp.seal_verifies [where es = "es @ [?mi]" and es' = "[]" and c = c and m = m and tid = tid
          and k = ?k]) (auto simp: es)
  show "map (span_tlv bs) (msg_attributes msg) = sealed_tlvs (hmac key) c m tid es"
    using map_span_tlv_spans [of "header_bytes (wire_head c m ?k) tid"] tid by (simp add: bs(2) msg(2))
  show "is_stun_message bs = Yes (length bs)"
    using is_stun_message_wire [OF tid, of "tlvs_bytes (es @ [?mi, ?fp])" c m] len(1) small tid
    by (simp add: bs(2) es)
qed

text \<open>
  C12: A message built from any attributes and closed by MESSAGE-INTEGRITY and FINGERPRINT
  survives the wire: it is recognised with its full length, parses to the class, method and
  transaction id it was built with, both seals verify under the same key without changing
  the message, and every other lookup returns the first attribute of that type.\<close>

theorem sealed_message_verifies:
  assumes tid: "length tid = 12"
    and hmac: "\<And>d. length (hmac key d) = 20"
    and es: "\<forall>e\<in>set es. length (snd e) < 65536 \<and> fst e \<notin> sealing_types"
    and small: "length (tlvs_bytes es) + 32 < 65536"
  shows "\<exists>b1 b2 b3 bs msg. add_tlvs es (builder_new c m (TransactionId tid)) = Some b1
    \<and> add_attr_with (MessageIntegrity hmac) () key b1 = Some b2 \<and> add_attr Fingerprint () b2 = Some b3
    \<and> builder_finish b3 = Some bs \<and> is_stun_message bs = Yes (length bs)
    \<and> message_parse bs = Inr msg \<and> msg_class msg = c \<and> msg_method msg = m
    \<and> msg_transaction_id msg = TransactionId tid
    \<and> attribute_with (MessageIntegrity hmac) key msg = (Some (Inr ()), msg)
    \<and> attribute Fingerprint msg = (Some (Inr ()), msg)
    \<and> (\<forall>T. T \<notin> sealing_types \<longrightarrow> attribute (bytes_attribute T) msg
          = (map_option (\<lambda>e. Inr (snd e)) (find (\<lambda>e. fst e = T) es), msg))"
proof -
  from add_tlvs_holds [OF builder_holds_new [OF tid, of c m], of es] es obtain b1 where
    b1: "add_tlvs es (builder_new c m (TransactionId tid)) = Some b1" "builder_holds b1 c m tid es" by auto
  from seal_and_finish [where hmac = hmac and key = key, OF b1(2) hmac small] obtain b2 b3 bs msg where
    b2: "add_attr_with (MessageIntegrity hmac) () key b1 = Some b2" "add_attr Fingerprint () b2 = Some b3"
    and fin: "builder_finish b3 = Some bs" "message_parse bs = Inr msg"
    and msg: "msg_class msg = c" "msg_method msg = m" "msg_transaction_id msg = TransactionId tid"
    and buf: "msg_buffer msg = bs"
    and rest: "bs = header_bytes (wire_head c m (length (tlvs_bytes es) + 32)) tid @ tlvs_bytes (sealed_tlvs (hmac key) c m tid es)"
      "msg_attributes msg = tlv_spans 20 (sealed_tlvs (hmac key) c m tid es)"
      "msg_head msg = wire_head c m (length (tlvs_bytes es) + 32)" by blast
  have plain: "\<forall>e\<in>set es. fst e \<notin> sealing_types" using es by blast
  note reads = sealed_message_reads [where hmac = hmac and key = key, OF fin(2) rest(1) buf rest(2,3) tid hmac plain small]
  have "attribute (bytes_attribute T) msg
      = (map_option (\<lambda>e. Inr (snd e)) (find (\<lambda>e. fst e = T) es), msg)" if "T \<notin> sealing_types" for T
    using tlv_find_plain [OF plain that]
    by (simp add: bytes_attribute_find [OF buf] reads(3)) (simp add: sealed_tlvs_def Let_def)
  with b1 b2 fin msg reads show ?thesis by blast
qed

theorem sealed_message_verifies_witness:
  "\<exists>bs msg. message_parse bs = Inr msg
     \<and> attribute_with (MessageIntegrity (\<lambda>k d. take 20 (k @ d))) (replicate 20 1) msg = (Some (Inr ()), msg)
     \<and> attribute (bytes_attribute 0x0006) msg = (Some (Inr [97, 58, 98]), msg)"
  using sealed_message_verifies [of "replicate 12 7" "\<lambda>k d. take 20 (k @ d)" "replicate 20 1"
      "[(0x0006, [97, 58, 98])]" Request Binding]
  by (fastforce simp: length_tlv_bytes padding_usize_def TYPE_MessageIntegrity_def
      TYPE_MessageIntegritySha256_def TYPE_Fingerprint_def)

text \<open>
  C31: Checking MESSAGE-INTEGRITY on any received message returns the message unchanged, and
  it succeeds only if the attribute's value is the HMAC, under the given key, of all bytes
  before the attribute with the length field set to the end of the attribute.\<close>

theorem integrity_acceptance_sound:
  assumes "message_parse buf = Inr msg"
    and "attribute_with (MessageIntegrity hmac) key msg = (r, msg')"
  shows "msg' = msg \<and> (r = Some (Inr ()) \<longrightarrow>
    (\<exists>sp\<in>set (msg_attributes msg). span_typ sp = 0x0008
      \<and> get_value sp buf = hmac key (put_u32 (head_set_len (msg_head msg) (of_nat (span_padding_end sp - 20)))
            @ take (span_begin sp - 8) (drop 4 buf))))"
proof (cases "find_attribute False TYPE_MessageIntegrity (msg_attributes msg)")
  case None
  with assms(2) show ?thesis by (simp add: attribute_with_def)
next
  case (Some sp)
  with mi.accepts_iff [OF assms(1), of hmac sp key] find_attribute_in [OF Some] assms(2)
  show ?thesis by (auto simp: TYPE_MessageIntegrity_def)
qed

theorem integrity_acceptance_sound_witness:
  "\<exists>buf msg. message_parse buf = Inr msg
     \<and> attribute_with (MessageIntegrity (\<lambda>k d. k)) (replicate 20 5) msg = (Some (Inr ()), msg)
     \<and> (\<exists>sp\<in>set (msg_attributes msg). span_typ sp = 0x0008 \<and> get_value sp buf = replicate 20 5)"
proof -
  let ?h = "\<lambda>k d. k :: bytes" and ?k = "replicate 20 5 :: bytes" and ?tid = "replicate 12 7 :: bytes"
  obtain bs msg where m: "message_parse bs = Inr msg" "msg_buffer msg = bs"
    "bs = header_bytes (wire_head Request Binding 32) ?tid @ tlvs_bytes (sealed_tlvs (?h ?k) Request Binding ?tid [])"
    "msg_attributes msg = tlv_spans 20 (sealed_tlvs (?h ?k) Request Binding ?tid [])"
    "msg_head msg = wire_head Request Binding 32"
    using seal_and_finish [OF builder_holds_new, of ?tid ?h ?k Request Binding] by auto
  then have "attribute_with (MessageIntegrity ?h) ?k msg = (Some (Inr ()), msg)"
    by (intro sealed_message_reads(1) [where hmac = ?h and key = ?k and c = Request and m = Binding
          and tid = ?tid and es = "[]"]) auto
  with integrity_acceptance_sound [OF m(1) this] m(1) show ?thesis by blast
qed

text \<open>
  C32: An attribute placed after MESSAGE-INTEGRITY, which the integrity check does not cover,
  is never returned: whatever follows, a lookup of any type other than the integrity and
  fingerprint types finds nothing unless the attribute stands before MESSAGE-INTEGRITY.\<close>

theorem attributes_after_integrity_hidden:
  assumes "msg_attributes msg = before @ sp # behind" "span_typ sp = TYPE_MessageIntegrity"
    and "\<forall>sp'\<in>set before. span_typ sp' \<noteq> attr_TYPE A" "attr_TYPE A \<notin> sealing_types"
  shows "attribute_with A ctx msg = (None, msg)"
  using find_attribute_hidden [OF assms(3,2,4)] by (simp add: attribute_with_def assms(1))

definition appended_username :: Message where
  "appended_username =
     (case message_parse (header_bytes 0x00010020 (replicate 12 7) @ [0, 8, 0, 20] @ replicate 20 5
        @ [0, 6, 0, 1, 97, 0, 0, 0]) of Inr msg \<Rightarrow> msg)"

theorem attributes_after_integrity_hidden_witness:
  "length (msg_attributes appended_username) = 2
   \<and> attribute_with Username () appended_username = (None, appended_username)"
proof -
  have "msg_attributes appended_username =
      [] @ \<lparr>span_begin = 24, span_end = 44, span_padding_end = 44, span_typ = TYPE_MessageIntegrity\<rparr>
      # [\<lparr>span_begin = 48, span_end = 49, span_padding_end = 52, span_typ = 6\<rparr>]"
    unfolding appended_username_def by code_simp
  from attributes_after_integrity_hidden [OF this, of Username "()"] this show ?thesis
    by (simp add: string_attribute_def TYPE_MessageIntegrity_def TYPE_MessageIntegritySha256_def
        TYPE_Fingerprint_def)
qed

text \<open>
  The address a server puts into XOR-MAPPED-ADDRESS is the address the client reads from
  the response, for IPv4 and IPv6 (without flow info and scope id, which are not sent).\<close>

theorem xor_mapped_address_roundtrip:
  assumes "length tid = 12" "addr_wf a"
  shows "\<exists>b bs msg. add_attr XorMappedAddress a (builder_new Success Binding (TransactionId tid)) = Some b
    \<and> builder_finish b = Some bs \<and> message_parse bs = Inr msg
    \<and> attribute XorMappedAddress msg = (Some (Inr a), msg)"
proof -
  let ?e = "(0x0020, encode_addr a XOR16 COOKIE (stun_id tid)) :: tlv"
  obtain b where b: "add_attr XorMappedAddress a (builder_new Success Binding (TransactionId tid)) = Some b"
    "builder_holds b Success Binding tid [?e]"
    using addr_attr.add_attr_holds [where T = "0x0020" and key = "\<lambda>i. (XOR16, COOKIE, i)",
        OF builder_holds_new [OF assms(1), where c = Success and m = Binding] assms(2)]
    by (auto simp: XorMappedAddress_def addr_attribute_def)
  moreover have "length (tlvs_bytes [?e]) < 65536"
    by (cases a) (simp_all add: length_tlv_bytes padding_usize_def)
  ultimately obtain bs msg where m: "builder_finish b = Some bs" "message_parse bs = Inr msg"
    "bs = header_bytes (head_set_len (mb_head b) (of_nat (length (tlvs_bytes [?e])))) tid @ tlvs_bytes [?e]"
    "msg_id msg = stun_id tid" "msg_buffer msg = bs" "msg_attributes msg = tlv_spans 20 [?e]"
    using builder_finish_parse [OF b(2)] by auto
  have "map (span_tlv bs) (tlv_spans 20 [?e]) = [?e]"
    using map_span_tlv_spans [of "header_bytes _ tid" "[?e]"] assms(1) m(3) by simp
  then have "attribute XorMappedAddress msg = (Some (Inr a), msg)"
    unfolding XorMappedAddress_def using assms(2) m
    by (intro addr_attr.attribute_reads) (simp_all add: addr_attribute_def)
  with b m show ?thesis by blast
qed

theorem xor_mapped_address_roundtrip_witness:
  "\<exists>bs msg. message_parse bs = Inr msg
     \<and> attribute XorMappedAddress msg = (Some (Inr (SockV4 0xC0A80001 5060)), msg)"
  using xor_mapped_address_roundtrip [of "replicate 12 7" "SockV4 0xC0A80001 5060"] by auto

text \<open>
  PASSWORD-ALGORITHMS is not read back as it was written: after an entry with parameters
  the decoder starts the next entry inside those parameters, so one algorithm with four
  bytes of parameters is read as that algorithm followed by another one the sender never
  listed.\<close>

theorem password_algorithms_params_misread:
  "\<exists>v. attr_encode PasswordAlgorithms [(alg, put_u16 other @ [0, 0])] () b = Some (builder_put b v)
     \<and> pa_decode v = Inr [(alg, put_u16 other @ [0, 0]), (other, [])]"
proof (intro exI conjI)
  let ?e = "(alg, put_u16 other @ [0, 0])"
  show "attr_encode PasswordAlgorithms [?e] () b = Some (builder_put b (pa_bytes ?e))"
    by (simp add: PasswordAlgorithms_def pa_fits_def del: to_be.simps)
  have "pa_read (pa_bytes ?e) = Inr (?e, put_u16 other @ [0, 0])"
    using pa_read_bytes [of ?e "[]"] by (simp add: pa_fits_def padding_usize_def del: to_be.simps)
  moreover have "pa_read (put_u16 other @ [0, 0]) = Inr ((other, []), [])"
    using pa_read_bytes [of "(other, [])" "[]"]
    by (simp add: pa_fits_def pa_bytes_def padding_usize_def numeral_2_eq_2)
  moreover have "pa_bytes ?e \<noteq> []"
    using length_pa_bytes1 [of ?e] by (auto simp del: to_be.simps)
  ultimately show "pa_decode (pa_bytes ?e) = Inr [?e, (other, [])]"
    using pa_decode.simps [of "pa_bytes ?e"] pa_decode.simps [of "put_u16 other @ [0, 0]"]
      pa_decode.simps [of "[]"] by (simp del: to_be.simps)
qed

end
