(* ===== verification/Ice_Stun.thy ===== *)
theory Ice_Stun
  imports Stun_Integrity "HOL-Library.Monad_Syntax"
begin

text \<open>
  The data types of the ICE agent (\<^verbatim>\<open>media/ice/src/lib.rs\<close>) and its use of STUN
  (\<^verbatim>\<open>media/ice/src/stun.rs\<close>): the messages it builds, their verification, and the
  binding to a STUN server, a state machine driven by \<^verbatim>\<open>poll\<close>. Strings are their UTF-8
  bytes. Random transaction ids and the current time are arguments; events emitted through a
  callback are returned as a list. HMAC-SHA1 is a parameter.
\<close>

section \<open>Data\<close>

datatype Component = Rtp | Rtcp

primrec component_id :: "Component \<Rightarrow> u32" where
  "component_id Rtp = 1"
| "component_id Rtcp = 2"

datatype IceGatheringState = Gathering_New | Gathering_Gathering | Gathering_Complete

datatype IceConnectionState =
  Connection_Failed | Connection_Disconnected | Connection_New | Connection_Checking | Connection_Connected

datatype IceEvent =
    GatheringStateChanged IceGatheringState IceGatheringState
  | ConnectionStateChanged IceConnectionState IceConnectionState
  | UseAddr Component SocketAddr
  | SendData Component bytes "IpAddr option" SocketAddr

datatype CandidateKind = Host | PeerReflexive | ServerReflexive

primrec kind_preference :: "CandidateKind \<Rightarrow> u32" where
  "kind_preference Host = 126"
| "kind_preference PeerReflexive = 110"
| "kind_preference ServerReflexive = 100"

record Candidate =
  cand_addr :: SocketAddr
  cand_kind :: CandidateKind
  cand_priority :: u32
  cand_foundation :: bytes
  cand_component :: Component
  cand_base :: SocketAddr

record IceCredentials =
  ufrag :: bytes
  pwd :: bytes

section \<open>Configuration\<close>

record StunConfig =
  initial_rto :: duration
  max_retransmits :: u32
  max_rto :: duration
  binding_refresh_interval :: duration

definition stun_config_new :: StunConfig where
  "stun_config_new =
     \<lparr>initial_rto = from_millis 250, max_retransmits = 7, max_rto = from_secs 3,
      binding_refresh_interval = from_secs 20\<rparr>"

text \<open>A shift of the \<^verbatim>\<open>u128\<close> by its width or more, and milliseconds beyond \<^verbatim>\<open>u64\<close>, panic.\<close>

definition retransmit_delta :: "StunConfig \<Rightarrow> u32 \<Rightarrow> duration panics" where
  "retransmit_delta self attempts =
     (let millis = (as_millis (initial_rto self) * 2 ^ unat attempts) mod 2 ^ 128
      in if 128 \<le> unat attempts \<or> 2 ^ 64 \<le> millis then None
         else Some (min (from_millis millis) (max_rto self)))"

section \<open>Messages\<close>

definition role_attr :: "bool \<Rightarrow> u64 \<Rightarrow> MessageBuilder \<Rightarrow> MessageBuilder panics" where
  "role_attr is_controlling control_tie_breaker b =
     (if is_controlling then add_attr IceControlling control_tie_breaker b
      else add_attr IceControlled control_tie_breaker b)"

definition make_binding_request ::
    "(bytes \<Rightarrow> bytes \<Rightarrow> bytes) \<Rightarrow> TransactionId \<Rightarrow> IceCredentials \<Rightarrow> IceCredentials \<Rightarrow> Candidate
     \<Rightarrow> bool \<Rightarrow> u64 \<Rightarrow> bool \<Rightarrow> bytes panics" where
  "make_binding_request hmac transaction_id local_credentials remote_credentials local_candidate
     is_controlling control_tie_breaker use_candidate =
     do {
       let b = builder_new Request Binding transaction_id;
       let username = ufrag remote_credentials @ [0x3A] @ ufrag local_credentials;
       b \<leftarrow> add_attr Username username b;
       b \<leftarrow> add_attr Priority (cand_priority local_candidate) b;
       b \<leftarrow> role_attr is_controlling control_tie_breaker b;
       b \<leftarrow> (if use_candidate then add_attr UseCandidate () b else Some b);
       b \<leftarrow> add_attr_with (MessageIntegrity hmac) () (pwd remote_credentials) b;
       b \<leftarrow> add_attr Fingerprint () b;
       builder_finish b
     }"

definition make_success_response ::
    "(bytes \<Rightarrow> bytes \<Rightarrow> bytes) \<Rightarrow> TransactionId \<Rightarrow> IceCredentials \<Rightarrow> SocketAddr \<Rightarrow> bytes panics" where
  "make_success_response hmac transaction_id local_credentials source =
     do {
       let b = builder_new Success Binding transaction_id;
       b \<leftarrow> add_attr XorMappedAddress source b;
       b \<leftarrow> add_attr_with (MessageIntegrity hmac) () (pwd local_credentials) b;
       b \<leftarrow> add_attr Fingerprint () b;
       builder_finish b
     }"

definition role_conflict :: ErrorCode where
  "role_conflict = \<lparr>ec_number = 487, ec_reason = ascii ''Role Conflict''\<rparr>"

definition make_role_error ::
    "(bytes \<Rightarrow> bytes \<Rightarrow> bytes) \<Rightarrow> TransactionId \<Rightarrow> IceCredentials \<Rightarrow> IceCredentials \<Rightarrow> SocketAddr
     \<Rightarrow> bool \<Rightarrow> u64 \<Rightarrow> bytes panics" where
  "make_role_error hmac transaction_id local_credentials remote_credentials source is_controlling
     control_tie_breaker =
     do {
       let b = builder_new Success Binding transaction_id;
       let username = ufrag local_credentials @ [0x3A] @ ufrag remote_credentials;
       b \<leftarrow> add_attr Username username b;
       b \<leftarrow> add_attr ErrorCodeAttr role_conflict b;
       b \<leftarrow> role_attr is_controlling control_tie_breaker b;
       b \<leftarrow> add_attr XorMappedAddress source b;
       b \<leftarrow> add_attr_with (MessageIntegrity hmac) () (pwd remote_credentials) b;
       b \<leftarrow> add_attr Fingerprint () b;
       builder_finish b
     }"

definition is_some_ok :: "('e, 'a) result option \<Rightarrow> bool" where
  "is_some_ok r = (case r of Some (Inr _) \<Rightarrow> True | _ \<Rightarrow> False)"

definition verify_integrity ::
    "(bytes \<Rightarrow> bytes \<Rightarrow> bytes) \<Rightarrow> IceCredentials \<Rightarrow> IceCredentials \<Rightarrow> Message \<Rightarrow> bool \<times> Message" where
  "verify_integrity hmac local_credentials remote_credentials stun_msg =
     (let is_request = (msg_class stun_msg = Request \<or> msg_class stun_msg = Indication);
          key = (if is_request then pwd local_credentials else pwd remote_credentials);
          (r, stun_msg) = attribute_with (MessageIntegrity hmac) key stun_msg
      in if \<not> is_some_ok r then (False, stun_msg)
         else if is_request then
           let expected_username = ufrag local_credentials @ [0x3A] @ ufrag remote_credentials;
               (username, stun_msg) = attribute Username stun_msg
           in (case username of
                 Some (Inr username) \<Rightarrow> (username = expected_username, stun_msg)
               | _ \<Rightarrow> (False, stun_msg))
         else (True, stun_msg))"

section \<open>Bindings to STUN servers\<close>

datatype StunServerBindingState =
    Binding_Waiting
  | Binding_InProgress TransactionId bytes instant u32
  | Binding_WaitingForRefresh instant
  | Binding_Failed

record StunServerBinding =
  sb_server :: SocketAddr
  sb_component :: Component
  sb_state :: StunServerBindingState
  sb_last_mapped_addr :: "SocketAddr option"

definition binding_new :: "SocketAddr \<Rightarrow> Component \<Rightarrow> StunServerBinding" where
  "binding_new server component =
     \<lparr>sb_server = server, sb_component = component, sb_state = Binding_Waiting,
      sb_last_mapped_addr = None\<rparr>"

definition is_completed :: "StunServerBinding \<Rightarrow> bool" where
  "is_completed self \<longleftrightarrow> sb_last_mapped_addr self \<noteq> None \<or> sb_state self = Binding_Failed"

text \<open>\<^verbatim>\<open>checked_duration_since(now).unwrap_or(ZERO)\<close> is subtraction of natural numbers.\<close>

definition binding_timeout :: "StunServerBinding \<Rightarrow> instant \<Rightarrow> duration option" where
  "binding_timeout self now =
     (case sb_state self of
        Binding_Waiting \<Rightarrow> Some 0
      | Binding_InProgress _ _ retransmit_at _ \<Rightarrow> Some (retransmit_at - now)
      | Binding_WaitingForRefresh refresh_at \<Rightarrow> Some (refresh_at - now)
      | Binding_Failed \<Rightarrow> None)"

definition start_binding_request ::
    "StunServerBinding \<Rightarrow> instant \<Rightarrow> StunConfig \<Rightarrow> TransactionId
     \<Rightarrow> (StunServerBinding \<times> IceEvent list) panics" where
  "start_binding_request self now stun_config transaction_id =
     do {
       b \<leftarrow> add_attr Fingerprint () (builder_new Request Binding transaction_id);
       stun_request \<leftarrow> builder_finish b;
       delta \<leftarrow> retransmit_delta stun_config 0;
       Some (self\<lparr>sb_state := Binding_InProgress transaction_id stun_request (now + delta) 0\<rparr>,
             [SendData (sb_component self) stun_request None (sb_server self)])
     }"

definition binding_poll ::
    "StunServerBinding \<Rightarrow> instant \<Rightarrow> StunConfig \<Rightarrow> TransactionId
     \<Rightarrow> (StunServerBinding \<times> IceEvent list) panics" where
  "binding_poll self now stun_config random =
     (case sb_state self of
        Binding_Waiting \<Rightarrow> start_binding_request self now stun_config random
      | Binding_InProgress transaction_id stun_request retransmit_at retransmits \<Rightarrow>
          if now < retransmit_at then Some (self, [])
          else if max_retransmits stun_config \<le> retransmits
          then Some (self\<lparr>sb_state := Binding_Failed, sb_last_mapped_addr := None\<rparr>, [])
          else do {
            delta \<leftarrow> retransmit_delta stun_config (retransmits + 1);
            Some (self\<lparr>sb_state := Binding_InProgress transaction_id stun_request
                         (retransmit_at + delta) (retransmits + 1)\<rparr>,
                  [SendData (sb_component self) stun_request None (sb_server self)])
          }
      | Binding_WaitingForRefresh refresh_at \<Rightarrow>
          if refresh_at < now then start_binding_request self now stun_config random
          else Some (self, [])
      | Binding_Failed \<Rightarrow> Some (self, []))"

definition wants_stun_response :: "StunServerBinding \<Rightarrow> TransactionId \<Rightarrow> bool" where
  "wants_stun_response self transaction_id =
     (case sb_state self of Binding_InProgress tsx_id _ _ _ \<Rightarrow> transaction_id = tsx_id | _ \<Rightarrow> False)"

definition receive_stun_response ::
    "StunServerBinding \<Rightarrow> StunConfig \<Rightarrow> instant \<Rightarrow> Message
     \<Rightarrow> (StunServerBinding \<times> SocketAddr option) panics" where
  "receive_stun_response self stun_config now stun_msg =
     (case fst (attribute XorMappedAddress stun_msg) of
        None \<Rightarrow> Some (self, None)
      | Some (Inl _) \<Rightarrow> None
      | Some (Inr mapped) \<Rightarrow>
          Some (self\<lparr>sb_state := Binding_WaitingForRefresh (now + binding_refresh_interval stun_config),
                     sb_last_mapped_addr := Some mapped\<rparr>, Some mapped))"

section \<open>Retransmission ends\<close>

lemma retransmit_delta_new:
  assumes "unat k \<le> 7"
  shows "retransmit_delta stun_config_new k = Some (min (from_millis (250 * 2 ^ unat k)) (from_secs 3))"
proof -
  have "(2 :: nat) ^ unat k \<le> 2 ^ 7" using assms by (intro power_increasing) auto
  then have "250 * (2 :: nat) ^ unat k \<le> 32000" by simp
  then have "250 * (2 :: nat) ^ unat k < 2 ^ 64" "250 * (2 :: nat) ^ unat k < 2 ^ 128"
    by (rule le_less_trans, simp)+
  then show ?thesis
    using assms by (simp add: retransmit_delta_def stun_config_new_def as_millis_def from_millis_def Let_def)
qed

text \<open>Polling a binding at given times, with the random ids it may draw.\<close>

fun binding_run ::
    "StunServerBinding \<Rightarrow> StunConfig \<Rightarrow> (instant \<times> TransactionId) list
     \<Rightarrow> (StunServerBinding \<times> IceEvent list) panics" where
  "binding_run b cfg [] = Some (b, [])"
| "binding_run b cfg ((now, random) # polls) =
     do {
       (b, ev) \<leftarrow> binding_poll b now cfg random;
       (b, evs) \<leftarrow> binding_run b cfg polls;
       Some (b, ev @ evs)
     }"

lemma binding_run_failed:
  "sb_state b = Binding_Failed \<Longrightarrow> binding_run b cfg polls = Some (b, [])"
  by (induction polls) (auto simp: binding_poll_def)

lemma word_suc_le_7: "unat (k :: u32) < 7 \<Longrightarrow> unat (k + 1) = Suc (unat k)"
  by (simp add: unat_word_ariths)

text \<open>
  How many deadlines are met by polls at given times, if \<open>k\<close> have been met before and the next is
  at \<open>at\<close>: deadlines follow one another after 250 ms, doubled each time up to three seconds, and
  the eighth is the last.
\<close>

fun deadlines_met :: "nat \<Rightarrow> instant \<Rightarrow> instant list \<Rightarrow> nat" where
  "deadlines_met k at [] = 0"
| "deadlines_met k at (t # ts) =
     (if t < at then deadlines_met k at ts
      else if 7 \<le> k then 1
      else Suc (deadlines_met (Suc k) (at + min (from_millis (250 * 2 ^ Suc k)) (from_secs 3)) ts))"

lemma deadlines_met_le: "k \<le> 7 \<Longrightarrow> deadlines_met k at ts \<le> 8 - k"
  by (induction k at ts rule: deadlines_met.induct) auto

lemma late_polls_meet_deadlines:
  "k \<le> 7 \<Longrightarrow> 8 - k \<le> length [t \<leftarrow> ts. at + (7 - k) * from_secs 3 \<le> t] \<Longrightarrow> deadlines_met k at ts = 8 - k"
proof (induction k at ts rule: deadlines_met.induct)
  case (2 k at t ts)
  show ?case
  proof (cases "t < at \<or> 7 \<le> k")
    case True
    then show ?thesis using 2 by (auto split: if_splits)
  next
    case False
    let ?at = "at + min (from_millis (250 * 2 ^ Suc k)) (from_secs 3)"
    have "(7 - k) * from_secs 3 = (7 - Suc k) * from_secs 3 + from_secs 3" using False by (simp add: algebra_simps Suc_diff_Suc)
    then have "at + (7 - k) * from_secs 3 \<le> t' \<Longrightarrow> ?at + (7 - Suc k) * from_secs 3 \<le> t'" for t' by linarith
    then have "length [t \<leftarrow> ts. at + (7 - k) * from_secs 3 \<le> t] \<le> length [t \<leftarrow> ts. ?at + (7 - Suc k) * from_secs 3 \<le> t]"
      by (induction ts) auto
    then have "deadlines_met (Suc k) ?at ts = 8 - Suc k" using 2 False by (intro "2.IH"(2)) (auto split: if_splits)
    moreover have "8 - k = Suc (8 - Suc k)" using False by linarith
    ultimately show ?thesis using False by simp
  qed
qed simp

lemma binding_run_in_progress:
  fixes polls :: "(instant \<times> TransactionId) list"
  assumes "sb_state b = Binding_InProgress tid req at k" "unat k \<le> 7"
  defines "n \<equiv> deadlines_met (unat k) at (map fst polls)"
  shows "\<exists>b'. binding_run b stun_config_new polls
      = Some (b', replicate (min (7 - unat k) n) (SendData (sb_component b) req None (sb_server b)))
    \<and> (if n = 8 - unat k then sb_state b' = Binding_Failed else \<exists>at' k'. sb_state b' = Binding_InProgress tid req at' k' \<and> sb_last_mapped_addr b' = sb_last_mapped_addr b)"
  using assms(1,2) unfolding n_def
proof (induction polls arbitrary: b at k)
  case (Cons p polls)
  obtain now rnd where p: "p = (now, rnd)" by fastforce
  consider "now < at" | "\<not> now < at" "unat k = 7" | "\<not> now < at" "unat k < 7" using Cons.prems(2) by linarith
  then show ?case
  proof cases
    case 1
    then show ?thesis using Cons by (simp add: p binding_poll_def)
  next
    case 2
    then have "max_retransmits stun_config_new \<le> k" by (simp add: stun_config_new_def word_le_nat_alt)
    then show ?thesis using 2 Cons.prems(1) by (simp add: p binding_poll_def binding_run_failed)
  next
    case 3
    let ?d = "min (from_millis (250 * 2 ^ unat (k + 1))) (from_secs 3)"
    let ?b = "b\<lparr>sb_state := Binding_InProgress tid req (at + ?d) (k + 1)\<rparr>"
    have k: "unat (k + 1) = Suc (unat k)" using 3 by (simp add: word_suc_le_7)
    have "\<not> max_retransmits stun_config_new \<le> k" using 3 by (simp add: stun_config_new_def word_le_nat_alt)
    moreover have "retransmit_delta stun_config_new (k + 1) = Some ?d" using k 3 by (intro retransmit_delta_new) simp
    ultimately have "binding_poll b now stun_config_new rnd = Some (?b, [SendData (sb_component b) req None (sb_server b)])"
      using Cons.prems(1) 3 by (simp add: binding_poll_def)
    moreover note Cons.IH [of ?b "at + ?d" "k + 1"]
    moreover have "7 - unat k = Suc (7 - Suc (unat k))" "8 - unat k = Suc (8 - Suc (unat k))" using 3 by simp_all
    ultimately show ?thesis using 3 k by (auto simp: p)
  qed
qed simp

lemma fingerprint_request:
  assumes "length tid = 12"
  shows "\<exists>b bs. add_attr Fingerprint () (builder_new Request Binding (TransactionId tid)) = Some b
    \<and> builder_finish b = Some bs"
proof -
  from fp.seal_holds [OF builder_holds_new [OF assms, of Request Binding], of "()"] obtain b where
    b: "add_attr Fingerprint () (builder_new Request Binding (TransactionId tid)) = Some b"
    "builder_holds b Request Binding tid
      [(TYPE_Fingerprint, put_u32 (crc32 (sealed_part Request Binding tid [] 4) XOR 0x5354554e))]"
    by (auto simp: add_attr_def)
  from builder_finish_parse [OF b(2)] b(1) show ?thesis by (auto simp: length_tlv_bytes)
qed

text \<open>
  C34: A binding whose server never answers retransmits on schedule and gives up. Whenever it is
  polled, it has sent its request once, and once more for each deadline that a poll has met, up
  to eight times in all; until it has met the eighth deadline it goes on, and then it has
  failed, which completes the gathering. It never panics, and eight polls later than 21.25
  seconds are enough for it to give up, whatever other polls there are.\<close>

theorem binding_gives_up:
  fixes polls :: "(instant \<times> TransactionId) list" and now :: instant
  assumes "length tid = 12"
  defines "n \<equiv> deadlines_met 0 (now + from_millis 250) (map fst polls)"
  shows "\<exists>b' req. binding_run (binding_new server component) stun_config_new ((now, TransactionId tid) # polls)
      = Some (b', replicate (1 + min 7 n) (SendData component req None server))
    \<and> (if n = 8 then sb_state b' = Binding_Failed \<and> is_completed b' \<and> binding_timeout b' t = None
       else \<not> is_completed b' \<and> binding_timeout b' t \<noteq> None)
    \<and> (8 \<le> length [p \<leftarrow> polls. now + from_millis 250 + 7 * from_secs 3 \<le> fst p] \<longrightarrow> n = 8)"
proof -
  from fingerprint_request [OF assms(1)] obtain b req where
    b: "add_attr Fingerprint () (builder_new Request Binding (TransactionId tid)) = Some b"
    "builder_finish b = Some req" by blast
  let ?b = "(binding_new server component)\<lparr>sb_state :=
      Binding_InProgress (TransactionId tid) req (now + from_millis 250) 0\<rparr>"
  have "retransmit_delta stun_config_new 0 = Some (from_millis 250)"
    using retransmit_delta_new [of 0] by (simp add: from_millis_def)
  then have "binding_poll (binding_new server component) now stun_config_new (TransactionId tid)
      = Some (?b, [SendData component req None server])"
    by (simp add: binding_poll_def binding_new_def start_binding_request_def b)
  moreover have "\<exists>b'. binding_run ?b stun_config_new polls
      = Some (b', replicate (min 7 n) (SendData component req None server))
    \<and> (if n = 8 then sb_state b' = Binding_Failed
       else \<exists>at' k'. sb_state b' = Binding_InProgress (TransactionId tid) req at' k' \<and> sb_last_mapped_addr b' = None)"
    using binding_run_in_progress [of ?b "TransactionId tid" req "now + from_millis 250" 0 polls]
    by (simp add: binding_new_def n_def cong: if_cong)
  moreover have "8 \<le> length [p \<leftarrow> polls. now + from_millis 250 + 7 * from_secs 3 \<le> fst p] \<longrightarrow> n = 8"
    using late_polls_meet_deadlines [of 0 "now + from_millis 250" "map fst polls"] by (simp add: n_def filter_map o_def)
  ultimately show ?thesis by (auto simp: is_completed_def binding_timeout_def split: if_splits)
qed

theorem binding_gives_up_witness:
  "\<exists>b' req. binding_run (binding_new (SockV4 1 2) Rtp) stun_config_new
      ((0, TransactionId (replicate 12 1)) # (from_millis 100, TransactionId (replicate 12 3)) # replicate 8 (from_secs 30, TransactionId (replicate 12 2)))
      = Some (b', replicate 8 (SendData Rtp req None (SockV4 1 2)))
    \<and> sb_state b' = Binding_Failed"
proof -
  let ?polls = "(from_millis 100, TransactionId (replicate 12 3)) # replicate 8 (from_secs 30, TransactionId (replicate 12 2))"
  have "8 \<le> length [p \<leftarrow> ?polls. 0 + from_millis 250 + 7 * from_secs 3 \<le> fst p]" by (simp add: from_millis_def)
  with binding_gives_up [where tid = "replicate 12 1" and now = 0 and polls = ?polls and server = "SockV4 1 2" and component = Rtp] obtain b' req where
    "binding_run (binding_new (SockV4 1 2) Rtp) stun_config_new ((0, TransactionId (replicate 12 1)) # ?polls)
      = Some (b', replicate (1 + min 7 8) (SendData Rtp req None (SockV4 1 2)))" "sb_state b' = Binding_Failed"
    by (metis length_replicate)
  moreover have "1 + min 7 8 = (8 :: nat)" by simp
  ultimately show ?thesis by metis
qed

section \<open>Messages between two agents\<close>

text \<open>What a sealed message gives to the peer that knows the key.\<close>

lemma sealed_lookup:
  assumes "map (span_tlv (msg_buffer msg)) (msg_attributes msg) = sealed_tlvs h c m tid es"
    and "\<forall>e\<in>set es. fst e \<notin> sealing_types" "T \<notin> sealing_types"
  shows "tlv_find False T (map (span_tlv (msg_buffer msg)) (msg_attributes msg)) = find (\<lambda>e. fst e = T) es"
  using tlv_find_plain [OF assms(2,3)] by (simp add: assms(1)) (simp add: sealed_tlvs_def Let_def)

lemma sealed_and_parsed:
  assumes b: "builder_holds b c m tid es" and hmac: "\<And>d. length (hmac key d) = 20"
    and plain: "\<forall>e\<in>set es. fst e \<notin> sealing_types" and small: "length (tlvs_bytes es) + 32 < 65536"
  shows "\<exists>b2 b3 bs msg. add_attr_with (MessageIntegrity hmac) () key b = Some b2
    \<and> add_attr Fingerprint () b2 = Some b3 \<and> builder_finish b3 = Some bs \<and> message_parse bs = Inr msg
    \<and> msg_class msg = c \<and> msg_transaction_id msg = TransactionId tid \<and> msg_id msg = stun_id tid
    \<and> attribute_with (MessageIntegrity hmac) key msg = (Some (Inr ()), msg)
    \<and> attribute Fingerprint msg = (Some (Inr ()), msg)
    \<and> (\<forall>T. T \<notin> sealing_types \<longrightarrow>
         tlv_find False T (map (span_tlv (msg_buffer msg)) (msg_attributes msg)) = find (\<lambda>e. fst e = T) es)"
proof -
  have tid: "length tid = 12" using b by (simp add: builder_holds_def)
  from seal_and_finish [where hmac = hmac and key = key, OF b hmac small] obtain b2 b3 bs msg where
    b2: "add_attr_with (MessageIntegrity hmac) () key b = Some b2" "add_attr Fingerprint () b2 = Some b3"
    and fin: "builder_finish b3 = Some bs" "message_parse bs = Inr msg"
    and msg: "msg_class msg = c" "msg_transaction_id msg = TransactionId tid" "msg_id msg = stun_id tid"
    and buf: "msg_buffer msg = bs"
    and rest: "bs = header_bytes (wire_head c m (length (tlvs_bytes es) + 32)) tid @ tlvs_bytes (sealed_tlvs (hmac key) c m tid es)"
      "msg_attributes msg = tlv_spans 20 (sealed_tlvs (hmac key) c m tid es)"
      "msg_head msg = wire_head c m (length (tlvs_bytes es) + 32)" by blast
  note reads = sealed_message_reads [where hmac = hmac and key = key,
      OF fin(2) rest(1) buf rest(2,3) tid hmac plain small]
  have "map (span_tlv (msg_buffer msg)) (msg_attributes msg) = sealed_tlvs (hmac key) c m tid es"
    using reads(3) buf by simp
  with b2 fin msg reads(1,2) sealed_lookup [OF _ plain, of msg "hmac key" c m tid] show ?thesis by blast
qed

lemma sealing_types_values [simp]:
  "sealing_types = {0x0008, 0x001C, 0x8028}"
  by (simp add: TYPE_MessageIntegrity_def TYPE_MessageIntegritySha256_def TYPE_Fingerprint_def)

lemma role_attr_holds:
  assumes "builder_holds b c m tid es"
  shows "\<exists>b'. role_attr ctl tb b = Some b'
    \<and> builder_holds b' c m tid (es @ [(if ctl then 0x802A else 0x8029, put_u64 tb)])"
  using controlling_attr.add_attr_holds [OF assms, of tb] controlled_attr.add_attr_holds [OF assms, of tb]
  by (simp add: role_attr_def IceControlling_def IceControlled_def int_attribute_def del: to_be.simps)

definition request_tlvs :: "bytes \<Rightarrow> u32 \<Rightarrow> bool \<Rightarrow> u64 \<Rightarrow> bool \<Rightarrow> tlv list" where
  "request_tlvs username prio ctl tb use =
     [(0x0006, username), (0x0024, put_u32 prio), (if ctl then 0x802A else 0x8029, put_u64 tb)]
     @ (if use then [(0x0025, [])] else [])"

lemma use_candidate_holds:
  assumes "builder_holds b c m tid es"
  shows "\<exists>b'. (if use then add_attr UseCandidate () b else Some b) = Some b'
    \<and> builder_holds b' c m tid (es @ (if use then [(0x0025, [])] else []))"
  using flag_attr.add_attr_holds [where T = "0x0025" and a = "()", OF assms] assms
  by (simp add: UseCandidate_def flag_attribute_def)

lemma attribute_missing:
  "tlv_find False (attr_TYPE A) (map (span_tlv (msg_buffer msg)) (msg_attributes msg)) = None \<Longrightarrow>
     attribute A msg = (None, msg)"
  by (simp add: attribute_def attribute_with_def find_attribute_tlv [symmetric])

lemma request_flags:
  assumes look: "\<And>T. T \<notin> sealing_types \<Longrightarrow>
      tlv_find False T (map (span_tlv (msg_buffer msg)) (msg_attributes msg))
        = find (\<lambda>e. fst e = T) (request_tlvs username prio ctl tb use)"
  shows "attribute IceControlling msg = (if ctl then Some (Inr tb) else None, msg)"
    "attribute IceControlled msg = (if ctl then None else Some (Inr tb), msg)"
    "attribute UseCandidate msg = (if use then Some (Inr ()) else None, msg)"
proof -
  have ty: "attr_TYPE IceControlling = 0x802A" "attr_TYPE IceControlled = 0x8029" "attr_TYPE UseCandidate = 0x25"
    by (simp_all add: IceControlling_def IceControlled_def int_attribute_def UseCandidate_def flag_attribute_def)
  note find = look [of "0x802A"] look [of "0x8029"] look [of "0x25"]
  show "attribute IceControlling msg = (if ctl then Some (Inr tb) else None, msg)"
    using find(1) attribute_missing [of IceControlling msg]
    by (cases ctl) (auto simp: ty request_tlvs_def intro!: controlling_attr.attribute_reads simp del: to_be.simps)
  show "attribute IceControlled msg = (if ctl then None else Some (Inr tb), msg)"
    using find(2) attribute_missing [of IceControlled msg]
    by (cases ctl) (auto simp: ty request_tlvs_def intro!: controlled_attr.attribute_reads simp del: to_be.simps)
  show "attribute UseCandidate msg = (if use then Some (Inr ()) else None, msg)"
    using find(3) attribute_missing [of UseCandidate msg] ty(3)
    by (cases use) (auto simp: request_tlvs_def UseCandidate_def intro!: flag_attr.attribute_reads simp del: to_be.simps)
qed

lemma request_builder:
  assumes tid: "length tid = 12" and user: "utf8_valid username" "length username < 65000"
  shows "\<exists>b1 b2 b3 b4. add_attr Username username (builder_new Request Binding (TransactionId tid)) = Some b1
    \<and> add_attr Priority prio b1 = Some b2 \<and> role_attr ctl tb b2 = Some b3
    \<and> (if use then add_attr UseCandidate () b3 else Some b3) = Some b4
    \<and> builder_holds b4 Request Binding tid (request_tlvs username prio ctl tb use)"
proof -
  have ty: "attr_TYPE Username = 6" "attr_TYPE Priority = 0x24"
    by (simp_all add: string_attribute_def Priority_def int_attribute_def)
  from string_attr.add_attr_holds [where T = 6, OF builder_holds_new [OF tid, of Request Binding], of username] user ty
  obtain b1 where b1: "add_attr Username username (builder_new Request Binding (TransactionId tid)) = Some b1"
    "builder_holds b1 Request Binding tid [(6, username)]" by auto
  from priority_attr.add_attr_holds [OF b1(2), of prio] ty obtain b2 where
    b2: "add_attr Priority prio b1 = Some b2"
    "builder_holds b2 Request Binding tid [(6, username), (0x24, put_u32 prio)]" by auto
  from role_attr_holds [OF b2(2), of ctl tb] obtain b3 where b3: "role_attr ctl tb b2 = Some b3"
    "builder_holds b3 Request Binding tid ([(6, username), (0x24, put_u32 prio)] @ [(if ctl then 0x802A else 0x8029, put_u64 tb)])"
    by blast
  from use_candidate_holds [OF b3(2), of use] obtain b4 where
    "(if use then add_attr UseCandidate () b3 else Some b3) = Some b4"
    "builder_holds b4 Request Binding tid (request_tlvs username prio ctl tb use)"
    by (auto simp: request_tlvs_def)
  with b1(1) b2(1) b3(1) show ?thesis by blast
qed

text \<open>
  C15: A connectivity check is accepted by the agent it is meant for: the request built with
  one agent's credentials as local and the other's as remote parses, passes the fingerprint
  and the integrity check under the swapped credentials, and carries the candidate's
  priority, the sender's role with its tie-breaker, and the nomination flag.\<close>

theorem binding_request_accepted:
  assumes tid: "length tid = 12" and hmac: "\<And>d. length (hmac (pwd rc) d) = 20"
    and user: "utf8_valid (ufrag rc @ [0x3A] @ ufrag lc)" "length (ufrag rc) + length (ufrag lc) < 64000"
  shows "\<exists>bs msg. make_binding_request hmac (TransactionId tid) lc rc cand ctl tb use = Some bs
    \<and> message_parse bs = Inr msg \<and> msg_class msg = Request \<and> msg_transaction_id msg = TransactionId tid
    \<and> attribute Fingerprint msg = (Some (Inr ()), msg) \<and> verify_integrity hmac rc lc msg = (True, msg)
    \<and> attribute Priority msg = (Some (Inr (cand_priority cand)), msg)
    \<and> attribute IceControlling msg = (if ctl then Some (Inr tb) else None, msg)
    \<and> attribute IceControlled msg = (if ctl then None else Some (Inr tb), msg)
    \<and> attribute UseCandidate msg = (if use then Some (Inr ()) else None, msg)"
proof -
  let ?u = "ufrag rc @ [0x3A] @ ufrag lc"
  let ?es = "request_tlvs ?u (cand_priority cand) ctl tb use"
  have len: "length ?u < 65000" using user(2) by simp
  from request_builder [OF tid user(1) len, of "cand_priority cand" ctl tb use] obtain b1 b2 b3 b4 where
    b: "add_attr Username ?u (builder_new Request Binding (TransactionId tid)) = Some b1"
    "add_attr Priority (cand_priority cand) b1 = Some b2" "role_attr ctl tb b2 = Some b3"
    "(if use then add_attr UseCandidate () b3 else Some b3) = Some b4"
    and holds: "builder_holds b4 Request Binding tid ?es" by blast
  have plain: "\<forall>e\<in>set ?es. fst e \<notin> sealing_types" by (simp add: request_tlvs_def del: to_be.simps)
  have small: "length (tlvs_bytes ?es) + 32 < 65536"
    using user(2) padding_usize_less [of "length ?u"]
    by (simp add: request_tlvs_def length_tlv_bytes)
  from sealed_and_parsed [where hmac = hmac and key = "pwd rc", OF holds hmac plain small] obtain c1 c2 bs msg where
    fin: "add_attr_with (MessageIntegrity hmac) () (pwd rc) b4 = Some c1" "add_attr Fingerprint () c1 = Some c2"
      "builder_finish c2 = Some bs" "message_parse bs = Inr msg"
    and msg: "msg_class msg = Request" "msg_transaction_id msg = TransactionId tid"
    and seal: "attribute_with (MessageIntegrity hmac) (pwd rc) msg = (Some (Inr ()), msg)"
      "attribute Fingerprint msg = (Some (Inr ()), msg)"
    and look: "\<And>T. T \<notin> sealing_types \<Longrightarrow> tlv_find False T (map (span_tlv (msg_buffer msg)) (msg_attributes msg))
       = find (\<lambda>e. fst e = T) ?es" by blast
  have made: "make_binding_request hmac (TransactionId tid) lc rc cand ctl tb use = Some bs"
    using b fin by (simp add: make_binding_request_def Let_def)
  have "attribute Username msg = (Some (Inr ?u), msg)"
    using look [of 6] user len
    by (intro string_attr.attribute_reads) (auto simp: string_attribute_def request_tlvs_def)
  then have "verify_integrity hmac rc lc msg = (True, msg)"
    using seal msg by (simp add: verify_integrity_def is_some_ok_def)
  moreover have "attribute Priority msg = (Some (Inr (cand_priority cand)), msg)"
    using look [of "0x24"]
    by (intro priority_attr.attribute_reads) (auto simp: Priority_def int_attribute_def request_tlvs_def simp del: to_be.simps)
  ultimately show ?thesis
    using made fin(4) msg seal(2) request_flags [OF look] by blast
qed

theorem binding_request_accepted_witness:
  "\<exists>bs msg. make_binding_request (\<lambda>k d. take 20 (k @ d @ replicate 20 0)) (TransactionId (replicate 12 1))
      \<lparr>ufrag = [97], pwd = [98]\<rparr> \<lparr>ufrag = [99], pwd = [100]\<rparr>
      \<lparr>cand_addr = SockV4 1 2, cand_kind = Host, cand_priority = 77, cand_foundation = [], cand_component = Rtp,
       cand_base = SockV4 1 2\<rparr> True 5 False = Some bs
    \<and> message_parse bs = Inr msg
    \<and> verify_integrity (\<lambda>k d. take 20 (k @ d @ replicate 20 0)) \<lparr>ufrag = [99], pwd = [100]\<rparr>
        \<lparr>ufrag = [97], pwd = [98]\<rparr> msg = (True, msg)
    \<and> attribute Priority msg = (Some (Inr 77), msg)"
  using binding_request_accepted [of "replicate 12 1" "\<lambda>k d. take 20 (k @ d @ replicate 20 0)"
      "\<lparr>ufrag = [99], pwd = [100]\<rparr>" "\<lparr>ufrag = [97], pwd = [98]\<rparr>"
      "\<lparr>cand_addr = SockV4 1 2, cand_kind = Host, cand_priority = 77, cand_foundation = [], cand_component = Rtp,
       cand_base = SockV4 1 2\<rparr>" True 5 False]
  by fastforce

lemma mapped_address_holds:
  assumes "builder_holds b c m tid es" "addr_wf a"
  shows "\<exists>b'. add_attr XorMappedAddress a b = Some b'
    \<and> builder_holds b' c m tid (es @ [(0x0020, encode_addr a XOR16 COOKIE (stun_id tid))])"
  using addr_attr.add_attr_holds [where T = "0x0020" and key = "\<lambda>i. (XOR16, COOKIE, i)", OF assms]
  by (simp add: XorMappedAddress_def addr_attribute_def)

lemma length_mapped_tlv: "length (tlv_bytes (T, encode_addr a k16 k32 k128)) \<le> 24"
  by (cases a) (simp_all add: length_tlv_bytes padding_usize_def)

text \<open>
  C22: The answer to a connectivity check is accepted by the agent that sent the check: it
  parses as a success response with the same transaction id, passes both checks under the
  swapped credentials, and tells the sender the address its request came from.\<close>

theorem success_response_accepted:
  assumes tid: "length tid = 12" and hmac: "\<And>d. length (hmac (pwd lc) d) = 20" and src: "addr_wf source"
  shows "\<exists>bs msg. make_success_response hmac (TransactionId tid) lc source = Some bs
    \<and> message_parse bs = Inr msg \<and> msg_class msg = Success \<and> msg_transaction_id msg = TransactionId tid
    \<and> attribute Fingerprint msg = (Some (Inr ()), msg) \<and> verify_integrity hmac rc lc msg = (True, msg)
    \<and> attribute XorMappedAddress msg = (Some (Inr source), msg)"
proof -
  let ?es = "[(0x0020, encode_addr source XOR16 COOKIE (stun_id tid))] :: tlv list"
  from mapped_address_holds [OF builder_holds_new [OF tid, of Success Binding] src] obtain b where
    b: "add_attr XorMappedAddress source (builder_new Success Binding (TransactionId tid)) = Some b"
    and holds: "builder_holds b Success Binding tid ?es" by auto
  have small: "length (tlvs_bytes ?es) + 32 < 65536"
    using length_mapped_tlv [of "0x0020" source XOR16 COOKIE "stun_id tid"] by simp
  have plain: "\<forall>e\<in>set ?es. fst e \<notin> sealing_types" by simp
  from sealed_and_parsed [where hmac = hmac and key = "pwd lc", OF holds hmac plain small] obtain c1 c2 bs msg where
    fin: "add_attr_with (MessageIntegrity hmac) () (pwd lc) b = Some c1" "add_attr Fingerprint () c1 = Some c2"
      "builder_finish c2 = Some bs" "message_parse bs = Inr msg"
    and msg: "msg_class msg = Success" "msg_transaction_id msg = TransactionId tid" "msg_id msg = stun_id tid"
    and seal: "attribute_with (MessageIntegrity hmac) (pwd lc) msg = (Some (Inr ()), msg)"
      "attribute Fingerprint msg = (Some (Inr ()), msg)"
    and look: "\<And>T. T \<notin> sealing_types \<Longrightarrow> tlv_find False T (map (span_tlv (msg_buffer msg)) (msg_attributes msg))
       = find (\<lambda>e. fst e = T) ?es" by blast
  have "make_success_response hmac (TransactionId tid) lc source = Some bs"
    using b fin by (simp add: make_success_response_def Let_def)
  moreover have "verify_integrity hmac rc lc msg = (True, msg)"
    using seal msg by (simp add: verify_integrity_def is_some_ok_def)
  moreover have "attribute XorMappedAddress msg = (Some (Inr source), msg)"
    unfolding XorMappedAddress_def using look [of "0x20"] src msg(3)
    by (intro addr_attr.attribute_reads) (simp_all add: addr_attribute_def)
  ultimately show ?thesis using fin(4) msg seal(2) by blast
qed

theorem success_response_accepted_witness:
  "\<exists>bs msg. make_success_response (\<lambda>k d. take 20 (k @ d @ replicate 20 0)) (TransactionId (replicate 12 1))
      \<lparr>ufrag = [97], pwd = [98]\<rparr> (SockV4 0xC0A80001 5060) = Some bs
    \<and> message_parse bs = Inr msg
    \<and> verify_integrity (\<lambda>k d. take 20 (k @ d @ replicate 20 0)) \<lparr>ufrag = [99], pwd = [100]\<rparr>
        \<lparr>ufrag = [97], pwd = [98]\<rparr> msg = (True, msg)"
  using success_response_accepted [of "replicate 12 1" "\<lambda>k d. take 20 (k @ d @ replicate 20 0)"
      "\<lparr>ufrag = [97], pwd = [98]\<rparr>" "SockV4 0xC0A80001 5060" "\<lparr>ufrag = [99], pwd = [100]\<rparr>"]
  by fastforce

section \<open>Role conflicts\<close>

lemma role_conflict_wf:
  "unat (ec_number role_conflict) < 1600" "utf8_valid (ec_reason role_conflict)"
  "length (ec_reason role_conflict) = 13"
  by (simp_all add: role_conflict_def ascii_def of_char_def)

lemma role_error_builder:
  assumes tid: "length tid = 12" and user: "utf8_valid username" "length username < 65000" and src: "addr_wf source"
  shows "\<exists>b1 b2 b3 b4 es. add_attr Username username (builder_new Success Binding (TransactionId tid)) = Some b1
    \<and> add_attr ErrorCodeAttr role_conflict b1 = Some b2 \<and> role_attr ctl tb b2 = Some b3
    \<and> add_attr XorMappedAddress source b3 = Some b4 \<and> builder_holds b4 Success Binding tid es
    \<and> (\<forall>e\<in>set es. fst e \<notin> sealing_types) \<and> length (tlvs_bytes es) + 32 < 65536"
proof -
  have ty: "attr_TYPE Username = 6" "attr_TYPE ErrorCodeAttr = 9"
    by (simp_all add: string_attribute_def ErrorCodeAttr_def)
  from string_attr.add_attr_holds [where T = 6, OF builder_holds_new [OF tid, of Success Binding], of username] user ty
  obtain b1 where b1: "add_attr Username username (builder_new Success Binding (TransactionId tid)) = Some b1"
    "builder_holds b1 Success Binding tid [(6, username)]" by auto
  from error_code_attr.add_attr_holds [OF b1(2), of role_conflict] role_conflict_wf ty obtain b2 where
    b2: "add_attr ErrorCodeAttr role_conflict b1 = Some b2"
    "builder_holds b2 Success Binding tid [(6, username), (9, error_code_encode role_conflict)]" by auto
  from role_attr_holds [OF b2(2), of ctl tb] obtain b3 where b3: "role_attr ctl tb b2 = Some b3"
    "builder_holds b3 Success Binding tid ([(6, username), (9, error_code_encode role_conflict)]
        @ [(if ctl then 0x802A else 0x8029, put_u64 tb)])" by blast
  let ?es = "[(6, username), (9, error_code_encode role_conflict), (if ctl then 0x802A else 0x8029, put_u64 tb),
      (0x0020, encode_addr source XOR16 COOKIE (stun_id tid))] :: tlv list"
  from mapped_address_holds [OF b3(2) src] obtain b4 where
    b4: "add_attr XorMappedAddress source b3 = Some b4" "builder_holds b4 Success Binding tid ?es" by auto
  have "length (tlvs_bytes ?es) + 32 < 65536"
    using length_mapped_tlv [of "0x0020" source XOR16 COOKIE "stun_id tid"] user(2)
      padding_usize_less [of "length username"]
    by (simp add: length_tlv_bytes length_error_code_encode role_conflict_wf padding_usize_def)
  moreover have "\<forall>e\<in>set ?es. fst e \<notin> sealing_types" by (simp del: to_be.simps)
  ultimately show ?thesis using b1(1) b2(1) b3(1) b4 by blast
qed

text \<open>
  The response to a role conflict has no effect at the agent it is meant for: it is sent
  with the class of a success response, so it is not treated as an error, and it is sealed
  with the receiver's own password, so the receiver's integrity check, which uses the
  sender's password for responses, rejects it.\<close>

theorem role_error_rejected:
  assumes tid: "length tid = 12" and hmac: "\<And>d. length (hmac (pwd rc) d) = 20"
    and user: "utf8_valid (ufrag lc @ [0x3A] @ ufrag rc)" "length (ufrag lc) + length (ufrag rc) < 64000"
    and src: "addr_wf source" and keys: "\<And>d. hmac (pwd rc) d \<noteq> hmac (pwd lc) d"
  shows "\<exists>bs msg. make_role_error hmac (TransactionId tid) lc rc source ctl tb = Some bs
    \<and> message_parse bs = Inr msg \<and> msg_transaction_id msg = TransactionId tid
    \<and> msg_class msg = Success \<and> verify_integrity hmac rc lc msg = (False, msg)"
proof -
  let ?u = "ufrag lc @ [0x3A] @ ufrag rc"
  have len: "length ?u < 65000" using user(2) by simp
  from role_error_builder [OF tid user(1) len src, of ctl tb] obtain b1 b2 b3 b4 es where
    b: "add_attr Username ?u (builder_new Success Binding (TransactionId tid)) = Some b1"
    "add_attr ErrorCodeAttr role_conflict b1 = Some b2" "role_attr ctl tb b2 = Some b3"
    "add_attr XorMappedAddress source b3 = Some b4"
    and holds: "builder_holds b4 Success Binding tid es" "\<forall>e\<in>set es. fst e \<notin> sealing_types"
      "length (tlvs_bytes es) + 32 < 65536" by blast
  from sealed_and_parsed [where hmac = hmac and key = "pwd rc", OF holds(1) hmac holds(2,3)] obtain c1 c2 bs msg where
    fin: "add_attr_with (MessageIntegrity hmac) () (pwd rc) b4 = Some c1" "add_attr Fingerprint () c1 = Some c2"
      "builder_finish c2 = Some bs" "message_parse bs = Inr msg"
    and msg: "msg_class msg = Success" "msg_transaction_id msg = TransactionId tid"
    and seal: "attribute_with (MessageIntegrity hmac) (pwd rc) msg = (Some (Inr ()), msg)" by blast
  have made: "make_role_error hmac (TransactionId tid) lc rc source ctl tb = Some bs"
    using b fin by (simp add: make_role_error_def Let_def)
  from seal obtain sp where sp: "find_attribute False TYPE_MessageIntegrity (msg_attributes msg) = Some sp"
    by (cases "find_attribute False TYPE_MessageIntegrity (msg_attributes msg)") (auto simp: attribute_with_def)
  from mi.accepts_iff [OF fin(4), of hmac sp "pwd rc"] mi.accepts_iff [OF fin(4), of hmac sp "pwd lc"] sp seal keys
  obtain r where r: "attribute_with (MessageIntegrity hmac) (pwd lc) msg = (Some r, msg)" "r \<noteq> Inr ()"
    by (metis Pair_inject option.inject sealing_attr_TYPE(1))
  then have "verify_integrity hmac rc lc msg = (False, msg)"
    using msg by (cases r) (simp_all add: verify_integrity_def is_some_ok_def)
  with made fin msg show ?thesis by blast
qed

theorem role_error_rejected_witness:
  "\<exists>bs msg. make_role_error (\<lambda>k d. take 20 (k @ replicate 20 0)) (TransactionId (replicate 12 1))
      \<lparr>ufrag = [97], pwd = [98]\<rparr> \<lparr>ufrag = [99], pwd = [100]\<rparr> (SockV4 1 2) True 5 = Some bs
    \<and> message_parse bs = Inr msg
    \<and> verify_integrity (\<lambda>k d. take 20 (k @ replicate 20 0)) \<lparr>ufrag = [99], pwd = [100]\<rparr>
        \<lparr>ufrag = [97], pwd = [98]\<rparr> msg = (False, msg)"
  using role_error_rejected [of "replicate 12 1" "\<lambda>k d. take 20 (k @ replicate 20 0)"
      "\<lparr>ufrag = [99], pwd = [100]\<rparr>" "\<lparr>ufrag = [97], pwd = [98]\<rparr>" "SockV4 1 2" True 5]
  by fastforce

end
