(* ===== verification/Ice_Agent.thy ===== *)
theory Ice_Agent
  imports Ice_Stun
begin

text \<open>
  The ICE agent (\<^verbatim>\<open>media/ice/src/lib.rs\<close>): candidates, candidate pairs, connectivity
  checks, nomination and the states reported to the application. The agent is a record and
  each method maps it to the agent after the call; \<open>None\<close> is a panic, which indexing a map
  with a missing key, \<^verbatim>\<open>unwrap\<close> and \<^verbatim>\<open>expect\<close> cause. Log output is not modelled.

  Code outside the repository is collected in the record \<open>IceEnv\<close>: HMAC-SHA1, the hash
  behind the foundation of a candidate, the insertion into a slot map and the unstable sort
  of the pair list. A slot map is the list of its keys and values in iteration order. The
  state the standard library does not fix is left open by the laws in \<open>env_ok\<close>.
\<close>

section \<open>State\<close>

type_synonym LocalCandidateId = nat
type_synonym RemoteCandidateId = nat
type_synonym slotmap = "(nat \<times> Candidate) list"

datatype CandidatePairState =
    Pair_Waiting
  | Pair_InProgress TransactionId bytes instant u32 IpAddr SocketAddr
  | Pair_Succeeded
  | Pair_Failed

record CandidatePair =
  cp_local :: LocalCandidateId
  cp_remote :: RemoteCandidateId
  cp_priority :: u64
  cp_state :: CandidatePairState
  cp_component :: Component
  cp_received_use_candidate :: bool
  cp_nominated :: bool

record 'd ReceivedPkt =
  pkt_data :: 'd
  pkt_source :: SocketAddr
  pkt_destination :: SocketAddr
  pkt_component :: Component

record IceAgent =
  stun_config :: StunConfig
  stun_server :: "StunServerBinding list"
  local_credentials :: IceCredentials
  remote_credentials :: "IceCredentials option"
  local_candidates :: slotmap
  remote_candidates :: slotmap
  pairs :: "CandidatePair list"
  triggered_check_queue :: "(LocalCandidateId \<times> RemoteCandidateId) list"
  rtcp_mux :: bool
  is_controlling :: bool
  control_tie_breaker :: u64
  max_pairs :: nat
  gathering_state :: IceGatheringState
  connection_state :: IceConnectionState
  last_ta_trigger :: "instant option"
  backlog :: "Message ReceivedPkt list"
  events :: "IceEvent list"

record IceEnv =
  env_hmac :: "bytes \<Rightarrow> bytes \<Rightarrow> bytes"
  env_foundation :: "CandidateKind \<Rightarrow> IpAddr \<Rightarrow> IpAddr option \<Rightarrow> bytes \<Rightarrow> bytes"
  env_slot_insert :: "slotmap \<Rightarrow> Candidate \<Rightarrow> nat \<times> slotmap"
  env_sort :: "CandidatePair list \<Rightarrow> CandidatePair list"

abbreviation ids :: "CandidatePair \<Rightarrow> nat \<times> nat" where
  "ids p \<equiv> (cp_local p, cp_remote p)"

definition env_ok :: "IceEnv \<Rightarrow> bool" where
  "env_ok env \<longleftrightarrow>
     (\<forall>ps. mset (env_sort env ps) = mset ps \<and> sorted (map cp_priority (env_sort env ps)))
     \<and> (\<forall>m c. fst (env_slot_insert env m c) \<notin> fst ` set m
          \<and> mset (snd (env_slot_insert env m c)) = add_mset (fst (env_slot_insert env m c), c) (mset m))"

definition new_from_answer ::
    "IceCredentials \<Rightarrow> IceCredentials \<Rightarrow> bool \<Rightarrow> bool \<Rightarrow> u64 \<Rightarrow> IceAgent" where
  "new_from_answer lc rc controlling mux random =
     \<lparr>stun_config = stun_config_new, stun_server = [], local_credentials = lc,
      remote_credentials = Some rc, local_candidates = [], remote_candidates = [], pairs = [],
      triggered_check_queue = [], rtcp_mux = mux, is_controlling = controlling,
      control_tie_breaker = random, max_pairs = 100, gathering_state = Gathering_New,
      connection_state = Connection_New, last_ta_trigger = None, backlog = [], events = []\<rparr>"

definition new_for_offer :: "IceCredentials \<Rightarrow> bool \<Rightarrow> bool \<Rightarrow> u64 \<Rightarrow> IceAgent" where
  "new_for_offer lc controlling mux random =
     \<lparr>stun_config = stun_config_new, stun_server = [], local_credentials = lc,
      remote_credentials = None, local_candidates = [], remote_candidates = [], pairs = [],
      triggered_check_queue = [], rtcp_mux = mux, is_controlling = controlling,
      control_tie_breaker = random, max_pairs = 100, gathering_state = Gathering_New,
      connection_state = Connection_New, last_ta_trigger = None, backlog = [], events = []\<rparr>"

definition push_event :: "IceEvent \<Rightarrow> IceAgent \<Rightarrow> IceAgent" where
  "push_event e self = self\<lparr>events := events self @ [e]\<rparr>"

section \<open>Candidate pairs\<close>

definition pair_priority :: "Candidate \<Rightarrow> Candidate \<Rightarrow> bool \<Rightarrow> u64" where
  "pair_priority local_candidate remote_candidate controlling =
     (let (g, d) = (if controlling
            then (ucast (cand_priority local_candidate), ucast (cand_priority remote_candidate))
            else (ucast (cand_priority remote_candidate), ucast (cand_priority local_candidate))) :: u64 \<times> u64
      in 2 ^ 32 * min g d + 2 * max g d + (if d < g then 1 else 0))"

definition add_candidate_pair ::
    "IceEnv \<Rightarrow> nat \<Rightarrow> Candidate \<Rightarrow> nat \<Rightarrow> Candidate \<Rightarrow> bool \<Rightarrow> bool
     \<Rightarrow> CandidatePair list \<Rightarrow> CandidatePair list" where
  "add_candidate_pair env local_id local_candidate remote_id remote_candidate controlling
     received_use_candidate ps =
     (if \<exists>p\<in>set ps. cp_local p = local_id \<and> cp_remote p = remote_id then ps
      else env_sort env (ps @
        [\<lparr>cp_local = local_id, cp_remote = remote_id,
          cp_priority = pair_priority local_candidate remote_candidate controlling,
          cp_state = Pair_Waiting, cp_component = cand_component local_candidate,
          cp_received_use_candidate = received_use_candidate, cp_nominated = False\<rparr>]))"

text \<open>\<^verbatim>\<open>Ipv4Addr::is_link_local\<close> (169.254.0.0/16) and \<^verbatim>\<open>Ipv6Addr::is_unicast_link_local\<close> (fe80::/10).\<close>

definition v4_link_local :: "u32 \<Rightarrow> bool" where
  "v4_link_local ip \<longleftrightarrow> drop_bit 16 ip = 0xA9FE"

definition v6_link_local :: "u128 \<Rightarrow> bool" where
  "v6_link_local ip \<longleftrightarrow> drop_bit 118 ip = 0x3FA"

fun pairable_ips :: "IpAddr \<Rightarrow> IpAddr \<Rightarrow> bool" where
  "pairable_ips (IpV4 l) (IpV4 r) = (v4_link_local l = v4_link_local r)"
| "pairable_ips (IpV6 l) (IpV6 r) = (v6_link_local l = v6_link_local r)"
| "pairable_ips _ _ = False"

text \<open>The body of the two nested loops.\<close>

definition form_pair ::
    "IceEnv \<Rightarrow> bool \<Rightarrow> (nat \<times> Candidate) \<times> (nat \<times> Candidate) \<Rightarrow> CandidatePair list \<Rightarrow> CandidatePair list" where
  "form_pair env controlling lr ps =
     (case lr of ((local_id, local_candidate), (remote_id, remote_candidate)) \<Rightarrow>
        if cand_kind remote_candidate = PeerReflexive then ps
        else if cand_component local_candidate \<noteq> cand_component remote_candidate then ps
        else if \<exists>p\<in>set ps. cp_local p = local_id \<and> cp_remote p = remote_id then ps
        else if \<not> pairable_ips (sock_ip (cand_addr local_candidate)) (sock_ip (cand_addr remote_candidate)) then ps
        else add_candidate_pair env local_id local_candidate remote_id remote_candidate controlling False ps)"

function prune_loop :: "nat \<Rightarrow> CandidatePair list \<Rightarrow> CandidatePair list" where
  "prune_loop n ps = (if n < length ps then prune_loop n (butlast ps) else ps)"
  by pat_completeness auto
termination
  by (relation "measure (\<lambda>(n, ps). length ps)") auto

declare prune_loop.simps [simp del]

definition prune_pairs :: "IceAgent \<Rightarrow> IceAgent" where
  "prune_pairs self = self\<lparr>pairs := prune_loop (max_pairs self) (pairs self)\<rparr>"

definition form_pairs :: "IceEnv \<Rightarrow> IceAgent \<Rightarrow> IceAgent" where
  "form_pairs env self =
     (let ps = fold (form_pair env (is_controlling self))
                 (List.product (local_candidates self) (remote_candidates self)) (pairs self)
      in prune_pairs (self\<lparr>pairs := env_sort env ps\<rparr>))"

definition recompute_pair_priority :: "IceAgent \<Rightarrow> CandidatePair \<Rightarrow> CandidatePair panics" where
  "recompute_pair_priority self pair =
     do {
       l \<leftarrow> map_of (local_candidates self) (cp_local pair);
       r \<leftarrow> map_of (remote_candidates self) (cp_remote pair);
       Some (pair\<lparr>cp_priority := pair_priority l r (is_controlling self)\<rparr>)
     }"

definition recompute_pair_priorities :: "IceEnv \<Rightarrow> IceAgent \<Rightarrow> IceAgent panics" where
  "recompute_pair_priorities env self =
     do {
       ps \<leftarrow> those (map (recompute_pair_priority self) (pairs self));
       Some (self\<lparr>pairs := env_sort env ps\<rparr>)
     }"

section \<open>Candidates\<close>

primrec local_preference_offset :: "CandidateKind \<Rightarrow> u32" where
  "local_preference_offset Host = (65535 div 4) * 3"
| "local_preference_offset PeerReflexive = (65535 div 4) * 2"
| "local_preference_offset ServerReflexive = 65535 div 4"

definition local_candidate_priority :: "slotmap \<Rightarrow> CandidateKind \<Rightarrow> Component \<Rightarrow> u32" where
  "local_candidate_priority m kind component =
     (let local_preference = of_nat (length (filter (\<lambda>e. cand_kind (snd e) = kind) m))
            + local_preference_offset kind
      in push_bit 24 (kind_preference kind) + push_bit 8 local_preference + (256 - component_id component))"

definition add_local_candidate ::
    "IceEnv \<Rightarrow> IceAgent \<Rightarrow> Component \<Rightarrow> CandidateKind \<Rightarrow> SocketAddr \<Rightarrow> SocketAddr \<Rightarrow> IceAgent" where
  "add_local_candidate env self component kind base addr =
     (if \<exists>e\<in>set (local_candidates self). cand_kind (snd e) = kind \<and> cand_base (snd e) = base
            \<and> cand_addr (snd e) = addr
      then self
      else form_pairs env (self\<lparr>local_candidates := snd (env_slot_insert env (local_candidates self)
             \<lparr>cand_addr = addr, cand_kind = kind,
              cand_priority = local_candidate_priority (local_candidates self) kind component,
              cand_foundation = env_foundation env kind (sock_ip base) None (ascii ''udp''),
              cand_component = component, cand_base = base\<rparr>)\<rparr>))"

text \<open>
  \<^verbatim>\<open>is_loopback\<close>, \<^verbatim>\<open>is_unspecified\<close>, and an IPv6 address that \<^verbatim>\<open>to_ipv4\<close> (::/96 or
  ::ffff:0:0/96) or \<^verbatim>\<open>to_ipv4_mapped\<close> converts.
\<close>

fun ignored_host_ip :: "IpAddr \<Rightarrow> bool" where
  "ignored_host_ip (IpV4 ip) = (drop_bit 24 ip = 127 \<or> ip = 0)"
| "ignored_host_ip (IpV6 ip) = (ip = 1 \<or> ip = 0 \<or> drop_bit 32 ip = 0 \<or> drop_bit 32 ip = 0xFFFF)"

definition add_host_addr :: "IceEnv \<Rightarrow> IceAgent \<Rightarrow> Component \<Rightarrow> SocketAddr \<Rightarrow> IceAgent" where
  "add_host_addr env self component addr =
     (if ignored_host_ip (sock_ip addr) then self
      else add_local_candidate env self component Host addr addr)"

definition add_stun_server :: "IceAgent \<Rightarrow> SocketAddr \<Rightarrow> IceAgent" where
  "add_stun_server self server =
     self\<lparr>stun_server := stun_server self @ [binding_new server Rtp]
            @ (if rtcp_mux self then [] else [binding_new server Rtcp])\<rparr>"

text \<open>The candidate line of the signalling protocol (\<^verbatim>\<open>media/sdp-types/src/attributes/candidate.rs\<close>).\<close>

datatype UntaggedAddress = Fqdn bytes | IpAddress IpAddr

record IceCandidate =
  ic_foundation :: bytes
  ic_component :: u32
  ic_transport :: bytes
  ic_priority :: u64
  ic_address :: UntaggedAddress
  ic_port :: u16
  ic_typ :: bytes
  ic_rel_addr :: "UntaggedAddress option"
  ic_rel_port :: "u16 option"
  ic_unknown :: "(bytes \<times> bytes) list"

definition ascii_lower :: "u8 \<Rightarrow> u8" where
  "ascii_lower b = (if 65 \<le> b \<and> b \<le> 90 then b + 32 else b)"

definition add_remote_candidate :: "IceEnv \<Rightarrow> IceAgent \<Rightarrow> IceCandidate \<Rightarrow> IceAgent panics" where
  "add_remote_candidate env self candidate =
     (let kind = (if ic_typ candidate = ascii ''host'' then Some Host
                  else if ic_typ candidate = ascii ''srflx'' then Some ServerReflexive else None);
          component = (if ic_component candidate = 1 then Some Rtp
                       else if ic_component candidate = 2 \<and> \<not> rtcp_mux self then Some Rtcp else None)
      in case (kind, component, ic_address candidate) of
           (Some kind, Some component, IpAddress ip) \<Rightarrow>
             if map ascii_lower (ic_transport candidate) \<noteq> ascii ''udp'' then Some self
             else if 2 ^ 32 \<le> unat (ic_priority candidate) then None
             else Some (form_pairs env (self\<lparr>remote_candidates := snd (env_slot_insert env (remote_candidates self)
                    \<lparr>cand_addr = sock_new ip (ic_port candidate), cand_kind = kind,
                     cand_priority = ucast (ic_priority candidate), cand_foundation = ic_foundation candidate,
                     cand_component = component, cand_base = sock_new ip (ic_port candidate)\<rparr>)\<rparr>))
         | _ \<Rightarrow> Some self)"

section \<open>Nomination\<close>

text \<open>
  The position of the element \<^verbatim>\<open>filter(P).max_by_key(key)\<close> returns: the last one of the
  largest key.
\<close>

fun max_by_key_from :: "nat \<Rightarrow> ('a \<Rightarrow> bool) \<Rightarrow> ('a \<Rightarrow> 'k::linorder) \<Rightarrow> 'a list \<Rightarrow> (nat \<times> 'a) option" where
  "max_by_key_from i P key [] = None"
| "max_by_key_from i P key (x # xs) =
     (let rest = max_by_key_from (Suc i) P key xs in
      if \<not> P x then rest
      else case rest of None \<Rightarrow> Some (i, x)
           | Some (j, y) \<Rightarrow> if key x \<le> key y then Some (j, y) else Some (i, x))"

abbreviation max_by_key :: "('a \<Rightarrow> bool) \<Rightarrow> ('a \<Rightarrow> 'k::linorder) \<Rightarrow> 'a list \<Rightarrow> (nat \<times> 'a) option" where
  "max_by_key \<equiv> max_by_key_from 0"

definition poll_nomination_of_component :: "IceAgent \<Rightarrow> Component \<Rightarrow> IceAgent panics" where
  "poll_nomination_of_component self component =
     (if is_controlling self then
        if \<exists>p\<in>set (pairs self). cp_component p = component \<and> cp_nominated p then Some self
        else case max_by_key (\<lambda>p. cp_component p = component \<and> cp_state p = Pair_Succeeded)
                    cp_priority (pairs self) of
          None \<Rightarrow> Some self
        | Some (i, pair) \<Rightarrow>
            Some (self\<lparr>pairs := (pairs self)[i := pair\<lparr>cp_nominated := True\<rparr>],
                       triggered_check_queue := ids pair # triggered_check_queue self\<rparr>)
      else
        if \<exists>p\<in>set (pairs self). cp_nominated p then Some self
        else case max_by_key (\<lambda>p. cp_component p = component \<and> cp_received_use_candidate p
                      \<and> cp_state p = Pair_Succeeded) cp_priority (pairs self) of
          None \<Rightarrow> Some self
        | Some (i, pair) \<Rightarrow>
            do {
              remote \<leftarrow> map_of (remote_candidates self) (cp_remote pair);
              Some (push_event (UseAddr component (cand_addr remote))
                (self\<lparr>pairs := (pairs self)[i := pair\<lparr>cp_nominated := True\<rparr>]\<rparr>))
            })"

definition poll_nomination :: "IceAgent \<Rightarrow> IceAgent panics" where
  "poll_nomination self =
     do {
       self \<leftarrow> poll_nomination_of_component self Rtp;
       if rtcp_mux self then Some self else poll_nomination_of_component self Rtcp
     }"

section \<open>Received messages\<close>

definition pair_awaits :: "TransactionId \<Rightarrow> CandidatePair \<Rightarrow> bool" where
  "pair_awaits tid p =
     (case cp_state p of Pair_InProgress transaction_id _ _ _ _ _ \<Rightarrow> tid = transaction_id | _ \<Rightarrow> False)"

text \<open>The source and target of the check whose answer has come in.\<close>

fun check_is_symmetric :: "CandidatePairState \<Rightarrow> SocketAddr \<Rightarrow> SocketAddr \<Rightarrow> bool" where
  "check_is_symmetric (Pair_InProgress _ _ _ _ source target) pkt_src pkt_dst =
     (pkt_src = target \<or> sock_ip pkt_dst = source)"
| "check_is_symmetric _ _ _ = False"

text \<open>A success response that belongs to a binding with a STUN server.\<close>

fun server_response ::
    "StunServerBinding list \<Rightarrow> StunConfig \<Rightarrow> instant \<Rightarrow> Message
     \<Rightarrow> (StunServerBinding list \<times> (Component \<times> SocketAddr option) option) panics" where
  "server_response [] config now msg = Some ([], None)"
| "server_response (b # bs) config now msg =
     (if \<not> wants_stun_response b (msg_transaction_id msg) then
        do {
          (bs', r) \<leftarrow> server_response bs config now msg;
          Some (b # bs', r)
        }
      else do {
        (b', addr) \<leftarrow> receive_stun_response b config now msg;
        Some (b' # bs, Some (sb_component b, addr))
      })"

text \<open>The part of \<^verbatim>\<open>receive_stun_success\<close> that follows the search for the pair.\<close>

definition pair_succeeded ::
    "IceEnv \<Rightarrow> IceAgent \<Rightarrow> Message ReceivedPkt \<Rightarrow> CandidatePair \<Rightarrow> IceAgent panics" where
  "pair_succeeded env self pkt pair =
     do {
       let awaits = pair_awaits (msg_transaction_id (pkt_data pkt));
       self \<leftarrow>
         (if check_is_symmetric (cp_state pair) (pkt_source pkt) (pkt_destination pkt) then
            do {
              self \<leftarrow>
                (if cp_nominated pair then
                   do {
                     local_candidate \<leftarrow> map_of (local_candidates self) (cp_local pair);
                     remote_candidate \<leftarrow> map_of (remote_candidates self) (cp_remote pair);
                     Some (push_event (UseAddr (cand_component local_candidate) (cand_addr remote_candidate)) self)
                   }
                 else Some self);
              Some (self\<lparr>pairs := update_first awaits (\<lambda>p. p\<lparr>cp_state := Pair_Succeeded\<rparr>) (pairs self)\<rparr>)
            }
          else Some (self\<lparr>pairs := update_first awaits
                 (\<lambda>p. p\<lparr>cp_nominated := False, cp_state := Pair_Failed\<rparr>) (pairs self)\<rparr>));
       (case fst (attribute XorMappedAddress (pkt_data pkt)) of
          Some (Inr mapped_addr) \<Rightarrow>
            do {
              local_candidate \<leftarrow> map_of (local_candidates self) (cp_local pair);
              if mapped_addr \<noteq> cand_addr local_candidate
              then Some (add_local_candidate env self (cp_component pair) PeerReflexive (pkt_destination pkt) mapped_addr)
              else Some self
            }
        | _ \<Rightarrow> Some self)
     }"

definition receive_stun_success ::
    "IceEnv \<Rightarrow> IceAgent \<Rightarrow> instant \<Rightarrow> Message ReceivedPkt \<Rightarrow> IceAgent panics" where
  "receive_stun_success env self now pkt =
     do {
       (bindings, r) \<leftarrow> server_response (stun_server self) (stun_config self) now (pkt_data pkt);
       case r of
         Some (component, addr) \<Rightarrow>
           (let self = self\<lparr>stun_server := bindings\<rparr> in
            case addr of
              None \<Rightarrow> Some self
            | Some addr \<Rightarrow> Some (add_local_candidate env self component ServerReflexive (pkt_destination pkt) addr))
       | None \<Rightarrow>
           (case remote_credentials self of
              None \<Rightarrow> Some (self\<lparr>backlog := backlog self @ [pkt]\<rparr>)
            | Some remote \<Rightarrow>
                (let (ok, msg) = verify_integrity (env_hmac env) (local_credentials self) remote (pkt_data pkt);
                     pkt = pkt\<lparr>pkt_data := msg\<rparr>
                 in if \<not> ok then Some self
                    else case find (pair_awaits (msg_transaction_id msg)) (pairs self) of
                      None \<Rightarrow> Some self
                    | Some pair \<Rightarrow> pair_succeeded env self pkt pair))
     }"

definition receive_stun_error :: "IceEnv \<Rightarrow> IceAgent \<Rightarrow> Message ReceivedPkt \<Rightarrow> IceAgent panics" where
  "receive_stun_error env self pkt =
     (case remote_credentials self of
        None \<Rightarrow> Some (self\<lparr>backlog := backlog self @ [pkt]\<rparr>)
      | Some remote \<Rightarrow>
          (let (ok, msg) = verify_integrity (env_hmac env) (local_credentials self) remote (pkt_data pkt)
           in if \<not> ok then Some self
              else case find (pair_awaits (msg_transaction_id msg)) (pairs self) of
                None \<Rightarrow> Some self
              | Some pair \<Rightarrow>
                  (case fst (attribute ErrorCodeAttr msg) of
                     Some (Inr error_code) \<Rightarrow>
                       if ec_number error_code = 487 then
                         recompute_pair_priorities env
                           (self\<lparr>is_controlling :=
                                   (if fst (attribute IceControlled msg) \<noteq> None then True
                                    else if fst (attribute IceControlling msg) \<noteq> None then False
                                    else is_controlling self),
                                 pairs := update_first (pair_awaits (msg_transaction_id msg))
                                            (\<lambda>p. p\<lparr>cp_state := Pair_Waiting\<rparr>) (pairs self),
                                 triggered_check_queue := triggered_check_queue self @ [ids pair]\<rparr>)
                       else Some self
                   | _ \<Rightarrow> Some self)))"

text \<open>
  The role conflict check of \<^verbatim>\<open>receive_stun_request\<close>: \<open>Inl\<close> the agent when the request has
  been answered, \<open>Inr\<close> the agent to go on with.
\<close>

definition handle_role_conflict ::
    "IceEnv \<Rightarrow> IceAgent \<Rightarrow> IceCredentials \<Rightarrow> Message ReceivedPkt \<Rightarrow> (IceAgent, IceAgent) result panics" where
  "handle_role_conflict env self remote pkt =
     (let msg = pkt_data pkt in
      case fst (if is_controlling self then attribute IceControlling msg else attribute IceControlled msg) of
        Some (Inr peer) \<Rightarrow>
          if peer \<le> control_tie_breaker self then
            do {
              response \<leftarrow> make_role_error (env_hmac env) (msg_transaction_id msg) (local_credentials self) remote
                (pkt_source pkt) (is_controlling self) (control_tie_breaker self);
              Some (Inl (push_event
                (SendData (pkt_component pkt) response (Some (sock_ip (pkt_destination pkt))) (pkt_source pkt)) self))
            }
          else map_option Inr (recompute_pair_priorities env (self\<lparr>is_controlling := \<not> is_controlling self\<rparr>))
      | _ \<Rightarrow> Some (Inr self))"

text \<open>The remote candidate a request comes from, created as peer-reflexive if there is none.\<close>

definition find_or_add_remote ::
    "IceEnv \<Rightarrow> IceAgent \<Rightarrow> nat \<Rightarrow> Candidate \<Rightarrow> u32 \<Rightarrow> Message ReceivedPkt \<Rightarrow> IceAgent \<times> nat" where
  "find_or_add_remote env self local_id local_candidate priority pkt =
     (case find (\<lambda>e. cand_addr (snd e) = pkt_source pkt) (remote_candidates self) of
        Some (remote_id, _) \<Rightarrow> (self, remote_id)
      | None \<Rightarrow>
          let candidate = \<lparr>cand_addr = pkt_source pkt, cand_kind = PeerReflexive, cand_priority = priority,
                cand_foundation = ascii ''~'', cand_component = pkt_component pkt, cand_base = pkt_source pkt\<rparr>;
              (peer_reflexive_id, m) = env_slot_insert env (remote_candidates self) candidate
          in (self\<lparr>remote_candidates := m,
                   pairs := add_candidate_pair env local_id local_candidate peer_reflexive_id candidate
                              (is_controlling self) False (pairs self),
                   triggered_check_queue := triggered_check_queue self @ [(local_id, peer_reflexive_id)]\<rparr>,
              peer_reflexive_id))"

definition answer_request ::
    "IceEnv \<Rightarrow> IceAgent \<Rightarrow> Message ReceivedPkt \<Rightarrow> u32 \<Rightarrow> bool \<Rightarrow> IceAgent panics" where
  "answer_request env self pkt priority use_candidate =
     (case find (\<lambda>e. cand_kind (snd e) = Host \<and> cand_addr (snd e) = pkt_destination pkt) (local_candidates self) of
        None \<Rightarrow> Some self
      | Some (local_id, local_candidate) \<Rightarrow>
          let (self, remote_id) = find_or_add_remote env self local_id local_candidate priority pkt;
              this = (\<lambda>p. cp_local p = local_id \<and> cp_remote p = remote_id)
          in do {
            pair \<leftarrow> find this (pairs self);
            stun_response \<leftarrow> make_success_response (env_hmac env) (msg_transaction_id (pkt_data pkt))
              (local_credentials self) (pkt_source pkt);
            let self = push_event
                  (SendData (cp_component pair) stun_response (Some (sock_ip (cand_base local_candidate))) (pkt_source pkt))
                  (self\<lparr>pairs := update_first this (\<lambda>p. p\<lparr>cp_received_use_candidate := use_candidate\<rparr>) (pairs self)\<rparr>);
            if use_candidate then poll_nomination self else Some self
          })"

definition receive_stun_request :: "IceEnv \<Rightarrow> IceAgent \<Rightarrow> Message ReceivedPkt \<Rightarrow> IceAgent panics" where
  "receive_stun_request env self pkt =
     (case remote_credentials self of
        None \<Rightarrow> Some (self\<lparr>backlog := backlog self @ [pkt]\<rparr>)
      | Some remote \<Rightarrow>
          (let (ok, msg) = verify_integrity (env_hmac env) (local_credentials self) remote (pkt_data pkt);
               pkt = pkt\<lparr>pkt_data := msg\<rparr>
           in if \<not> ok then Some self
              else case fst (attribute Priority msg) of
                Some (Inr priority) \<Rightarrow>
                  do {
                    let use_candidate = (fst (attribute UseCandidate msg) \<noteq> None);
                    r \<leftarrow> handle_role_conflict env self remote pkt;
                    case r of Inl self \<Rightarrow> Some self
                    | Inr self \<Rightarrow> answer_request env self pkt priority use_candidate
                  }
              | _ \<Rightarrow> None))"

definition receive_stun :: "IceEnv \<Rightarrow> IceAgent \<Rightarrow> instant \<Rightarrow> Message ReceivedPkt \<Rightarrow> IceAgent panics" where
  "receive_stun env self now pkt =
     (case msg_class (pkt_data pkt) of
        Request \<Rightarrow> receive_stun_request env self pkt
      | Indication \<Rightarrow> Some self
      | Success \<Rightarrow> receive_stun_success env self now pkt
      | Error \<Rightarrow> receive_stun_error env self pkt)"

definition receive :: "IceEnv \<Rightarrow> IceAgent \<Rightarrow> instant \<Rightarrow> bytes ReceivedPkt \<Rightarrow> IceAgent panics" where
  "receive env self now pkt =
     (case message_parse (pkt_data pkt) of
        Inl _ \<Rightarrow> Some self
      | Inr msg \<Rightarrow>
          (let (r, msg) = attribute Fingerprint msg
           in if \<not> is_some_ok r then Some self
              else receive_stun env self now
                \<lparr>pkt_data = msg, pkt_source = pkt_source pkt, pkt_destination = pkt_destination pkt,
                 pkt_component = pkt_component pkt\<rparr>))"

fun fold_panics :: "('a \<Rightarrow> 's \<Rightarrow> 's panics) \<Rightarrow> 'a list \<Rightarrow> 's \<Rightarrow> 's panics" where
  "fold_panics f [] s = Some s"
| "fold_panics f (x # xs) s = Option.bind (f x s) (fold_panics f xs)"

definition set_remote_data ::
    "IceEnv \<Rightarrow> IceAgent \<Rightarrow> instant \<Rightarrow> IceCredentials \<Rightarrow> IceCandidate list \<Rightarrow> bool \<Rightarrow> IceAgent panics" where
  "set_remote_data env self now credentials candidates mux =
     do {
       let self = self\<lparr>rtcp_mux := mux\<rparr>;
       let self = (if mux
         then self\<lparr>stun_server := filter (\<lambda>s. sb_component s = Rtp) (stun_server self),
                   local_candidates := filter (\<lambda>e. cand_component (snd e) = Rtp) (local_candidates self)\<rparr>
         else self);
       let self = self\<lparr>remote_credentials := Some credentials\<rparr>;
       self \<leftarrow> fold_panics (\<lambda>c self. add_remote_candidate env self c) candidates self;
       fold_panics (\<lambda>pkt self. receive_stun env self now pkt) (backlog self) (self\<lparr>backlog := []\<rparr>)
     }"

section \<open>Polling\<close>

text \<open>
  The bindings are polled in order; the \<open>i\<close>-th of them draws \<open>random i\<close> if it starts a
  request.
\<close>

fun poll_bindings ::
    "StunServerBinding list \<Rightarrow> nat \<Rightarrow> instant \<Rightarrow> StunConfig \<Rightarrow> (nat \<Rightarrow> TransactionId)
     \<Rightarrow> (StunServerBinding list \<times> IceEvent list) panics" where
  "poll_bindings [] i now config random = Some ([], [])"
| "poll_bindings (b # bs) i now config random =
     do {
       (b, ev) \<leftarrow> binding_poll b now config (random i);
       (bs, evs) \<leftarrow> poll_bindings bs (Suc i) now config random;
       Some (b # bs, ev @ evs)
     }"

definition retransmit_pair ::
    "StunConfig \<Rightarrow> instant \<Rightarrow> CandidatePair \<Rightarrow> (CandidatePair \<times> IceEvent list) panics" where
  "retransmit_pair config now pair =
     (case cp_state pair of
        Pair_InProgress transaction_id stun_request retransmit_at retransmits source target \<Rightarrow>
          if now < retransmit_at then Some (pair, [])
          else if max_retransmits config \<le> retransmits then Some (pair\<lparr>cp_state := Pair_Failed\<rparr>, [])
          else do {
            delta \<leftarrow> retransmit_delta config (retransmits + 1);
            Some (pair\<lparr>cp_state := Pair_InProgress transaction_id stun_request (retransmit_at + delta)
                         (retransmits + 1) source target\<rparr>,
                  [SendData (cp_component pair) stun_request (Some source) target])
          }
      | _ \<Rightarrow> Some (pair, []))"

definition poll_retransmit :: "IceAgent \<Rightarrow> instant \<Rightarrow> IceAgent panics" where
  "poll_retransmit self now =
     do {
       rs \<leftarrow> those (map (retransmit_pair (stun_config self) now) (pairs self));
       Some (self\<lparr>pairs := map fst rs, events := events self @ concat (map snd rs)\<rparr>)
     }"

definition set_connection_state :: "IceAgent \<Rightarrow> IceConnectionState \<Rightarrow> IceAgent" where
  "set_connection_state self new =
     (if connection_state self \<noteq> new
      then (push_event (ConnectionStateChanged (connection_state self) new) self)\<lparr>connection_state := new\<rparr>
      else self)"

definition set_gathering_state :: "IceAgent \<Rightarrow> IceGatheringState \<Rightarrow> IceAgent" where
  "set_gathering_state self new =
     (push_event (GatheringStateChanged (gathering_state self) new) self)\<lparr>gathering_state := new\<rparr>"

definition pair_in_progress :: "CandidatePair \<Rightarrow> bool" where
  "pair_in_progress p =
     (case cp_state p of Pair_Waiting \<Rightarrow> True | Pair_InProgress _ _ _ _ _ _ \<Rightarrow> True | _ \<Rightarrow> False)"

definition has_nomination :: "Component \<Rightarrow> IceAgent \<Rightarrow> bool" where
  "has_nomination component self \<longleftrightarrow>
     (\<exists>p\<in>set (pairs self). cp_nominated p \<and> cp_state p = Pair_Succeeded \<and> cp_component p = component)"

definition in_progress :: "Component \<Rightarrow> IceAgent \<Rightarrow> bool" where
  "in_progress component self \<longleftrightarrow>
     (\<exists>p\<in>set (pairs self). pair_in_progress p \<and> cp_component p = component)"

definition poll_state :: "IceAgent \<Rightarrow> IceAgent" where
  "poll_state self =
     (let all_completed = (\<forall>b\<in>set (stun_server self). is_completed b);
          self = (if all_completed \<and> gathering_state self \<noteq> Gathering_Complete
                  then set_gathering_state self Gathering_Complete
                  else if \<not> all_completed \<and> gathering_state self \<noteq> Gathering_Gathering
                  then set_gathering_state self Gathering_Gathering
                  else self);
          has_nomination_for_all_components =
            (if rtcp_mux self then has_nomination Rtp self
             else has_nomination Rtp self \<and> has_nomination Rtcp self);
          still_possible =
            (if rtcp_mux self then in_progress Rtp self
             else in_progress Rtp self \<and> in_progress Rtcp self)
      in if has_nomination_for_all_components \<and> connection_state self \<noteq> Connection_Connected
         then set_connection_state self Connection_Connected
         else if \<not> has_nomination_for_all_components then
           if still_possible then
             (case connection_state self of
                Connection_New \<Rightarrow> set_connection_state self Connection_Checking
              | Connection_Checking \<Rightarrow> self
              | Connection_Connected \<Rightarrow> set_connection_state self Connection_Disconnected
              | Connection_Failed \<Rightarrow> self
              | Connection_Disconnected \<Rightarrow> self)
           else set_connection_state self Connection_Failed
         else self)"

text \<open>The position of the pair the next check is made on, and the remaining triggered checks.\<close>

fun find_index :: "('a \<Rightarrow> bool) \<Rightarrow> 'a list \<Rightarrow> nat option" where
  "find_index P [] = None"
| "find_index P (x # xs) = (if P x then Some 0 else map_option Suc (find_index P xs))"

definition next_check :: "IceAgent \<Rightarrow> nat option \<times> (nat \<times> nat) list" where
  "next_check self =
     (let (triggered, queue) =
            (case triggered_check_queue self of
               [] \<Rightarrow> (None, [])
             | (local_id, remote_id) # rest \<Rightarrow>
                 (find_index (\<lambda>p. cp_local p = local_id \<and> cp_remote p = remote_id) (pairs self), rest))
      in (case triggered of
            Some i \<Rightarrow> Some i
          | None \<Rightarrow> find_index (\<lambda>p. cp_state p = Pair_Waiting) (pairs self), queue))"

definition start_check ::
    "IceEnv \<Rightarrow> IceAgent \<Rightarrow> IceCredentials \<Rightarrow> instant \<Rightarrow> TransactionId \<Rightarrow> nat \<Rightarrow> IceAgent panics" where
  "start_check env self remote now transaction_id i =
     do {
       let pair = pairs self ! i;
       local_candidate \<leftarrow> map_of (local_candidates self) (cp_local pair);
       stun_request \<leftarrow> make_binding_request (env_hmac env) transaction_id (local_credentials self) remote
         local_candidate (is_controlling self) (control_tie_breaker self) (cp_nominated pair);
       let source = sock_ip (cand_base local_candidate);
       remote_candidate \<leftarrow> map_of (remote_candidates self) (cp_remote pair);
       let target = cand_addr remote_candidate;
       delta \<leftarrow> retransmit_delta (stun_config self) 0;
       Some (push_event (SendData (cp_component pair) stun_request (Some source) target)
         (self\<lparr>pairs := (pairs self)[i := pair\<lparr>cp_state :=
            Pair_InProgress transaction_id stun_request (now + delta) 0 source target\<rparr>]\<rparr>))
     }"

text \<open>The part of a poll after nomination, which starts at most one new check.\<close>

definition poll_check ::
    "IceEnv \<Rightarrow> IceAgent \<Rightarrow> instant \<Rightarrow> TransactionId \<Rightarrow> IceAgent panics" where
  "poll_check env self now transaction_id =
     (case remote_credentials self of
         None \<Rightarrow> Some self
       | Some remote \<Rightarrow>
           if (case last_ta_trigger self of None \<Rightarrow> False | Some it \<Rightarrow> now < it + from_millis 50) then Some self
           else
             (let self = self\<lparr>last_ta_trigger := Some now\<rparr>;
                  (check, queue) = next_check self;
                  self = self\<lparr>triggered_check_queue := queue\<rparr>
              in case check of
                   None \<Rightarrow> Some self
                 | Some i \<Rightarrow> start_check env self remote now transaction_id i))"

definition poll :: "IceEnv \<Rightarrow> IceAgent \<Rightarrow> instant \<Rightarrow> (nat \<Rightarrow> TransactionId) \<Rightarrow> IceAgent panics" where
  "poll env self now random =
     do {
       (bindings, evs) \<leftarrow> poll_bindings (stun_server self) 0 now (stun_config self) random;
       self \<leftarrow> poll_retransmit (self\<lparr>stun_server := bindings, events := events self @ evs\<rparr>) now;
       self \<leftarrow> poll_nomination (poll_state self);
       poll_check env self now (random (length (stun_server self)))
     }"

section \<open>Queries\<close>

definition pop_event :: "IceAgent \<Rightarrow> IceEvent option \<times> IceAgent" where
  "pop_event self =
     (case events self of [] \<Rightarrow> (None, self) | e # es \<Rightarrow> (Some e, self\<lparr>events := es\<rparr>))"

fun opt_min :: "'a::linorder option \<Rightarrow> 'a option \<Rightarrow> 'a option" where
  "opt_min None None = None"
| "opt_min None (Some b) = Some b"
| "opt_min (Some a) None = Some a"
| "opt_min (Some a) (Some b) = Some (min a b)"

definition agent_timeout :: "IceAgent \<Rightarrow> instant \<Rightarrow> duration option" where
  "agent_timeout self now =
     (let ta = (case last_ta_trigger self of None \<Rightarrow> 0 | Some it \<Rightarrow> (it + from_millis 50) - now);
          stun_bindings = fold opt_min (map (\<lambda>b. binding_timeout b now) (stun_server self)) None
      in opt_min (Some ta) stun_bindings)"

definition candidate_line :: "Candidate \<Rightarrow> IceCandidate" where
  "candidate_line c =
     (let rel_addr = (if cand_kind c = ServerReflexive then Some (cand_base c) else None) in
      \<lparr>ic_foundation = cand_foundation c, ic_component = component_id (cand_component c),
       ic_transport = ascii ''UDP'', ic_priority = ucast (cand_priority c),
       ic_address = IpAddress (sock_ip (cand_addr c)), ic_port = sock_port (cand_addr c),
       ic_typ = (if cand_kind c = Host then ascii ''host'' else ascii ''srflx''),
       ic_rel_addr = map_option (\<lambda>a. IpAddress (sock_ip a)) rel_addr,
       ic_rel_port = map_option sock_port rel_addr, ic_unknown = []\<rparr>)"

definition ice_candidates :: "IceAgent \<Rightarrow> IceCandidate list" where
  "ice_candidates self =
     map candidate_line (filter (\<lambda>c. cand_kind c = Host \<or> cand_kind c = ServerReflexive)
       (map snd (local_candidates self)))"

end
