(* ===== verification/Ice_Safety.thy ===== *)
theory Ice_Safety
  imports Ice_Agent
begin

text \<open>
  Properties of the ICE agent. A relation between the agent before and after a call that is
  reflexive and transitive holds for every sequence of calls; \<open>keeps\<close> is such a relation: the
  pair list stays well-formed and the events added to the queue account for the changes of
  the reported states. It is proved operation by operation and gives, by rule induction, an
  invariant of every reachable agent.
\<close>

section \<open>The pair list\<close>

abbreviation nominated_of :: "Component \<Rightarrow> CandidatePair list \<Rightarrow> CandidatePair list" where
  "nominated_of c ps \<equiv> filter (\<lambda>p. cp_nominated p \<and> cp_component p = c) ps"

text \<open>No two pairs of the same candidates, and at most one nominated pair per component.\<close>

definition pairs_unique :: "CandidatePair list \<Rightarrow> bool" where
  "pairs_unique ps \<longleftrightarrow> distinct (map ids ps) \<and> (\<forall>c. length (nominated_of c ps) \<le> 1)"

definition pairs_inv :: "CandidatePair list \<Rightarrow> bool" where
  "pairs_inv ps \<longleftrightarrow> pairs_unique ps \<and> sorted (map cp_priority ps)"

definition pair_view :: "CandidatePair \<Rightarrow> (nat \<times> nat) \<times> u64 \<times> Component \<times> bool" where
  "pair_view p = (ids p, cp_priority p, cp_component p, cp_nominated p)"

lemma length_filter_map: "length (filter P (map f xs)) = length (filter (P \<circ> f) xs)"
  by (simp add: filter_map)

lemma pairs_unique_mset: "mset ps = mset ps' \<Longrightarrow> pairs_unique ps = pairs_unique ps'"
  unfolding pairs_unique_def
  by (metis (no_types, lifting) mset_eq_imp_distinct_iff mset_filter mset_map size_mset)

lemma pairs_unique_view:
  assumes "map (\<lambda>p. (ids p, cp_component p, cp_nominated p)) ps = map (\<lambda>p. (ids p, cp_component p, cp_nominated p)) ps'"
  shows "pairs_unique ps = pairs_unique ps'"
proof -
  let ?v = "\<lambda>p. (ids p, cp_component p, cp_nominated p)"
  have "map ids qs = map fst (map ?v qs)" for qs by simp
  moreover have "length (nominated_of c qs) = length (filter (\<lambda>(_, c', n). n \<and> c' = c) (map ?v qs))" for c qs
    by (simp add: length_filter_map comp_def)
  ultimately show ?thesis unfolding pairs_unique_def using assms by (metis (no_types, lifting))
qed

lemma pairs_inv_view:
  assumes "map pair_view ps = map pair_view ps'" "pairs_inv ps'"
  shows "pairs_inv ps"
proof -
  have "pairs_unique ps = pairs_unique ps'"
    using arg_cong [OF assms(1), of "map (\<lambda>(i, _, c, n). (i, c, n))"]
    by (intro pairs_unique_view) (simp add: pair_view_def comp_def)
  moreover have "map cp_priority ps = map cp_priority ps'"
    using arg_cong [OF assms(1), of "map (\<lambda>(_, pr, _, _). pr)"] by (simp add: pair_view_def comp_def)
  ultimately show ?thesis using assms(2) by (simp add: pairs_inv_def)
qed

lemma pairs_inv_sort: "env_ok env \<Longrightarrow> pairs_unique ps \<Longrightarrow> pairs_inv (env_sort env ps)"
  using pairs_unique_mset [of "env_sort env ps" ps] by (simp add: env_ok_def pairs_inv_def)

lemma add_candidate_pair_unique:
  assumes "env_ok env" "pairs_unique ps"
  shows "pairs_unique (add_candidate_pair env l lc r rc ctl use ps)"
proof (cases "\<exists>p\<in>set ps. cp_local p = l \<and> cp_remote p = r")
  case True
  with assms show ?thesis by (simp add: add_candidate_pair_def)
next
  case False
  then have "(l, r) \<notin> set (map ids ps)" by auto
  with assms(2) have "pairs_unique (ps @ [\<lparr>cp_local = l, cp_remote = r, cp_priority = pair_priority lc rc ctl,
      cp_state = Pair_Waiting, cp_component = cand_component lc, cp_received_use_candidate = use,
      cp_nominated = False\<rparr>])"
    by (simp add: pairs_unique_def)
  with False assms(1) show ?thesis
    using pairs_inv_sort [of env] by (auto simp: add_candidate_pair_def pairs_inv_def)
qed

lemma add_candidate_pair_inv:
  assumes "env_ok env" "pairs_inv ps"
  shows "pairs_inv (add_candidate_pair env l lc r rc ctl use ps)"
  using add_candidate_pair_unique [OF assms(1), of ps l lc r rc ctl use] assms
  by (auto simp: pairs_inv_def add_candidate_pair_def env_ok_def)

lemma form_pair_unique: "env_ok env \<Longrightarrow> pairs_unique ps \<Longrightarrow> pairs_unique (form_pair env ctl lr ps)"
  by (simp add: form_pair_def add_candidate_pair_unique split: prod.split)

lemma fold_form_pair_unique:
  "env_ok env \<Longrightarrow> pairs_unique ps \<Longrightarrow> pairs_unique (fold (form_pair env ctl) lrs ps)"
  by (induction lrs arbitrary: ps) (simp_all add: form_pair_unique)

lemma prune_loop_take: "prune_loop n ps = take n ps"
proof (induction n ps rule: prune_loop.induct)
  case (1 n ps)
  then show ?case by (subst prune_loop.simps) (simp add: butlast_conv_take)
qed

lemma pairs_inv_take: "pairs_inv ps \<Longrightarrow> pairs_inv (take n ps)"
proof -
  assume inv: "pairs_inv ps"
  have "length (nominated_of c (take n ps)) \<le> length (nominated_of c ps)" for c
  proof -
    have "nominated_of c ps = nominated_of c (take n ps) @ nominated_of c (drop n ps)"
      by (simp add: filter_append [symmetric] del: filter_append)
    then show ?thesis by simp
  qed
  then have "\<forall>c. length (nominated_of c (take n ps)) \<le> 1"
    using inv unfolding pairs_inv_def pairs_unique_def by (meson order_trans)
  moreover have "distinct (map ids (take n ps))"
    using inv distinct_take [of "map ids ps" n] by (simp add: pairs_inv_def pairs_unique_def take_map)
  moreover have "sorted (map cp_priority (take n ps))"
    using inv sorted_wrt_take [of "(\<le>)" "map cp_priority ps" n] by (simp add: pairs_inv_def take_map)
  ultimately show ?thesis by (simp add: pairs_inv_def pairs_unique_def)
qed

lemma form_pairs_inv:
  assumes "env_ok env" "pairs_inv (pairs a)"
  shows "pairs_inv (pairs (form_pairs env a))"
  using assms fold_form_pair_unique [OF assms(1)] pairs_inv_sort [OF assms(1)]
  by (simp add: form_pairs_def prune_pairs_def prune_loop_take pairs_inv_take pairs_inv_def [of "pairs a"] Let_def)

lemma those_map_length: "those (map f xs) = Some ys \<Longrightarrow> list_all2 (\<lambda>x y. f x = Some y) xs ys"
  by (induction xs arbitrary: ys) (auto split: option.splits)

lemma those_map_view:
  assumes "those (map f xs) = Some ys" "\<And>x y. f x = Some y \<Longrightarrow> h y = g x"
  shows "map h ys = map g xs"
  using those_map_length [OF assms(1)] assms(2) by (induction rule: list_all2_induct) auto

lemma recompute_inv:
  assumes env: "env_ok env" and inv: "pairs_inv (pairs a)" and r: "recompute_pair_priorities env a = Some a'"
  shows "pairs_inv (pairs a')"
proof -
  from r obtain ps where ps: "those (map (recompute_pair_priority a) (pairs a)) = Some ps"
    "pairs a' = env_sort env ps"
    by (auto simp: recompute_pair_priorities_def bind_eq_Some_conv)
  have "map (\<lambda>p. (ids p, cp_component p, cp_nominated p)) ps
      = map (\<lambda>p. (ids p, cp_component p, cp_nominated p)) (pairs a)"
    by (rule those_map_view [OF ps(1)]) (auto simp: recompute_pair_priority_def bind_eq_Some_conv)
  then have "pairs_unique ps = pairs_unique (pairs a)" by (rule pairs_unique_view)
  with inv have "pairs_unique ps" by (simp add: pairs_inv_def)
  then show ?thesis using pairs_inv_sort [OF env] ps(2) by simp
qed

text \<open>Changes of a pair that only touch its state or clear its nomination.\<close>

lemma pairs_inv_update_view:
  assumes "pairs_inv ps" "\<And>p. pair_view (f p) = pair_view p"
  shows "pairs_inv (update_first P f ps)"
  by (rule pairs_inv_view [OF map_update_first assms(1)]) (rule assms(2))

lemma pairs_inv_update_denominate:
  assumes "pairs_inv ps"
    and "\<And>p. ids (f p) = ids p \<and> cp_priority (f p) = cp_priority p \<and> cp_component (f p) = cp_component p
      \<and> \<not> cp_nominated (f p)"
  shows "pairs_inv (update_first P f ps)"
proof -
  have "map ids (update_first P f ps) = map ids ps" "map cp_priority (update_first P f ps) = map cp_priority ps"
    using assms(2) by (intro map_update_first; simp)+
  moreover have "length (nominated_of c (update_first P f ps)) \<le> length (nominated_of c ps)" for c
    using assms(2) by (induction ps) auto
  ultimately show ?thesis
    using assms(1) by (simp add: pairs_inv_def pairs_unique_def) (meson order_trans)
qed

lemma pairs_inv_list_update_view:
  assumes "pairs_inv ps" "i < length ps" "pair_view q = pair_view (ps ! i)"
  shows "pairs_inv (ps[i := q])"
proof (rule pairs_inv_view [OF _ assms(1)])
  show "map pair_view (ps[i := q]) = map pair_view ps"
    using list_update_id [of "map pair_view ps" i] assms(2,3) by (simp add: map_update)
qed

lemma max_by_key_from_None: "max_by_key_from i P key xs = None \<Longrightarrow> \<forall>x\<in>set xs. \<not> P x"
  by (induction xs arbitrary: i) (auto simp: Let_def split: if_splits option.splits prod.splits)

lemma max_by_key_from_Some:
  "max_by_key_from i P key xs = Some (j, y) \<Longrightarrow>
     i \<le> j \<and> j < i + length xs \<and> y = xs ! (j - i) \<and> P y \<and> (\<forall>x\<in>set xs. P x \<longrightarrow> key x \<le> key y)"
proof (induction xs arbitrary: i j y)
  case Nil
  then show ?case by simp
next
  case (Cons x xs)
  show ?case
  proof (cases "max_by_key_from (Suc i) P key xs")
    case None
    with max_by_key_from_None [OF None] Cons.prems show ?thesis by (auto split: if_splits)
  next
    case (Some jy)
    obtain j' y' where jy: "jy = (j', y')" by fastforce
    with Some Cons.IH [of "Suc i" j' y'] have
      rest: "Suc i \<le> j'" "j' < Suc i + length xs" "y' = xs ! (j' - Suc i)" "P y'"
        "\<forall>x\<in>set xs. P x \<longrightarrow> key x \<le> key y'" by auto
    then have "j' - i = Suc (j' - Suc i)" by simp
    then have "(x # xs) ! (j' - i) = y'" using rest(3) by simp
    with Some jy rest Cons.prems show ?thesis
      by (auto simp: Let_def split: if_splits)
  qed
qed

lemma max_by_key_Some:
  "max_by_key P key xs = Some (j, y) \<Longrightarrow>
     j < length xs \<and> y = xs ! j \<and> P y \<and> (\<forall>x\<in>set xs. P x \<longrightarrow> key x \<le> key y)"
  by (drule max_by_key_from_Some) auto

lemma pairs_inv_nominate:
  assumes inv: "pairs_inv ps" and i: "i < length ps"
    and none: "\<forall>p\<in>set ps. cp_component p = cp_component (ps ! i) \<longrightarrow> \<not> cp_nominated p"
  shows "pairs_inv (ps[i := (ps ! i)\<lparr>cp_nominated := True\<rparr>])"
proof -
  let ?q = "(ps ! i)\<lparr>cp_nominated := True\<rparr>"
  have split: "ps[i := ?q] = take i ps @ ?q # drop (Suc i) ps" by (rule upd_conv_take_nth_drop [OF i])
  have "length (nominated_of c (ps[i := ?q])) \<le> 1" for c
  proof (cases "c = cp_component (ps ! i)")
    case True
    then have "nominated_of c (take i ps) = []" "nominated_of c (drop (Suc i) ps) = []"
      using none by (auto simp: filter_empty_conv dest: in_set_takeD in_set_dropD)
    then show ?thesis by (simp add: split)
  next
    case False
    have "nominated_of c ps = nominated_of c (take i ps @ ps ! i # drop (Suc i) ps)"
      using id_take_nth_drop [OF i] by simp
    with False have "nominated_of c (ps[i := ?q]) = nominated_of c ps" by (simp add: split)
    with inv show ?thesis by (simp add: pairs_inv_def pairs_unique_def)
  qed
  moreover have "map ids (ps[i := ?q]) = map ids ps" "map cp_priority (ps[i := ?q]) = map cp_priority ps"
    using list_update_id [of "map ids ps" i] list_update_id [of "map cp_priority ps" i] i
    by (simp_all add: map_update)
  ultimately show ?thesis
    using inv by (simp add: pairs_inv_def pairs_unique_def)
qed

section \<open>Reported states\<close>

text \<open>
  Replaying events: the state reached from \<open>s\<close>, or \<open>None\<close> if an event does not start in the
  current state or does not change it.
\<close>

fun conn_after :: "IceConnectionState \<Rightarrow> IceEvent list \<Rightarrow> IceConnectionState option" where
  "conn_after s [] = Some s"
| "conn_after s (ConnectionStateChanged old new # es) =
     (if old = s \<and> new \<noteq> old then conn_after new es else None)"
| "conn_after s (_ # es) = conn_after s es"

fun gather_after :: "IceGatheringState \<Rightarrow> IceEvent list \<Rightarrow> IceGatheringState option" where
  "gather_after s [] = Some s"
| "gather_after s (GatheringStateChanged old new # es) =
     (if old = s \<and> new \<noteq> old then gather_after new es else None)"
| "gather_after s (_ # es) = gather_after s es"

primrec is_silent :: "IceEvent \<Rightarrow> bool" where
  "is_silent (GatheringStateChanged _ _) = False"
| "is_silent (ConnectionStateChanged _ _) = False"
| "is_silent (UseAddr _ _) = True"
| "is_silent (SendData _ _ _ _) = True"

lemma conn_after_append: "conn_after s (xs @ ys) = Option.bind (conn_after s xs) (\<lambda>s. conn_after s ys)"
  by (induction s xs rule: conn_after.induct) auto

lemma gather_after_append: "gather_after s (xs @ ys) = Option.bind (gather_after s xs) (\<lambda>s. gather_after s ys)"
  by (induction s xs rule: gather_after.induct) auto

lemma silent_after:
  assumes "list_all is_silent es"
  shows "conn_after s es = Some s" "gather_after t es = Some t"
proof -
  show "conn_after s es = Some s" using assms
  proof (induction es)
    case (Cons e es) then show ?case by (cases e) auto
  qed simp
  show "gather_after t es = Some t" using assms
  proof (induction es)
    case (Cons e es) then show ?case by (cases e) auto
  qed simp
qed

section \<open>What every call keeps\<close>

definition keeps :: "IceAgent \<Rightarrow> IceAgent \<Rightarrow> bool" where
  "keeps a a' \<longleftrightarrow> (pairs_inv (pairs a) \<longrightarrow> pairs_inv (pairs a'))
     \<and> (\<exists>new. events a' = events a @ new
          \<and> conn_after (connection_state a) new = Some (connection_state a')
          \<and> gather_after (gathering_state a) new = Some (gathering_state a'))"

text \<open>Relations that hold along sequences of calls.\<close>

locale call_relation =
  fixes R :: "'s \<Rightarrow> 's \<Rightarrow> bool"
  assumes R_refl: "R s s" and R_trans: "R s t \<Longrightarrow> R t u \<Longrightarrow> R s u"
begin

lemma fold_panics_rel:
  "(\<And>x s s'. f x s = Some s' \<Longrightarrow> R s s') \<Longrightarrow> fold_panics f xs s = Some s' \<Longrightarrow> R s s'"
proof (induction xs arbitrary: s)
  case Nil
  then show ?case using R_refl by simp
next
  case (Cons x xs)
  then obtain t where "f x s = Some t" "fold_panics f xs t = Some s'"
    by (auto simp: bind_eq_Some_conv)
  with Cons show ?case using R_trans by blast
qed

lemma seq_rel: "Option.bind m f = Some u \<Longrightarrow> (\<And>t. m = Some t \<Longrightarrow> R s t) \<Longrightarrow>
    (\<And>t. f t = Some u \<Longrightarrow> R t u) \<Longrightarrow> R s u"
  using R_trans by (auto simp: bind_eq_Some_conv)

end

interpretation keep: call_relation keeps
proof
  show "keeps a a" for a by (auto simp: keeps_def intro!: exI [of _ "[]"])
  fix a b c
  assume ab: "keeps a b" and bc: "keeps b c"
  from ab obtain n1 where n1: "events b = events a @ n1"
    "conn_after (connection_state a) n1 = Some (connection_state b)"
    "gather_after (gathering_state a) n1 = Some (gathering_state b)" by (auto simp: keeps_def)
  from bc obtain n2 where n2: "events c = events b @ n2"
    "conn_after (connection_state b) n2 = Some (connection_state c)"
    "gather_after (gathering_state b) n2 = Some (gathering_state c)" by (auto simp: keeps_def)
  have "events c = events a @ (n1 @ n2)
      \<and> conn_after (connection_state a) (n1 @ n2) = Some (connection_state c)
      \<and> gather_after (gathering_state a) (n1 @ n2) = Some (gathering_state c)"
    using n1 n2 by (simp add: conn_after_append gather_after_append)
  with ab bc show "keeps a c" by (auto simp: keeps_def)
qed

lemma keeps_quiet:
  assumes "pairs_inv (pairs a) \<Longrightarrow> pairs_inv (pairs a')" "events a' = events a @ new" "list_all is_silent new"
    "connection_state a' = connection_state a" "gathering_state a' = gathering_state a"
  shows "keeps a a'"
  using assms silent_after [OF assms(3)] by (auto simp: keeps_def)

lemma keeps_silent_state:
  assumes "pairs a' = pairs a" "events a' = events a"
    "connection_state a' = connection_state a" "gathering_state a' = gathering_state a"
  shows "keeps a a'"
  using assms by (intro keeps_quiet [where new = "[]"]) auto

section \<open>Operation by operation\<close>

lemma form_pairs_frame:
  "events (form_pairs env a) = events a" "connection_state (form_pairs env a) = connection_state a"
  "gathering_state (form_pairs env a) = gathering_state a"
  by (simp_all add: form_pairs_def prune_pairs_def Let_def)

lemma keeps_form_pairs:
  assumes "env_ok env" "pairs b = pairs a" "events b = events a"
    "connection_state b = connection_state a" "gathering_state b = gathering_state a"
  shows "keeps a (form_pairs env b)"
  using form_pairs_inv [OF assms(1), of b] assms
  by (intro keeps_quiet [where new = "[]"]) (simp_all add: form_pairs_frame)

lemma keeps_add_local_candidate: "env_ok env \<Longrightarrow> keeps a (add_local_candidate env a c k b addr)"
  by (simp add: add_local_candidate_def keeps_form_pairs keep.R_refl)

lemma keeps_add_host_addr: "env_ok env \<Longrightarrow> keeps a (add_host_addr env a c addr)"
  by (simp add: add_host_addr_def keeps_add_local_candidate keep.R_refl)

lemma keeps_add_stun_server: "keeps a (add_stun_server a server)"
  by (rule keeps_silent_state) (simp_all add: add_stun_server_def)

lemma keeps_add_remote_candidate:
  "env_ok env \<Longrightarrow> add_remote_candidate env a c = Some a' \<Longrightarrow> keeps a a'"
  by (auto simp: add_remote_candidate_def Let_def keeps_form_pairs keep.R_refl
      split: option.splits UntaggedAddress.splits if_splits)

lemma keeps_recompute:
  assumes "env_ok env" "recompute_pair_priorities env b = Some a'"
    and "pairs_inv (pairs a) \<Longrightarrow> pairs_inv (pairs b)" "events b = events a"
    "connection_state b = connection_state a" "gathering_state b = gathering_state a"
  shows "keeps a a'"
proof -
  have "events a' = events b" "connection_state a' = connection_state b" "gathering_state a' = gathering_state b"
    using assms(2) by (auto simp: recompute_pair_priorities_def bind_eq_Some_conv)
  with assms recompute_inv [OF assms(1) _ assms(2)] show ?thesis
    by (intro keeps_quiet [where new = "[]"]) auto
qed

text \<open>What nomination does: nothing, or it marks the best pair of a component that has none.\<close>

definition nominates :: "(CandidatePair \<Rightarrow> bool) \<Rightarrow> IceAgent \<Rightarrow> Component \<Rightarrow> IceAgent \<Rightarrow> bool" where
  "nominates P a c a' \<longleftrightarrow> (\<exists>i pair q new. max_by_key P cp_priority (pairs a) = Some (i, pair)
     \<and> cp_component pair = c \<and> (\<forall>p\<in>set (pairs a). cp_component p = c \<longrightarrow> \<not> cp_nominated p)
     \<and> list_all is_silent new
     \<and> a' = a\<lparr>pairs := (pairs a)[i := pair\<lparr>cp_nominated := True\<rparr>], triggered_check_queue := q,
             events := events a @ new\<rparr>)"

lemma nominatesI:
  assumes "max_by_key P cp_priority (pairs a) = Some (i, pair)" "\<And>p. P p \<Longrightarrow> cp_component p = c"
    "\<not> (\<exists>p\<in>set (pairs a). cp_component p = c \<and> cp_nominated p)" "list_all is_silent new"
    "a' = a\<lparr>pairs := (pairs a)[i := pair\<lparr>cp_nominated := True\<rparr>], triggered_check_queue := q,
      events := events a @ new\<rparr>"
  shows "nominates P a c a'"
  using assms max_by_key_Some [OF assms(1)] unfolding nominates_def by blast

lemma nomination_controlling:
  assumes "poll_nomination_of_component a c = Some a'" "is_controlling a"
  shows "a' = a \<or> nominates (\<lambda>p. cp_component p = c \<and> cp_state p = Pair_Succeeded) a c a'"
proof (cases "(\<exists>p\<in>set (pairs a). cp_component p = c \<and> cp_nominated p)
    \<or> max_by_key (\<lambda>p. cp_component p = c \<and> cp_state p = Pair_Succeeded) cp_priority (pairs a) = None")
  case True
  with assms show ?thesis by (auto simp: poll_nomination_of_component_def split: if_splits)
next
  case False
  then obtain i pair where
    m: "max_by_key (\<lambda>p. cp_component p = c \<and> cp_state p = Pair_Succeeded) cp_priority (pairs a) = Some (i, pair)"
    by auto
  with False assms have "a' = a\<lparr>pairs := (pairs a)[i := pair\<lparr>cp_nominated := True\<rparr>],
      triggered_check_queue := ids pair # triggered_check_queue a, events := events a @ []\<rparr>"
    by (auto simp: poll_nomination_of_component_def split: if_splits)
  with m False show ?thesis
    by (intro disjI2 nominatesI [OF m, where new = "[]" and q = "ids pair # triggered_check_queue a"]) auto
qed

lemma nomination_controlled:
  assumes "poll_nomination_of_component a c = Some a'" "\<not> is_controlling a"
  shows "a' = a \<or> nominates (\<lambda>p. cp_component p = c \<and> cp_received_use_candidate p \<and> cp_state p = Pair_Succeeded) a c a'"
proof (cases "(\<exists>p\<in>set (pairs a). cp_nominated p)
    \<or> max_by_key (\<lambda>p. cp_component p = c \<and> cp_received_use_candidate p \<and> cp_state p = Pair_Succeeded)
        cp_priority (pairs a) = None")
  case True
  with assms show ?thesis by (auto simp: poll_nomination_of_component_def split: if_splits)
next
  case False
  then obtain i pair where
    m: "max_by_key (\<lambda>p. cp_component p = c \<and> cp_received_use_candidate p \<and> cp_state p = Pair_Succeeded)
      cp_priority (pairs a) = Some (i, pair)" by auto
  with False assms obtain remote :: Candidate where "a' = a\<lparr>pairs := (pairs a)[i := pair\<lparr>cp_nominated := True\<rparr>],
      triggered_check_queue := triggered_check_queue a, events := events a @ [UseAddr c (cand_addr remote)]\<rparr>"
    by (auto simp: poll_nomination_of_component_def push_event_def bind_eq_Some_conv split: if_splits)
  with m False show ?thesis
    by (intro disjI2 nominatesI [OF m, where new = "[UseAddr c (cand_addr remote)]"
          and q = "triggered_check_queue a"]) auto
qed

lemma keeps_nominates:
  assumes "nominates P a c a'"
  shows "keeps a a'"
proof -
  from assms obtain i pair q new where m: "max_by_key P cp_priority (pairs a) = Some (i, pair)"
    and c: "cp_component pair = c" "\<forall>p\<in>set (pairs a). cp_component p = c \<longrightarrow> \<not> cp_nominated p"
    and a': "list_all is_silent new" "a' = a\<lparr>pairs := (pairs a)[i := pair\<lparr>cp_nominated := True\<rparr>],
      triggered_check_queue := q, events := events a @ new\<rparr>"
    by (auto simp: nominates_def)
  with max_by_key_Some [OF m] pairs_inv_nominate [of "pairs a" i] show ?thesis
    by (intro keeps_quiet [where new = new]) auto
qed

lemma keeps_poll_nomination_of_component:
  "poll_nomination_of_component a c = Some a' \<Longrightarrow> keeps a a'"
  using nomination_controlling nomination_controlled keeps_nominates keep.R_refl by metis

lemma keeps_poll_nomination:
  assumes "poll_nomination a = Some a'"
  shows "keeps a a'"
  using assms unfolding poll_nomination_def
  by (rule keep.seq_rel)
    (auto intro: keeps_poll_nomination_of_component keep.R_refl split: if_splits)

lemma keeps_set_connection_state: "keeps a (set_connection_state a s)"
  by (auto simp: set_connection_state_def push_event_def keep.R_refl keeps_def)

lemma keeps_set_gathering_state: "gathering_state a \<noteq> s \<Longrightarrow> keeps a (set_gathering_state a s)"
  by (auto simp: set_gathering_state_def push_event_def keeps_def)

lemma keeps_poll_state: "keeps a (poll_state a)"
proof -
  let ?all = "\<forall>b\<in>set (stun_server a). is_completed b"
  define b where "b = (if ?all \<and> gathering_state a \<noteq> Gathering_Complete
      then set_gathering_state a Gathering_Complete
      else if \<not> ?all \<and> gathering_state a \<noteq> Gathering_Gathering
      then set_gathering_state a Gathering_Gathering else a)"
  have ab: "keeps a b"
    unfolding b_def by (simp add: keeps_set_gathering_state keep.R_refl)
  have "keeps b (poll_state a)"
    unfolding poll_state_def Let_def b_def [symmetric]
    by (auto simp: keeps_set_connection_state keep.R_refl split: IceConnectionState.split)
  then show ?thesis by (rule keep.R_trans [OF ab])
qed

lemma keeps_update_pairs:
  assumes "pairs_inv (pairs a) \<Longrightarrow> pairs_inv ps"
  shows "keeps a (a\<lparr>pairs := ps\<rparr>)"
  using assms by (intro keeps_quiet [where new = "[]"]) auto

lemma keeps_push_event: "is_silent e \<Longrightarrow> keeps a (push_event e a)"
  by (rule keeps_quiet [where new = "[e]"]) (simp_all add: push_event_def)

lemma keeps_pair_succeeded:
  assumes env: "env_ok env" and r: "pair_succeeded env a pkt pair = Some a'"
  shows "keeps a a'"
proof -
  let ?aw = "pair_awaits (msg_transaction_id (pkt_data pkt))"
  from r [unfolded pair_succeeded_def Let_def] show ?thesis
  proof (rule keep.seq_rel)
    fix b
    assume b: "(if check_is_symmetric (cp_state pair) (pkt_source pkt) (pkt_destination pkt)
      then (if cp_nominated pair
          then map_of (local_candidates a) (cp_local pair) \<bind> (\<lambda>lc. map_of (remote_candidates a) (cp_remote pair)
            \<bind> (\<lambda>rc. Some (push_event (UseAddr (cand_component lc) (cand_addr rc)) a))) else Some a) \<bind>
          (\<lambda>self. Some (self\<lparr>pairs := update_first ?aw (\<lambda>p. p\<lparr>cp_state := Pair_Succeeded\<rparr>) (pairs self)\<rparr>))
      else Some (a\<lparr>pairs := update_first ?aw (\<lambda>p. p\<lparr>cp_nominated := False, cp_state := Pair_Failed\<rparr>) (pairs a)\<rparr>)) = Some b"
    have ok: "keeps c (c\<lparr>pairs := update_first ?aw (\<lambda>p. p\<lparr>cp_state := Pair_Succeeded\<rparr>) (pairs c)\<rparr>)" for c
      by (intro keeps_update_pairs pairs_inv_update_view) (simp_all add: pair_view_def)
    have failed: "keeps a (a\<lparr>pairs := update_first ?aw (\<lambda>p. p\<lparr>cp_nominated := False, cp_state := Pair_Failed\<rparr>) (pairs a)\<rparr>)"
      by (intro keeps_update_pairs pairs_inv_update_denominate) simp_all
    have use: "keeps a (push_event (UseAddr c t) a)" for c t by (rule keeps_push_event) simp
    from b show "keeps a b"
      using ok failed keep.R_trans [OF use ok] by (auto simp: bind_eq_Some_conv split: if_splits)
  qed (auto simp: bind_eq_Some_conv keeps_add_local_candidate [OF env] keep.R_refl
      split: option.splits sum.splits if_splits)
qed

lemma keeps_receive_stun_success:
  assumes env: "env_ok env" and r: "receive_stun_success env a now pkt = Some a'"
  shows "keeps a a'"
proof -
  from r obtain bs res where "server_response (stun_server a) (stun_config a) now (pkt_data pkt) = Some (bs, res)"
    by (auto simp: receive_stun_success_def bind_eq_Some_conv)
  moreover have "keeps a (a\<lparr>stun_server := bs\<rparr>)" "keeps a (a\<lparr>backlog := x\<rparr>)" for x
    by (rule keeps_silent_state; simp)+
  moreover from keep.R_trans [OF this(1) keeps_add_local_candidate [OF env]]
  have "keeps a (add_local_candidate env (a\<lparr>stun_server := bs\<rparr>) c k d e)" for c k d e .
  ultimately show ?thesis
    using r keeps_pair_succeeded [OF env]
    by (auto simp: receive_stun_success_def Let_def keep.R_refl
        split: option.splits prod.splits if_splits)
qed

lemma keeps_receive_stun_error:
  assumes env: "env_ok env" and r: "receive_stun_error env a pkt = Some a'"
  shows "keeps a a'"
proof -
  have upd: "pairs_inv (pairs a) \<Longrightarrow> pairs_inv (update_first P (\<lambda>p. p\<lparr>cp_state := Pair_Waiting\<rparr>) (pairs a))" for P
    by (rule pairs_inv_update_view) (simp_all add: pair_view_def)
  have "keeps a (a\<lparr>backlog := x\<rparr>)" for x by (rule keeps_silent_state) simp_all
  moreover have "keeps a b" if "recompute_pair_priorities env (a\<lparr>is_controlling := x,
      pairs := update_first P (\<lambda>p. p\<lparr>cp_state := Pair_Waiting\<rparr>) (pairs a), triggered_check_queue := q\<rparr>) = Some b"
    for b x P q
    by (rule keeps_recompute [OF env that]) (simp_all add: upd)
  moreover have "keeps a b" if "recompute_pair_priorities env (a\<lparr>
      pairs := update_first P (\<lambda>p. p\<lparr>cp_state := Pair_Waiting\<rparr>) (pairs a), triggered_check_queue := q\<rparr>) = Some b"
    for b P q
    by (rule keeps_recompute [OF env that]) (simp_all add: upd)
  ultimately show ?thesis
    using r by (auto simp: receive_stun_error_def Let_def keep.R_refl
        split: option.splits prod.splits if_splits sum.splits)
qed

lemma keeps_handle_role_conflict:
  assumes env: "env_ok env" and r: "handle_role_conflict env a rc pkt = Some res"
  shows "keeps a (case res of Inl b \<Rightarrow> b | Inr b \<Rightarrow> b)"
proof -
  have "keeps a b" if "recompute_pair_priorities env (a\<lparr>is_controlling := x\<rparr>) = Some b" for b x
    by (rule keeps_recompute [OF env that]) simp_all
  moreover have "keeps a (push_event (SendData c d s t) a)" for c d s t by (rule keeps_push_event) simp
  ultimately show ?thesis
    using r unfolding handle_role_conflict_def Let_def
    by (cases "is_controlling a")
      (auto simp: bind_eq_Some_conv keep.R_refl split: option.splits sum.splits if_splits)
qed

lemma keeps_find_or_add_remote:
  assumes env: "env_ok env" and r: "find_or_add_remote env a l lc pr pkt = (a', rid)"
  shows "keeps a a'"
proof (cases "find (\<lambda>e. cand_addr (snd e) = pkt_source pkt) (remote_candidates a)")
  case (Some e)
  with r show ?thesis by (cases e) (simp add: find_or_add_remote_def keep.R_refl)
next
  case None
  then obtain m c q where "a' = a\<lparr>remote_candidates := m,
      pairs := add_candidate_pair env l lc rid c (is_controlling a) False (pairs a), triggered_check_queue := q\<rparr>"
    using r by (auto simp: find_or_add_remote_def Let_def split: prod.splits)
  then show ?thesis
    using add_candidate_pair_inv [OF env] by (intro keeps_quiet [where new = "[]"]) auto
qed

lemma keeps_answer_request:
  assumes env: "env_ok env" and r: "answer_request env a pkt pr use = Some a'"
  shows "keeps a a'"
proof (cases "find (\<lambda>e. cand_kind (snd e) = Host \<and> cand_addr (snd e) = pkt_destination pkt) (local_candidates a)")
  case None
  with r show ?thesis by (simp add: answer_request_def keep.R_refl)
next
  case (Some e)
  obtain l lc where e: "e = (l, lc)" by fastforce
  obtain b rid where b: "find_or_add_remote env a l lc pr pkt = (b, rid)" by fastforce
  let ?this = "\<lambda>p. cp_local p = l \<and> cp_remote p = rid"
  let ?c = "b\<lparr>pairs := update_first ?this (\<lambda>p. p\<lparr>cp_received_use_candidate := use\<rparr>) (pairs b)\<rparr>"
  have "keeps b ?c" by (intro keeps_update_pairs pairs_inv_update_view) (simp_all add: pair_view_def)
  with keeps_find_or_add_remote [OF env b] have "keeps a ?c" by (rule keep.R_trans)
  moreover have "keeps ?c (push_event (SendData x y z w) ?c)" for x y z w by (rule keeps_push_event) simp
  ultimately have sent: "keeps a (push_event (SendData x y z w) ?c)" for x y z w by (rule keep.R_trans)
  with r Some e b keep.R_trans [OF sent keeps_poll_nomination] show ?thesis
    by (auto simp: answer_request_def Let_def bind_eq_Some_conv split: if_splits)
qed

lemma keeps_receive_stun_request:
  assumes env: "env_ok env" and r: "receive_stun_request env a pkt = Some a'"
  shows "keeps a a'"
proof (cases "remote_credentials a")
  case None
  have "keeps a (a\<lparr>backlog := x\<rparr>)" for x by (rule keeps_silent_state) simp_all
  with None r show ?thesis by (auto simp: receive_stun_request_def)
next
  case (Some rc)
  obtain ok msg where v: "verify_integrity (env_hmac env) (local_credentials a) rc (pkt_data pkt) = (ok, msg)"
    by fastforce
  show ?thesis
  proof (cases ok)
    case False
    with Some v r show ?thesis by (simp add: receive_stun_request_def keep.R_refl)
  next
    case True
    with Some v r obtain pr where pr: "fst (attribute Priority msg) = Some (Inr pr)"
      by (auto simp: receive_stun_request_def Let_def split: option.splits sum.splits)
    with True Some v r obtain res use where
      h: "handle_role_conflict env a rc (pkt\<lparr>pkt_data := msg\<rparr>) = Some res"
      and b: "(case res of Inl b \<Rightarrow> Some b | Inr b \<Rightarrow> answer_request env b (pkt\<lparr>pkt_data := msg\<rparr>) pr use) = Some a'"
      by (auto simp: receive_stun_request_def Let_def bind_eq_Some_conv)
    from keeps_handle_role_conflict [OF env h] b show ?thesis
      using keep.R_trans [OF _ keeps_answer_request [OF env]] by (cases res) auto
  qed
qed

lemma keeps_receive_stun:
  assumes "env_ok env" "receive_stun env a now pkt = Some a'"
  shows "keeps a a'"
  using assms keeps_receive_stun_request keeps_receive_stun_success keeps_receive_stun_error
  by (auto simp: receive_stun_def keep.R_refl split: Class.splits)

lemma keeps_receive:
  assumes "env_ok env" "receive env a now pkt = Some a'"
  shows "keeps a a'"
  using assms keeps_receive_stun
  by (auto simp: receive_def Let_def keep.R_refl split: sum.splits prod.splits if_splits)

lemma keeps_set_remote_data:
  assumes env: "env_ok env" and r: "set_remote_data env a now creds cands mux = Some a'"
  shows "keeps a a'"
proof -
  define b where "b = (let b = a\<lparr>rtcp_mux := mux\<rparr>;
       b = (if mux
         then b\<lparr>stun_server := filter (\<lambda>s. sb_component s = Rtp) (stun_server b),
                   local_candidates := filter (\<lambda>e. cand_component (snd e) = Rtp) (local_candidates b)\<rparr>
         else b) in b\<lparr>remote_credentials := Some creds\<rparr>)"
  have ab: "keeps a b" by (rule keeps_silent_state) (simp_all add: b_def Let_def)
  from r obtain c where c: "fold_panics (\<lambda>c self. add_remote_candidate env self c) cands b = Some c"
    "fold_panics (\<lambda>pkt self. receive_stun env self now pkt) (backlog c) (c\<lparr>backlog := []\<rparr>) = Some a'"
    by (auto simp: set_remote_data_def Let_def b_def bind_eq_Some_conv)
  have "keeps b c" by (rule keep.fold_panics_rel [OF _ c(1)]) (rule keeps_add_remote_candidate [OF env])
  moreover have "keeps c (c\<lparr>backlog := []\<rparr>)" by (rule keeps_silent_state) simp_all
  moreover have "keeps (c\<lparr>backlog := []\<rparr>) a'"
    by (rule keep.fold_panics_rel [OF _ c(2)]) (rule keeps_receive_stun [OF env])
  ultimately show ?thesis using ab keep.R_trans by blast
qed

lemma binding_poll_silent: "binding_poll b now cfg r = Some (b', evs) \<Longrightarrow> list_all is_silent evs"
  by (auto simp: binding_poll_def start_binding_request_def bind_eq_Some_conv
      split: StunServerBindingState.splits if_splits)

lemma poll_bindings_silent: "poll_bindings bs i now cfg r = Some (bs', evs) \<Longrightarrow> list_all is_silent evs"
proof (induction bs arbitrary: i bs' evs)
  case Nil
  then show ?case by simp
next
  case (Cons b bs)
  then obtain b1 e1 bs1 e2 where "binding_poll b now cfg (r i) = Some (b1, e1)"
    "poll_bindings bs (Suc i) now cfg r = Some (bs1, e2)" "evs = e1 @ e2"
    by (auto simp: bind_eq_Some_conv)
  with Cons.IH binding_poll_silent show ?case by auto
qed

lemma retransmit_pair_spec:
  "retransmit_pair cfg now p = Some r \<Longrightarrow> pair_view (fst r) = pair_view p \<and> list_all is_silent (snd r)"
  by (auto simp: retransmit_pair_def pair_view_def bind_eq_Some_conv split: CandidatePairState.splits if_splits)

lemma keeps_poll_retransmit:
  assumes "poll_retransmit a now = Some a'"
  shows "keeps a a'"
proof -
  from assms obtain rs where rs: "those (map (retransmit_pair (stun_config a) now) (pairs a)) = Some rs"
    "a' = a\<lparr>pairs := map fst rs, events := events a @ concat (map snd rs)\<rparr>"
    by (auto simp: poll_retransmit_def bind_eq_Some_conv)
  have "map (pair_view \<circ> fst) rs = map pair_view (pairs a)"
    by (rule those_map_view [OF rs(1)]) (auto dest: retransmit_pair_spec)
  then have "map pair_view (map fst rs) = map pair_view (pairs a)" by simp
  moreover have "list_all is_silent (concat (map snd rs))"
    using those_map_length [OF rs(1)]
    by (induction rule: list_all2_induct) (auto dest: retransmit_pair_spec)
  ultimately show ?thesis
    using rs(2) pairs_inv_view [of "map fst rs" "pairs a"]
    by (intro keeps_quiet [where new = "concat (map snd rs)"]) auto
qed

lemma find_index_Some: "find_index P xs = Some i \<Longrightarrow> i < length xs \<and> P (xs ! i) \<and> (\<forall>j<i. \<not> P (xs ! j))"
proof (induction xs arbitrary: i)
  case (Cons x xs)
  show ?case
  proof (cases i)
    case 0
    with Cons.prems show ?thesis by (auto split: if_splits)
  next
    case (Suc k)
    with Cons.prems have "find_index P xs = Some k" "\<not> P x" by (auto split: if_splits)
    with Cons.IH [of k] Suc show ?thesis by (auto simp: less_Suc_eq_0_disj)
  qed
qed simp

lemma next_check_in_range: "next_check a = (Some i, q) \<Longrightarrow> i < length (pairs a)"
  by (auto simp: next_check_def Let_def split: list.splits option.splits prod.splits dest: find_index_Some)

lemma keeps_start_check:
  assumes "start_check env a rc now tid i = Some a'" "i < length (pairs a)"
  shows "keeps a a'"
proof -
  from assms(1) obtain c d s t st where
    a': "a' = push_event (SendData c d s t) (a\<lparr>pairs := (pairs a)[i := (pairs a ! i)\<lparr>cp_state := st\<rparr>]\<rparr>)"
    by (auto simp: start_check_def Let_def bind_eq_Some_conv)
  have "keeps a (a\<lparr>pairs := (pairs a)[i := (pairs a ! i)\<lparr>cp_state := st\<rparr>]\<rparr>)"
    using assms(2) by (intro keeps_update_pairs pairs_inv_list_update_view) (simp_all add: pair_view_def)
  then show ?thesis unfolding a' using keeps_push_event [of "SendData c d s t"] by (rule keep.R_trans) simp
qed

lemma poll_phases:
  assumes "poll env a now random = Some a'"
  shows "\<exists>bs evs b c. poll_bindings (stun_server a) 0 now (stun_config a) random = Some (bs, evs)
    \<and> poll_retransmit (a\<lparr>stun_server := bs, events := events a @ evs\<rparr>) now = Some b
    \<and> poll_nomination (poll_state b) = Some c \<and> poll_check env c now (random (length (stun_server c))) = Some a'"
  using assms by (auto simp: poll_def bind_eq_Some_conv)

lemma keeps_poll_check:
  assumes "poll_check env a now tid = Some a'"
  shows "keeps a a'"
proof -
  let ?b = "a\<lparr>last_ta_trigger := Some now\<rparr>"
  obtain check queue where n: "next_check ?b = (check, queue)" by fastforce
  let ?c = "?b\<lparr>triggered_check_queue := queue\<rparr>"
  have ac: "keeps a ?c" by (rule keeps_silent_state) simp_all
  have "keeps a d" if "start_check env ?c rc now tid i = Some d" "check = Some i" for rc d i
    using next_check_in_range [of ?b i queue] n that
    by (intro keep.R_trans [OF ac] keeps_start_check [OF that(1)]) simp
  with ac n assms show ?thesis
    by (auto simp: poll_check_def Let_def keep.R_refl split: option.splits if_splits)
qed

lemma keeps_poll:
  assumes "poll env a now random = Some a'"
  shows "keeps a a'"
proof -
  from poll_phases [OF assms] obtain bs evs b c where
    bs: "poll_bindings (stun_server a) 0 now (stun_config a) random = Some (bs, evs)"
    and b: "poll_retransmit (a\<lparr>stun_server := bs, events := events a @ evs\<rparr>) now = Some b"
    and c: "poll_nomination (poll_state b) = Some c"
    and a': "poll_check env c now (random (length (stun_server c))) = Some a'" by blast
  have "keeps a (a\<lparr>stun_server := bs, events := events a @ evs\<rparr>)"
    using poll_bindings_silent [OF bs] by (intro keeps_quiet [where new = evs]) simp_all
  with keeps_poll_retransmit [OF b] keeps_poll_state [of b] keeps_poll_nomination [OF c] keeps_poll_check [OF a']
  show ?thesis using keep.R_trans by blast
qed

section \<open>Reachable agents\<close>

text \<open>
  Agents the application can produce, with the events it has taken out of the queue so far,
  oldest first.
\<close>

inductive ice_reach :: "IceEnv \<Rightarrow> IceAgent \<Rightarrow> IceEvent list \<Rightarrow> bool" for env where
  answer: "ice_reach env (new_from_answer lc rc controlling mux random) []"
| offer: "ice_reach env (new_for_offer lc controlling mux random) []"
| host: "ice_reach env a log \<Longrightarrow> ice_reach env (add_host_addr env a component addr) log"
| server: "ice_reach env a log \<Longrightarrow> ice_reach env (add_stun_server a addr) log"
| remote: "ice_reach env a log \<Longrightarrow> add_remote_candidate env a cand = Some a' \<Longrightarrow> ice_reach env a' log"
| data: "ice_reach env a log \<Longrightarrow> set_remote_data env a now creds cands mux = Some a' \<Longrightarrow> ice_reach env a' log"
| recv: "ice_reach env a log \<Longrightarrow> receive env a now pkt = Some a' \<Longrightarrow> ice_reach env a' log"
| poll: "ice_reach env a log \<Longrightarrow> poll env a now rand = Some a' \<Longrightarrow> ice_reach env a' log"
| pop: "ice_reach env a log \<Longrightarrow> pop_event a = (Some e, a') \<Longrightarrow> ice_reach env a' (log @ [e])"

inductive_cases ice_reachE: "ice_reach env a log"

definition reach_inv :: "IceAgent \<Rightarrow> IceEvent list \<Rightarrow> bool" where
  "reach_inv a log \<longleftrightarrow> pairs_inv (pairs a)
     \<and> conn_after Connection_New (log @ events a) = Some (connection_state a)
     \<and> gather_after Gathering_New (log @ events a) = Some (gathering_state a)"

lemma reach_inv_keeps: "reach_inv a log \<Longrightarrow> keeps a a' \<Longrightarrow> reach_inv a' log"
  by (auto simp: reach_inv_def keeps_def conn_after_append gather_after_append bind_eq_Some_conv)

lemma reach_inv_new:
  "reach_inv (new_from_answer lc rc ctl mux r) []" "reach_inv (new_for_offer lc ctl mux r) []"
  by (simp_all add: reach_inv_def new_from_answer_def new_for_offer_def pairs_inv_def pairs_unique_def)

lemma reachable_inv: "ice_reach env a log \<Longrightarrow> env_ok env \<Longrightarrow> reach_inv a log"
proof (induction rule: ice_reach.induct)
  case (pop a log e a')
  then show ?case by (auto simp: reach_inv_def pop_event_def split: list.splits)
qed (auto simp: reach_inv_new intro: reach_inv_keeps keeps_add_host_addr keeps_add_stun_server
    keeps_add_remote_candidate keeps_set_remote_data keeps_receive keeps_poll)

text \<open>An environment that satisfies the laws, for examples.\<close>

definition sample_env :: IceEnv where
  "sample_env =
     \<lparr>env_hmac = (\<lambda>k d. take 20 (k @ replicate 20 0)), env_foundation = (\<lambda>_ _ _ _. []),
      env_slot_insert = (\<lambda>m c. (Suc (sum_list (map fst m)), m @ [(Suc (sum_list (map fst m)), c)])),
      env_sort = sort_key cp_priority\<rparr>"

lemma sample_env_ok: "env_ok sample_env"
proof -
  have "fst e \<le> sum_list (map fst m)" if "e \<in> set m" for e :: "nat \<times> Candidate" and m
    using that by (intro member_le_sum_list) auto
  then have "Suc (sum_list (map fst m)) \<notin> fst ` set m" for m :: slotmap
    by fastforce
  then show ?thesis by (simp add: env_ok_def sample_env_def)
qed

definition sample_agent :: IceAgent where
  "sample_agent = new_from_answer \<lparr>ufrag = [97], pwd = [98]\<rparr> \<lparr>ufrag = [99], pwd = [100]\<rparr> True True 5"

text \<open>
  C1: In every agent the application can reach, no two candidate pairs join the same
  candidates, the pairs are in ascending order of priority, and each component has at most
  one nominated pair.\<close>

theorem ice_pairs_wellformed:
  assumes "env_ok env" "ice_reach env a log"
  shows "distinct (map (\<lambda>p. (cp_local p, cp_remote p)) (pairs a)) \<and> sorted (map cp_priority (pairs a))
    \<and> (\<forall>c. length (filter (\<lambda>p. cp_nominated p \<and> cp_component p = c) (pairs a)) \<le> 1)"
  using reachable_inv [OF assms(2,1)] by (simp add: reach_inv_def pairs_inv_def pairs_unique_def)

theorem ice_pairs_wellformed_witness:
  "distinct (map (\<lambda>p. (cp_local p, cp_remote p))
     (pairs (add_host_addr sample_env sample_agent Rtp (SockV4 0xC0A80001 5000))))"
proof -
  have "ice_reach sample_env (add_host_addr sample_env sample_agent Rtp (SockV4 0xC0A80001 5000)) []"
    unfolding sample_agent_def by (intro ice_reach.intros)
  from ice_pairs_wellformed [OF sample_env_ok this] show ?thesis by simp
qed

text \<open>
  C11: The application can trust the state events: in every reachable agent, replaying all
  events emitted so far, those already taken and those still queued, leads from New to the
  state the agent reports, each event starting in the state the one before it ended in and
  really changing it; this holds for the connection state and for the gathering state.\<close>

theorem ice_state_events_consistent:
  assumes "env_ok env" "ice_reach env a log"
  shows "conn_after Connection_New (log @ events a) = Some (connection_state a)
    \<and> gather_after Gathering_New (log @ events a) = Some (gathering_state a)"
  using reachable_inv [OF assms(2,1)] by (simp add: reach_inv_def)

theorem ice_state_events_consistent_witness:
  "\<exists>a. poll sample_env sample_agent 0 (\<lambda>_. TransactionId (replicate 12 1)) = Some a
     \<and> events a = [GatheringStateChanged Gathering_New Gathering_Complete,
         ConnectionStateChanged Connection_New Connection_Failed]
     \<and> conn_after Connection_New (events a) = Some (connection_state a)"
proof -
  let ?r = "\<lambda>_. TransactionId (replicate 12 1)"
  obtain a where a: "poll sample_env sample_agent 0 ?r = Some a"
    "events a = [GatheringStateChanged Gathering_New Gathering_Complete,
         ConnectionStateChanged Connection_New Connection_Failed]"
    by (simp add: poll_def sample_agent_def new_from_answer_def poll_retransmit_def poll_state_def Let_def
        set_gathering_state_def set_connection_state_def push_event_def has_nomination_def in_progress_def
        poll_nomination_def poll_nomination_of_component_def poll_check_def next_check_def)
  have "ice_reach sample_env sample_agent []" unfolding sample_agent_def by (rule ice_reach.intros)
  from ice_reach.poll [OF this a(1)] have "ice_reach sample_env a []" .
  from ice_state_events_consistent [OF sample_env_ok this] a show ?thesis by auto
qed

end
