(* ===== verification/Ice_Checks.thy ===== *)
theory Ice_Checks
  imports Ice_Safety
begin

text \<open>
  Properties of single operations of the ICE agent: the priority of a pair, which pairs
  survive the limit, which pair is checked next and which is nominated, the pacing of
  checks, and how messages that fail or pass authentication are treated.
\<close>

section \<open>Pair priority\<close>

lemma unat_ucast_64: "unat (ucast w :: u64) = unat (w :: u32)"
proof -
  have "unat w < 2 ^ 64" using unsigned_less [of w, where 'a = nat] by simp
  then show ?thesis by (simp add: unsigned_ucast_eq take_bit_nat_eq_self)
qed

lemma pair_priority_bound:
  fixes g d :: nat
  assumes "g < 2 ^ 32" "d < 2 ^ 32" "g \<noteq> 2 ^ 32 - 1 \<or> d \<noteq> 2 ^ 32 - 1"
  shows "2 ^ 32 * min g d + 2 * max g d + (if d < g then 1 else 0) < 2 ^ 64"
proof -
  have "min g d \<le> 2 ^ 32 - 2" using assms by (auto simp: min_def)
  moreover have "max g d \<le> 2 ^ 32 - 1" using assms by (auto simp: max_def)
  ultimately show ?thesis by auto
qed

text \<open>
  Both agents give a pair the same priority, since the formula takes the controlling
  agent's candidate first whichever side computes it; and unless both candidates have the
  largest 32-bit priority, the 64-bit arithmetic does not wrap around, so the priority is
  the number the specification defines.\<close>

theorem pair_priority_agreed:
  "pair_priority a b True = pair_priority b a False
   \<and> (cand_priority a \<noteq> - 1 \<or> cand_priority b \<noteq> - 1 \<longrightarrow>
       unat (pair_priority a b True)
         = 2 ^ 32 * min (unat (cand_priority a)) (unat (cand_priority b))
           + 2 * max (unat (cand_priority a)) (unat (cand_priority b))
           + (if unat (cand_priority b) < unat (cand_priority a) then 1 else 0))"
proof (intro conjI impI)
  show "pair_priority a b True = pair_priority b a False" by (simp add: pair_priority_def)
next
  let ?g = "unat (cand_priority a)" and ?d = "unat (cand_priority b)"
  let ?n = "2 ^ 32 * min ?g ?d + 2 * max ?g ?d + (if ?d < ?g then 1 else 0)"
  assume "cand_priority a \<noteq> - 1 \<or> cand_priority b \<noteq> - 1"
  then have "?g \<noteq> 2 ^ 32 - 1 \<or> ?d \<noteq> 2 ^ 32 - 1"
    by (auto simp: word_unat_eq_iff unsigned_minus_1_eq_mask mask_eq_exp_minus_1)
  then have n: "?n < 2 ^ 64"
    using unsigned_less [of "cand_priority a", where 'a = nat] unsigned_less [of "cand_priority b", where 'a = nat]
    by (intro pair_priority_bound) simp_all
  have cast: "(ucast w :: u64) = of_nat (unat w)" for w :: u32 by simp
  have less: "(ucast v :: u64) < ucast w \<longleftrightarrow> unat v < unat w" for v w :: u32
    by (simp add: word_less_nat_alt unat_ucast_64)
  have le: "(ucast v :: u64) \<le> ucast w \<longleftrightarrow> unat v \<le> unat w" for v w :: u32
    by (simp add: word_le_nat_alt unat_ucast_64)
  have "pair_priority a b True = of_nat ?n"
    by (simp add: pair_priority_def min_def max_def less le)
  then show "unat (pair_priority a b True) = ?n"
    using n by (simp only: unsigned_of_nat take_bit_nat_eq_self) (simp add: take_bit_nat_eq_self)
qed

definition sample_candidate :: "u32 \<Rightarrow> Candidate" where
  "sample_candidate p = \<lparr>cand_addr = SockV4 1 2, cand_kind = Host, cand_priority = p, cand_foundation = [],
     cand_component = Rtp, cand_base = SockV4 1 2\<rparr>"

theorem pair_priority_agreed_witness:
  "unat (pair_priority (sample_candidate 3) (sample_candidate 2) True) = 2 ^ 32 * 2 + 2 * 3 + 1"
  using pair_priority_agreed [THEN conjunct2, of "sample_candidate 3" "sample_candidate 2"]
  by (simp add: sample_candidate_def)

section \<open>The limit on pairs\<close>

lemma sorted_take_le_drop:
  assumes "sorted (map f xs)" "x \<in> set (take n xs)" "y \<in> set (drop n xs)"
  shows "f x \<le> f y"
proof -
  have "sorted (map f (take n xs @ drop n xs))" using assms(1) by simp
  then have "sorted (map f (take n xs) @ map f (drop n xs))" by (simp only: map_append)
  with assms(2,3) show ?thesis by (auto simp: sorted_append)
qed

text \<open>
  Forming pairs keeps at most \<open>max_pairs\<close> of the known and new pairs, and it is the
  pairs of lowest priority that stay: no dropped pair has a lower priority than a kept one,
  although the function is documented to drop the lowest ones.\<close>

theorem form_pairs_keeps_lowest:
  assumes "env_ok env"
    and "ps = fold (form_pair env (is_controlling a)) (List.product (local_candidates a) (remote_candidates a)) (pairs a)"
  shows "\<exists>dropped. mset (pairs (form_pairs env a)) + dropped = mset ps
    \<and> length (pairs (form_pairs env a)) = min (length ps) (max_pairs a)
    \<and> (\<forall>p\<in>set (pairs (form_pairs env a)). \<forall>q\<in>#dropped. cp_priority p \<le> cp_priority q)"
proof (intro exI conjI ballI)
  let ?s = "env_sort env ps" and ?n = "max_pairs a"
  have form: "pairs (form_pairs env a) = take ?n ?s"
    using assms(2) by (simp add: form_pairs_def prune_pairs_def prune_loop_take Let_def)
  have s: "mset ?s = mset ps" "sorted (map cp_priority ?s)" using assms(1) by (simp_all add: env_ok_def)
  show "mset (pairs (form_pairs env a)) + mset (drop ?n ?s) = mset ps"
    unfolding form by (simp flip: mset_append add: s)
  show "length (pairs (form_pairs env a)) = min (length ps) ?n"
    using mset_eq_length [OF s(1)] by (simp add: form)
  show "cp_priority p \<le> cp_priority q"
    if "p \<in> set (pairs (form_pairs env a))" "q \<in># mset (drop ?n ?s)" for p q
    using that sorted_take_le_drop [OF s(2), of p ?n q] by (simp add: form)
qed

definition crowded_agent :: IceAgent where
  "crowded_agent = sample_agent\<lparr>max_pairs := 1,
     pairs := [\<lparr>cp_local = 1, cp_remote = 1, cp_priority = 5, cp_state = Pair_Waiting, cp_component = Rtp,
                cp_received_use_candidate = False, cp_nominated = False\<rparr>,
               \<lparr>cp_local = 1, cp_remote = 2, cp_priority = 9, cp_state = Pair_Waiting, cp_component = Rtp,
                cp_received_use_candidate = False, cp_nominated = False\<rparr>]\<rparr>"

theorem form_pairs_keeps_lowest_witness:
  "length (pairs crowded_agent) = 2 \<and> length (pairs (form_pairs sample_env crowded_agent)) = 1
   \<and> (\<exists>p q. pairs (form_pairs sample_env crowded_agent) = [p]
        \<and> mset (pairs crowded_agent) = {#p, q#} \<and> cp_priority p \<le> cp_priority q)"
proof -
  have "pairs crowded_agent = fold (form_pair sample_env (is_controlling crowded_agent))
      (List.product (local_candidates crowded_agent) (remote_candidates crowded_agent)) (pairs crowded_agent)"
    by (simp add: crowded_agent_def sample_agent_def new_from_answer_def)
  from form_pairs_keeps_lowest [OF sample_env_ok this] obtain dropped where
    d: "mset (pairs (form_pairs sample_env crowded_agent)) + dropped = mset (pairs crowded_agent)"
    "length (pairs (form_pairs sample_env crowded_agent)) = 1"
    "\<forall>p\<in>set (pairs (form_pairs sample_env crowded_agent)). \<forall>q\<in>#dropped. cp_priority p \<le> cp_priority q"
    by (auto simp: crowded_agent_def)
  then obtain p where p: "pairs (form_pairs sample_env crowded_agent) = [p]"
    by (auto simp: length_Suc_conv)
  have "size (mset (pairs crowded_agent)) = 2" by (simp add: crowded_agent_def)
  with arg_cong [OF d(1), of size] p have "size dropped = 1" by simp
  then obtain q where "dropped = {#q#}" using size_1_singleton_mset by blast
  with d p have "mset (pairs crowded_agent) = {#p, q#}" "cp_priority p \<le> cp_priority q"
    by (simp_all add: add_mset_commute)
  moreover have "length (pairs crowded_agent) = 2" by (simp add: crowded_agent_def)
  ultimately show ?thesis using p by simp
qed

section \<open>Which pair is checked\<close>

text \<open>
  When no triggered check is pending, the agent checks a waiting pair of the lowest
  priority among the waiting pairs, whereas the code's comment asks for the highest.\<close>

theorem next_check_is_lowest_waiting:
  assumes "sorted (map cp_priority (pairs a))" "triggered_check_queue a = []" "next_check a = (Some i, queue)"
  shows "i < length (pairs a) \<and> cp_state (pairs a ! i) = Pair_Waiting \<and> queue = []
    \<and> (\<forall>p\<in>set (pairs a). cp_state p = Pair_Waiting \<longrightarrow> cp_priority (pairs a ! i) \<le> cp_priority p)"
proof -
  have i: "find_index (\<lambda>p. cp_state p = Pair_Waiting) (pairs a) = Some i" "queue = []"
    using assms(2,3) by (simp_all add: next_check_def)
  note first = find_index_Some [OF i(1)]
  have "cp_priority (pairs a ! i) \<le> cp_priority p" if "p \<in> set (pairs a)" "cp_state p = Pair_Waiting" for p
  proof -
    from that(1) obtain j where j: "j < length (pairs a)" "p = pairs a ! j" by (metis in_set_conv_nth)
    with first that(2) have "i \<le> j" by (meson not_le)
    with assms(1) j show ?thesis using sorted_nth_mono [of "map cp_priority (pairs a)" i j] by simp
  qed
  with first i(2) show ?thesis by blast
qed

theorem next_check_is_lowest_waiting_witness:
  "next_check crowded_agent = (Some 0, []) \<and> cp_priority (pairs crowded_agent ! 0) = 5
   \<and> cp_priority (pairs crowded_agent ! 0) \<le> cp_priority (pairs crowded_agent ! 1)"
proof -
  have "sorted (map cp_priority (pairs crowded_agent))" "triggered_check_queue crowded_agent = []"
    "next_check crowded_agent = (Some 0, [])" "cp_priority (pairs crowded_agent ! 0) = 5"
    by (simp_all add: crowded_agent_def sample_agent_def new_from_answer_def next_check_def)
  moreover have "pairs crowded_agent ! 1 \<in> set (pairs crowded_agent)"
    "cp_state (pairs crowded_agent ! 1) = Pair_Waiting"
    by (simp_all add: crowded_agent_def)
  ultimately show ?thesis using next_check_is_lowest_waiting [of crowded_agent 0 "[]"] by simp
qed

section \<open>Nomination\<close>

text \<open>
  C33: A controlling agent nominates the best pair: if a component has a successful pair and
  none is nominated, polling nominates the successful pair of highest priority of that
  component, changes no other pair, and puts it at the front of the check queue so that the
  next check carries the nomination.\<close>

theorem nominates_best_pair:
  assumes "is_controlling a" "poll_nomination_of_component a c = Some a'"
    and "\<forall>p\<in>set (pairs a). cp_component p = c \<longrightarrow> \<not> cp_nominated p"
    and "\<exists>p\<in>set (pairs a). cp_component p = c \<and> cp_state p = Pair_Succeeded"
  shows "\<exists>i<length (pairs a). cp_component (pairs a ! i) = c \<and> cp_state (pairs a ! i) = Pair_Succeeded
    \<and> (\<forall>p\<in>set (pairs a). cp_component p = c \<and> cp_state p = Pair_Succeeded \<longrightarrow>
          cp_priority p \<le> cp_priority (pairs a ! i))
    \<and> pairs a' = (pairs a)[i := (pairs a ! i)\<lparr>cp_nominated := True\<rparr>]
    \<and> triggered_check_queue a' = ids (pairs a ! i) # triggered_check_queue a"
proof -
  let ?P = "\<lambda>p. cp_component p = c \<and> cp_state p = Pair_Succeeded"
  obtain i pair where m: "max_by_key ?P cp_priority (pairs a) = Some (i, pair)"
    using max_by_key_from_None [of 0 ?P cp_priority "pairs a"] assms(4) by fastforce
  have "pairs a' = (pairs a)[i := pair\<lparr>cp_nominated := True\<rparr>]"
    "triggered_check_queue a' = ids pair # triggered_check_queue a"
    using assms(1-3) m by (auto simp: poll_nomination_of_component_def split: if_splits)
  with max_by_key_Some [OF m] show ?thesis by (intro exI [of _ i]) auto
qed

definition checked_agent :: IceAgent where
  "checked_agent = crowded_agent\<lparr>pairs := map (\<lambda>p. p\<lparr>cp_state := Pair_Succeeded\<rparr>) (pairs crowded_agent)\<rparr>"

theorem nominates_best_pair_witness:
  "\<exists>a'. poll_nomination_of_component checked_agent Rtp = Some a'
     \<and> (\<exists>i<length (pairs checked_agent). cp_state (pairs checked_agent ! i) = Pair_Succeeded
          \<and> pairs a' = (pairs checked_agent)[i := (pairs checked_agent ! i)\<lparr>cp_nominated := True\<rparr>])"
proof -
  have "is_controlling checked_agent" "\<forall>p\<in>set (pairs checked_agent). cp_component p = Rtp \<longrightarrow> \<not> cp_nominated p"
    "\<exists>p\<in>set (pairs checked_agent). cp_component p = Rtp \<and> cp_state p = Pair_Succeeded"
    by (simp_all add: checked_agent_def crowded_agent_def sample_agent_def new_from_answer_def)
  moreover from this(1) have "poll_nomination_of_component checked_agent Rtp \<noteq> None"
    by (simp add: poll_nomination_of_component_def split: option.split)
  ultimately show ?thesis using nominates_best_pair [of checked_agent Rtp] by blast
qed

section \<open>Pacing\<close>

text \<open>No check is under way after the call that was not under way before, and the timer is kept.\<close>

definition no_new_check :: "IceAgent \<Rightarrow> IceAgent \<Rightarrow> bool" where
  "no_new_check a a' \<longleftrightarrow> last_ta_trigger a' = last_ta_trigger a
     \<and> (\<forall>p\<in>set (pairs a'). \<forall>tid. pair_awaits tid p \<longrightarrow>
          (\<exists>p0\<in>set (pairs a). ids p0 = ids p \<and> pair_awaits tid p0))"

interpretation paced: call_relation no_new_check
proof
  show "no_new_check a a" for a by (auto simp: no_new_check_def)
  show "no_new_check a c" if "no_new_check a b" "no_new_check b c" for a b c
    using that unfolding no_new_check_def by metis
qed

lemma no_new_check_retransmit:
  assumes "poll_retransmit a now = Some a'"
  shows "no_new_check a a'"
proof -
  from assms obtain rs where rs: "those (map (retransmit_pair (stun_config a) now) (pairs a)) = Some rs"
    "a' = a\<lparr>pairs := map fst rs, events := events a @ concat (map snd rs)\<rparr>"
    by (auto simp: poll_retransmit_def bind_eq_Some_conv)
  have step: "ids (fst r) = ids p \<and> (pair_awaits tid (fst r) \<longrightarrow> pair_awaits tid p)"
    if "retransmit_pair cfg now p = Some r" for cfg p r tid
    using that by (auto simp: retransmit_pair_def pair_awaits_def bind_eq_Some_conv
        split: CandidatePairState.splits if_splits)
  have "\<exists>p0\<in>set (pairs a). ids p0 = ids p \<and> pair_awaits tid p0"
    if p: "p \<in> set (map fst rs)" "pair_awaits tid p" for p tid
  proof -
    from p(1) obtain k where k: "k < length rs" "p = fst (rs ! k)" by (auto simp: in_set_conv_nth)
    with those_map_length [OF rs(1)] have "k < length (pairs a)"
      "retransmit_pair (stun_config a) now (pairs a ! k) = Some (rs ! k)"
      by (auto simp: list_all2_conv_all_nth)
    with step [OF this(2), of tid] k(2) p(2) show ?thesis by (intro bexI [of _ "pairs a ! k"]) auto
  qed
  then show ?thesis unfolding no_new_check_def rs(2) by simp
qed

lemma set_state_frame [simp]:
  "pairs (set_connection_state a s) = pairs a" "last_ta_trigger (set_connection_state a s) = last_ta_trigger a"
  "pairs (set_gathering_state a t) = pairs a" "last_ta_trigger (set_gathering_state a t) = last_ta_trigger a"
  by (simp_all add: set_connection_state_def set_gathering_state_def push_event_def)

lemma poll_state_frame:
  "pairs (poll_state a) = pairs a \<and> last_ta_trigger (poll_state a) = last_ta_trigger a"
proof -
  let ?all = "\<forall>b\<in>set (stun_server a). is_completed b"
  define b where "b = (if ?all \<and> gathering_state a \<noteq> Gathering_Complete
      then set_gathering_state a Gathering_Complete
      else if \<not> ?all \<and> gathering_state a \<noteq> Gathering_Gathering
      then set_gathering_state a Gathering_Gathering else a)"
  have "pairs b = pairs a \<and> last_ta_trigger b = last_ta_trigger a" by (simp add: b_def)
  moreover have "pairs (poll_state a) = pairs b \<and> last_ta_trigger (poll_state a) = last_ta_trigger b"
    unfolding poll_state_def Let_def b_def [symmetric] by (auto split: IceConnectionState.split)
  ultimately show ?thesis by simp
qed

lemma no_new_check_nominates:
  assumes "nominates P a c a'"
  shows "no_new_check a a'"
proof -
  from assms obtain i pair q new where m: "max_by_key P cp_priority (pairs a) = Some (i, pair)"
    and a': "a' = a\<lparr>pairs := (pairs a)[i := pair\<lparr>cp_nominated := True\<rparr>],
      triggered_check_queue := q, events := events a @ new\<rparr>"
    by (auto simp: nominates_def)
  from max_by_key_Some [OF m] have "pair \<in> set (pairs a)" by auto
  moreover have "set (pairs a') \<subseteq> insert (pair\<lparr>cp_nominated := True\<rparr>) (set (pairs a))"
    using a' set_update_subset_insert [of "pairs a" i] by simp
  moreover have "pair_awaits tid (pair\<lparr>cp_nominated := True\<rparr>) = pair_awaits tid pair" for tid
    by (simp add: pair_awaits_def)
  ultimately show ?thesis using a' by (fastforce simp: no_new_check_def)
qed

lemma no_new_check_nomination:
  assumes "poll_nomination a = Some a'"
  shows "no_new_check a a'"
proof -
  have one: "no_new_check b b'" if "poll_nomination_of_component b c = Some b'" for b b' c
    using nomination_controlling [OF that] nomination_controlled [OF that] no_new_check_nominates paced.R_refl
    by metis
  from assms show ?thesis unfolding poll_nomination_def
    by (rule paced.seq_rel) (auto intro: one paced.R_refl split: if_splits)
qed

text \<open>
  Checks are paced: a poll less than 50 milliseconds after the last started check starts
  no new one. Every check under way afterwards was already under way for the same pair with
  the same transaction, and the time of the last check is unchanged.\<close>

theorem checks_paced:
  assumes "poll env a now random = Some a'" "last_ta_trigger a = Some t" "now < t + from_millis 50"
  shows "last_ta_trigger a' = Some t
    \<and> (\<forall>p\<in>set (pairs a'). \<forall>tid. pair_awaits tid p \<longrightarrow>
         (\<exists>p0\<in>set (pairs a). cp_local p0 = cp_local p \<and> cp_remote p0 = cp_remote p \<and> pair_awaits tid p0))"
proof -
  from poll_phases [OF assms(1)] obtain bs evs b c where
    b: "poll_retransmit (a\<lparr>stun_server := bs, events := events a @ evs\<rparr>) now = Some b"
    and c: "poll_nomination (poll_state b) = Some c"
    and a': "poll_check env c now (random (length (stun_server c))) = Some a'" by blast
  have "no_new_check a (a\<lparr>stun_server := bs, events := events a @ evs\<rparr>)" "no_new_check b (poll_state b)"
    by (auto simp: no_new_check_def poll_state_frame)
  with no_new_check_retransmit [OF b] no_new_check_nomination [OF c] have ac: "no_new_check a c"
    using paced.R_trans by blast
  then have "last_ta_trigger c = Some t" using assms(2) by (simp add: no_new_check_def)
  with a' assms(3) have "a' = c" by (auto simp: poll_check_def split: option.splits)
  with ac assms(2) show ?thesis by (auto simp: no_new_check_def)
qed

theorem checks_paced_witness:
  "\<exists>a'. poll sample_env (sample_agent\<lparr>last_ta_trigger := Some 10\<rparr>) 11 (\<lambda>_. TransactionId []) = Some a'
     \<and> last_ta_trigger a' = Some 10"
proof -
  have "poll sample_env (sample_agent\<lparr>last_ta_trigger := Some 10\<rparr>) 11 (\<lambda>_. TransactionId []) \<noteq> None"
    by (simp add: poll_def sample_agent_def new_from_answer_def poll_retransmit_def poll_state_def Let_def
        set_gathering_state_def set_connection_state_def push_event_def has_nomination_def in_progress_def
        poll_nomination_def poll_nomination_of_component_def poll_check_def next_check_def from_millis_def)
  then show ?thesis
    using checks_paced [of sample_env "sample_agent\<lparr>last_ta_trigger := Some 10\<rparr>" 11]
    by (force simp: from_millis_def)
qed

section \<open>Authentication\<close>

lemma fingerprint_keeps_message:
  assumes "message_parse buf = Inr msg"
  shows "\<exists>r. attribute Fingerprint msg = (r, msg)"
proof (cases "find_attribute False TYPE_Fingerprint (msg_attributes msg)")
  case None
  then show ?thesis by (simp add: attribute_def attribute_with_def)
next
  case (Some sp)
  with fp.accepts_iff [OF assms, of sp "()"] show ?thesis by (auto simp: attribute_def)
qed

text \<open>
  C26: Once the peer's credentials are known, a message that fails the integrity check and is
  not the answer that a binding to a STUN server waits for has no effect, whatever its class:
  the agent after receiving it is the agent before.\<close>

theorem forged_message_ignored:
  assumes "message_parse (pkt_data pkt) = Inr msg" "remote_credentials a = Some rc"
    and "\<not> fst (verify_integrity (env_hmac env) (local_credentials a) rc msg)"
    and "\<forall>b\<in>set (stun_server a). \<not> wants_stun_response b (msg_transaction_id msg)"
  shows "receive env a now pkt = Some a"
proof -
  obtain m' where v: "verify_integrity (env_hmac env) (local_credentials a) rc msg = (False, m')"
    using assms(3) by (metis prod.collapse)
  obtain r where f: "attribute Fingerprint msg = (r, msg)"
    using fingerprint_keeps_message [OF assms(1)] by blast
  have "server_response bs cfg now msg = Some (bs, None)"
    if "\<forall>b\<in>set bs. \<not> wants_stun_response b (msg_transaction_id msg)" for bs cfg
    using that by (induction bs) auto
  with assms(4) have "server_response (stun_server a) (stun_config a) now msg = Some (stun_server a, None)" by blast
  then show ?thesis
    using assms(1,2) v f
    by (auto simp: receive_def receive_stun_def receive_stun_request_def receive_stun_success_def
        receive_stun_error_def split: Class.split)
qed

lemma wrong_key_rejected:
  assumes "message_parse bs = Inr msg" "attribute_with (MessageIntegrity hmac) key msg = (Some (Inr ()), msg)"
    and "\<And>d. hmac key d \<noteq> hmac key' d"
  shows "\<not> is_some_ok (fst (attribute_with (MessageIntegrity hmac) key' msg))"
proof (cases "find_attribute False TYPE_MessageIntegrity (msg_attributes msg)")
  case None
  then show ?thesis by (simp add: attribute_with_def is_some_ok_def)
next
  case (Some sp)
  with mi.accepts_iff [OF assms(1), of hmac sp key] mi.accepts_iff [OF assms(1), of hmac sp key'] assms(2,3)
  show ?thesis by (auto simp: is_some_ok_def split: sum.splits) (metis obj_sumE unit_eq)
qed

theorem forged_message_ignored_witness:
  "\<exists>bs msg. message_parse bs = Inr msg \<and> msg_class msg = Request \<and> attribute Fingerprint msg = (Some (Inr ()), msg)
    \<and> attribute_with (MessageIntegrity (env_hmac sample_env)) [101] msg = (Some (Inr ()), msg)
    \<and> receive sample_env sample_agent 0 \<lparr>pkt_data = bs, pkt_source = SockV4 1 2,
         pkt_destination = SockV4 3 4, pkt_component = Rtp\<rparr> = Some sample_agent"
proof -
  have tid: "length (replicate 12 (1 :: u8)) = 12" and hmac: "length (env_hmac sample_env [101] d) = 20" for d
    by (simp_all add: sample_env_def)
  from sealed_and_parsed [where hmac = "env_hmac sample_env" and key = "[101]", OF builder_holds_new [OF tid, of Request Binding] hmac]
  obtain bs msg where msg: "message_parse bs = Inr msg" "msg_class msg = Request"
    "attribute_with (MessageIntegrity (env_hmac sample_env)) [101] msg = (Some (Inr ()), msg)" "attribute Fingerprint msg = (Some (Inr ()), msg)"
    by auto
  have "env_hmac sample_env [101] d \<noteq> env_hmac sample_env [98] d" for d by (simp add: sample_env_def)
  from wrong_key_rejected [OF msg(1,3) this] have "\<not> fst (verify_integrity (env_hmac sample_env) \<lparr>ufrag = [97], pwd = [98]\<rparr> \<lparr>ufrag = [99], pwd = [100]\<rparr> msg)"
    using msg(2) by (simp add: verify_integrity_def case_prod_beta Let_def)
  then have "receive sample_env sample_agent 0 \<lparr>pkt_data = bs, pkt_source = SockV4 1 2, pkt_destination = SockV4 3 4, pkt_component = Rtp\<rparr> = Some sample_agent"
    using msg(1) by (intro forged_message_ignored) (simp_all add: sample_agent_def new_from_answer_def Let_def)
  then show ?thesis using msg by blast
qed

text \<open>
  A peer can crash the agent: an authenticated request that lacks the PRIORITY attribute
  makes the agent panic on receipt, whatever its state.\<close>

theorem request_without_priority_panics:
  assumes "remote_credentials a = Some rc" and tid: "length tid = 12"
    and hmac: "\<And>d. length (env_hmac env (pwd (local_credentials a)) d) = 20"
    and user: "utf8_valid (ufrag (local_credentials a) @ [0x3A] @ ufrag rc)"
      "length (ufrag (local_credentials a)) + length (ufrag rc) < 64000"
  shows "\<exists>b1 b2 b3 bs. add_attr Username (ufrag (local_credentials a) @ [0x3A] @ ufrag rc)
        (builder_new Request Binding (TransactionId tid)) = Some b1
    \<and> add_attr_with (MessageIntegrity (env_hmac env)) () (pwd (local_credentials a)) b1 = Some b2
    \<and> add_attr Fingerprint () b2 = Some b3 \<and> builder_finish b3 = Some bs
    \<and> (\<forall>now pkt. pkt_data pkt = bs \<longrightarrow> receive env a now pkt = None)"
proof -
  let ?u = "ufrag (local_credentials a) @ [0x3A] @ ufrag rc" and ?k = "pwd (local_credentials a)"
  let ?es = "[(6, ?u)] :: tlv list"
  have len: "length ?u < 65000" using user(2) by simp
  obtain b1 where b1: "add_attr Username ?u (builder_new Request Binding (TransactionId tid)) = Some b1"
    "builder_holds b1 Request Binding tid ?es"
    using string_attr.add_attr_holds [where T = 6, OF builder_holds_new [OF tid, of Request Binding], of ?u] user len
    by (auto simp: string_attribute_def)
  have small: "length (tlvs_bytes ?es) + 32 < 65536"
    using len padding_usize_less [of "length ?u"] by (simp add: length_tlv_bytes)
  have plain: "\<forall>e\<in>set ?es. fst e \<notin> sealing_types" by simp
  from sealed_and_parsed [where hmac = "env_hmac env" and key = ?k, OF b1(2) hmac plain small] obtain b2 b3 bs msg where
    fin: "add_attr_with (MessageIntegrity (env_hmac env)) () ?k b1 = Some b2" "add_attr Fingerprint () b2 = Some b3"
      "builder_finish b3 = Some bs" "message_parse bs = Inr msg"
    and msg: "msg_class msg = Request"
    and seal: "attribute_with (MessageIntegrity (env_hmac env)) ?k msg = (Some (Inr ()), msg)"
      "attribute Fingerprint msg = (Some (Inr ()), msg)"
    and look: "\<And>T. T \<notin> sealing_types \<Longrightarrow> tlv_find False T (map (span_tlv (msg_buffer msg)) (msg_attributes msg))
       = find (\<lambda>e. fst e = T) ?es" by blast
  have "attribute Username msg = (Some (Inr ?u), msg)"
    using look [of 6] user len by (intro string_attr.attribute_reads) (auto simp: string_attribute_def)
  then have "verify_integrity (env_hmac env) (local_credentials a) rc msg = (True, msg)"
    using seal msg by (simp add: verify_integrity_def is_some_ok_def)
  moreover have "attribute Priority msg = (None, msg)"
    using look [of "0x24"] by (intro attribute_missing) (simp add: Priority_def int_attribute_def)
  ultimately have "receive env a now pkt = None" if "pkt_data pkt = bs" for now pkt
    using that fin(4) msg seal(2) assms(1)
    by (simp add: receive_def receive_stun_def receive_stun_request_def is_some_ok_def)
  with b1(1) fin show ?thesis by blast
qed

theorem request_without_priority_panics_witness:
  "\<exists>bs. receive sample_env sample_agent 0 \<lparr>pkt_data = bs, pkt_source = SockV4 1 2,
     pkt_destination = SockV4 3 4, pkt_component = Rtp\<rparr> = None"
proof -
  let ?rc = "\<lparr>ufrag = [99], pwd = [100]\<rparr> :: IceCredentials"
  have "remote_credentials sample_agent = Some ?rc"
    "length (env_hmac sample_env (pwd (local_credentials sample_agent)) d) = 20"
    "utf8_valid (ufrag (local_credentials sample_agent) @ [0x3A] @ ufrag ?rc)"
    "length (ufrag (local_credentials sample_agent)) + length (ufrag ?rc) < 64000" for d
    by (simp_all add: sample_agent_def new_from_answer_def sample_env_def)
  from request_without_priority_panics [OF this(1) _ this(2-4), of "replicate 12 1"] obtain bs where
    "\<forall>now pkt. pkt_data pkt = bs \<longrightarrow> receive sample_env sample_agent now pkt = None" by auto
  then show ?thesis by (intro exI [of _ bs]) simp
qed

end
