(* ===== verification/Sip_Headers.thy ===== *)
theory Sip_Headers
  imports Prelude
begin

text \<open>
  The header map of a SIP message (\<^verbatim>\<open>sip/sip-types/src/header/headers.rs\<close>): a list of
  entries, one per name, each with one or more values in order; and the comparison of header
  names (\<^verbatim>\<open>sip/sip-types/src/header/name.rs\<close>). A name is its printed form together with
  the spellings it is recognised by. Values are the printed headers, so that typed headers
  enter with the values their implementation prints.
\<close>

section \<open>Names\<close>

datatype Name = Name (as_print_str: bytes) (as_parse_strs: "bytes list option")

definition ascii_lower_byte :: "u8 \<Rightarrow> u8" where
  "ascii_lower_byte b = (if 65 \<le> b \<and> b \<le> 90 then b + 32 else b)"

definition eq_ignore_ascii_case :: "bytes \<Rightarrow> bytes \<Rightarrow> bool" where
  "eq_ignore_ascii_case a b \<longleftrightarrow> map ascii_lower_byte a = map ascii_lower_byte b"

definition name_eq_str :: "Name \<Rightarrow> bytes \<Rightarrow> bool" where
  "name_eq_str self other \<longleftrightarrow> eq_ignore_ascii_case (as_print_str self) other
     \<or> (case as_parse_strs self of
          Some strs \<Rightarrow> list_ex (\<lambda>s. eq_ignore_ascii_case s other) strs | None \<Rightarrow> False)"

definition name_eq :: "Name \<Rightarrow> Name \<Rightarrow> bool" where
  "name_eq self other \<longleftrightarrow> name_eq_str self (as_print_str other)
     \<or> (case as_parse_strs other of
          Some strs \<Rightarrow> list_ex (name_eq_str self) strs | None \<Rightarrow> False)"

section \<open>Values\<close>

datatype OneOrMore = One bytes | More "bytes list"

fun oom_push :: "OneOrMore \<Rightarrow> bytes \<Rightarrow> OneOrMore" where
  "oom_push (One existing_value) v = More [existing_value, v]"
| "oom_push (More vec) v = More (vec @ [v])"

fun oom_extend :: "OneOrMore \<Rightarrow> bytes list \<Rightarrow> OneOrMore" where
  "oom_extend (One v) vs = (if vs \<noteq> [] then More (v # vs) else One v)"
| "oom_extend (More vec) vs = More (vec @ vs)"

fun oom_values :: "OneOrMore \<Rightarrow> bytes list" where
  "oom_values (One v) = [v]"
| "oom_values (More vec) = vec"

lemma oom_values_push [simp]: "oom_values (oom_push x v) = oom_values x @ [v]"
  by (cases x) auto

lemma oom_values_extend [simp]: "oom_values (oom_extend x vs) = oom_values x @ vs"
  by (cases x) auto

section \<open>The map\<close>

record Entry =
  en_name :: Name
  en_values :: OneOrMore

type_synonym Headers = "Entry list"

definition entry :: "Headers \<Rightarrow> Name \<Rightarrow> Entry option" where
  "entry self n = find (\<lambda>e. name_eq (en_name e) n) self"

definition headers_contains :: "Headers \<Rightarrow> Name \<Rightarrow> bool" where
  "headers_contains self name \<longleftrightarrow> (\<exists>e\<in>set self. name_eq (en_name e) name)"

definition push_value :: "Name \<Rightarrow> bytes \<Rightarrow> Headers \<Rightarrow> Headers" where
  "push_value name v self =
     update_first (\<lambda>e. name_eq (en_name e) name) (\<lambda>e. e\<lparr>en_values := oom_push (en_values e) v\<rparr>) self"

definition headers_insert :: "Headers \<Rightarrow> Name \<Rightarrow> bytes \<Rightarrow> Headers" where
  "headers_insert self name v =
     (if entry self name \<noteq> None then push_value name v self
      else self @ [\<lparr>en_name = name, en_values = One v\<rparr>])"

definition headers_insert_front :: "Headers \<Rightarrow> Name \<Rightarrow> bytes \<Rightarrow> Headers" where
  "headers_insert_front self name v =
     (if entry self name \<noteq> None then push_value name v self
      else \<lparr>en_name = name, en_values = One v\<rparr> # self)"

text \<open>
  \<^verbatim>\<open>insert_type\<close> and \<^verbatim>\<open>insert_type_front\<close> for a typed header given by its implementation
  of \<^verbatim>\<open>ExtendValues\<close>: how it extends present values and the values it creates.
\<close>

record Extend =
  extend_values :: "OneOrMore \<Rightarrow> OneOrMore"
  create_values :: OneOrMore

definition insert_type :: "Headers \<Rightarrow> Name \<Rightarrow> Extend \<Rightarrow> Headers" where
  "insert_type self name header =
     (if entry self name \<noteq> None
      then update_first (\<lambda>e. name_eq (en_name e) name) (\<lambda>e. e\<lparr>en_values := extend_values header (en_values e)\<rparr>) self
      else self @ [\<lparr>en_name = name, en_values = create_values header\<rparr>])"

definition insert_type_front :: "Headers \<Rightarrow> Name \<Rightarrow> Extend \<Rightarrow> Headers" where
  "insert_type_front self name header =
     (if entry self name \<noteq> None
      then update_first (\<lambda>e. name_eq (en_name e) name) (\<lambda>e. e\<lparr>en_values := extend_values header (en_values e)\<rparr>) self
      else \<lparr>en_name = name, en_values = create_values header\<rparr> # self)"

text \<open>A header that is printed as one value each time, as \<^verbatim>\<open>Via\<close> is.\<close>

definition single_value :: "bytes \<Rightarrow> Extend" where
  "single_value v = \<lparr>extend_values = (\<lambda>x. oom_push x v), create_values = One v\<rparr>"

text \<open>A header that replaces its value, as \<^verbatim>\<open>From\<close>, \<^verbatim>\<open>CSeq\<close> and \<^verbatim>\<open>Max-Forwards\<close> do.\<close>

definition replacing_value :: "bytes \<Rightarrow> Extend" where
  "replacing_value v = \<lparr>extend_values = (\<lambda>_. One v), create_values = One v\<rparr>"

text \<open>A header that joins its values with commas, as \<^verbatim>\<open>Contact\<close>, \<^verbatim>\<open>Route\<close> and \<^verbatim>\<open>Allow\<close> do. The source expects a list of several values to
  have a last one; the header map never builds an empty list, for which the model keeps it.\<close>

fun oom_append_last :: "OneOrMore \<Rightarrow> bytes \<Rightarrow> OneOrMore" where
  "oom_append_last (One v) s = One (v @ s)"
| "oom_append_last (More vs) s = (if vs = [] then More [] else More (butlast vs @ [last vs @ s]))"

definition comma_value :: "bytes \<Rightarrow> Extend" where
  "comma_value v = \<lparr>extend_values = (\<lambda>x. oom_append_last x (ascii '', '' @ v)), create_values = One v\<rparr>"

fun remove_where :: "('a \<Rightarrow> bool) \<Rightarrow> 'a list \<Rightarrow> ('a \<times> 'a list) option" where
  "remove_where f [] = None"
| "remove_where f (x # xs) =
     (if f x then Some (x, xs) else map_option (\<lambda>(y, ys). (y, x # ys)) (remove_where f xs))"

definition headers_remove :: "Headers \<Rightarrow> Name \<Rightarrow> bytes list option \<times> Headers" where
  "headers_remove self name =
     (case remove_where (\<lambda>e. name_eq name (en_name e)) self of
        None \<Rightarrow> (None, self)
      | Some (e, rest) \<Rightarrow> (Some (oom_values (en_values e)), rest))"

datatype HeaderError = Missing Name | Malformed Name

text \<open>
  A typed header is decoded from the list of the values of its entry; \<open>None\<close> is the parse
  error. The \<^verbatim>\<open>_named\<close> variants are these functions at the name of the type.
\<close>

definition headers_try_get :: "Headers \<Rightarrow> Name \<Rightarrow> (bytes list \<Rightarrow> 'h option) \<Rightarrow> (HeaderError, 'h) result option" where
  "headers_try_get self name decode =
     map_option (\<lambda>e. ok_or (decode (oom_values (en_values e))) (Malformed name)) (entry self name)"

definition headers_get :: "Headers \<Rightarrow> Name \<Rightarrow> (bytes list \<Rightarrow> 'h option) \<Rightarrow> (HeaderError, 'h) result" where
  "headers_get self name decode =
     (case headers_try_get self name decode of Some res \<Rightarrow> res | None \<Rightarrow> Inl (Missing name))"

definition headers_try_take :: "Headers \<Rightarrow> Name \<Rightarrow> (bytes list \<Rightarrow> 'h option) \<Rightarrow> (HeaderError, 'h) result option \<times> Headers" where
  "headers_try_take self name decode =
     (case remove_where (\<lambda>e. name_eq (en_name e) name) self of
        None \<Rightarrow> (None, self)
      | Some (e, rest) \<Rightarrow> (Some (ok_or (decode (oom_values (en_values e))) (Malformed name)), rest))"

definition headers_take :: "Headers \<Rightarrow> Name \<Rightarrow> (bytes list \<Rightarrow> 'h option) \<Rightarrow> 'h option \<times> Headers" where
  "headers_take self name decode =
     (case headers_try_take self name decode of
        (Some (Inr h), rest) \<Rightarrow> (Some h, rest) | (_, rest) \<Rightarrow> (None, rest))"

definition headers_edit ::
    "Headers \<Rightarrow> Name \<Rightarrow> (bytes list \<Rightarrow> 'h option) \<Rightarrow> ('h \<Rightarrow> OneOrMore) \<Rightarrow> ('h \<Rightarrow> 'h) \<Rightarrow> (HeaderError, Headers) result" where
  "headers_edit self name decode create edit =
     bind_res (headers_get self name decode) (\<lambda>header.
       Inr (update_first (\<lambda>e. name_eq (en_name e) name) (\<lambda>e. e\<lparr>en_values := create (edit header)\<rparr>) self))"

definition clone_into :: "Headers \<Rightarrow> Headers \<Rightarrow> Name \<Rightarrow> (HeaderError, Headers) result" where
  "clone_into self dest name =
     (case entry self name of
        None \<Rightarrow> Inl (Missing name)
      | Some e \<Rightarrow> Inr (fold (\<lambda>v dest. headers_insert dest name v) (oom_values (en_values e)) dest))"

definition drain_into :: "Headers \<Rightarrow> Headers \<Rightarrow> Headers \<times> Headers" where
  "drain_into self dst =
     ([], fold (\<lambda>e dst. fold (\<lambda>v dst. headers_insert dst (en_name e) v) (oom_values (en_values e)) dst) self dst)"

definition headers_iter :: "Headers \<Rightarrow> (Name \<times> bytes) list" where
  "headers_iter self = concat (map (\<lambda>e. map (Pair (en_name e)) (oom_values (en_values e))) self)"

definition printed_len :: "Headers \<Rightarrow> nat" where
  "printed_len self = sum_list (map (\<lambda>(n, v). length (as_print_str n) + length v + 4) (headers_iter self))"

text \<open>\<^verbatim>\<open>Display\<close>: one line per value.\<close>

definition headers_display :: "Headers \<Rightarrow> bytes" where
  "headers_display self = concat (map (\<lambda>(n, v). as_print_str n @ [0x3A, 0x20] @ v @ [0x0D, 0x0A]) (headers_iter self))"

lemma printed_len_display: "printed_len h = length (headers_display h)"
  by (simp add: printed_len_def headers_display_def length_concat comp_def case_prod_unfold numeral_eq_Suc)

section \<open>The map as a function\<close>

text \<open>The values a lookup of a name sees.\<close>

definition values_of :: "Headers \<Rightarrow> Name \<Rightarrow> bytes list" where
  "values_of h n = (case entry h n of None \<Rightarrow> [] | Some e \<Rightarrow> oom_values (en_values e))"

text \<open>A set of names that are told apart, like the names the library defines.\<close>

definition names_apart :: "Name set \<Rightarrow> bool" where
  "names_apart N \<longleftrightarrow> (\<forall>a\<in>N. \<forall>b\<in>N. name_eq a b \<longleftrightarrow> a = b)"

definition header_names :: "Headers \<Rightarrow> Name set" where
  "header_names h = en_name ` set h"

lemma entry_append: "entry (h @ h') n = (case entry h n of Some e \<Rightarrow> Some e | None \<Rightarrow> entry h' n)"
  unfolding entry_def by (induction h) auto

lemma entry_update_first:
  assumes "\<And>e. en_name (f e) = en_name e"
  shows "entry (update_first (\<lambda>e. name_eq (en_name e) n) f h) n = map_option f (entry h n)"
  unfolding entry_def using assms by (induction h) auto

lemma entry_update_other:
  assumes "\<And>e. en_name (f e) = en_name e" "names_apart (insert n (insert m (header_names h)))" "m \<noteq> n"
  shows "entry (update_first (\<lambda>e. name_eq (en_name e) n) f h) m = entry h m"
  using assms(2)
proof (induction h)
  case Nil
  then show ?case by (simp add: entry_def)
next
  case (Cons e h)
  have IH: "entry (update_first (\<lambda>e. name_eq (en_name e) n) f h) m = entry h m"
    using Cons by (intro Cons.IH) (auto simp: names_apart_def header_names_def)
  have "name_eq (en_name e) n \<Longrightarrow> \<not> name_eq (en_name e) m"
    using Cons.prems assms(3) by (auto simp: names_apart_def header_names_def)
  with IH show ?case using assms(1) by (auto simp: entry_def)
qed

lemma entry_find_name: "entry h n = Some e \<Longrightarrow> name_eq (en_name e) n \<and> e \<in> set h"
  unfolding entry_def by (auto simp: find_Some_iff)

lemma entry_single: "name_eq n n \<Longrightarrow> entry [\<lparr>en_name = n, en_values = x\<rparr>] n = Some \<lparr>en_name = n, en_values = x\<rparr>"
  by (simp add: entry_def)

lemma entry_single_other: "\<not> name_eq n m \<Longrightarrow> entry [\<lparr>en_name = n, en_values = x\<rparr>] m = None"
  by (simp add: entry_def)

lemma entry_Cons: "entry (e # h) n = (if name_eq (en_name e) n then Some e else entry h n)"
  by (simp add: entry_def)

text \<open>Values as the map holds them once more than one has been inserted.\<close>

definition oom_of :: "bytes list \<Rightarrow> OneOrMore" where
  "oom_of vs = (case vs of [v] \<Rightarrow> One v | _ \<Rightarrow> More vs)"

lemma oom_values_of [simp]: "oom_values (oom_of vs) = vs"
  by (auto simp: oom_of_def split: list.split)

lemma oom_push_of: "vs \<noteq> [] \<Longrightarrow> oom_push (oom_of vs) v = oom_of (vs @ [v])"
  by (cases vs; cases "tl vs") (auto simp: oom_of_def)

text \<open>Inserting the values of a header that the map does not have yet.\<close>

lemma fold_insert_new:
  assumes "entry dest n = None" "name_eq n n" "vs \<noteq> []"
  shows "fold (\<lambda>v d. headers_insert d n v) vs dest = dest @ [\<lparr>en_name = n, en_values = oom_of vs\<rparr>]"
  using assms(3)
proof (induction vs rule: rev_nonempty_induct)
  case (single v)
  then show ?case using assms(1) by (simp add: headers_insert_def oom_of_def)
next
  case (snoc v vs)
  let ?x = "\<lparr>en_name = n, en_values = oom_of vs\<rparr>"
  have "update_first (\<lambda>e. name_eq (en_name e) n) f (dest @ [?x]) = dest @ [f ?x]" for f
    using assms(1,2) unfolding entry_def by (induction dest) (auto split: if_splits)
  then show ?case
    using snoc assms(1,2) by (simp add: headers_insert_def push_value_def entry_append entry_Cons oom_push_of)
qed

text \<open>
  The header map is an ordered multimap: inserting a value appends it to the values of
  its name and leaves every other name's values alone, whether it is inserted at the end or
  at the front. In particular a value inserted at the front of a header that is already
  there becomes its last value, not its first.\<close>

theorem headers_insert_appends:
  assumes "names_apart (insert n (insert m (header_names h)))" "m \<noteq> n"
  shows "values_of (headers_insert h n v) n = values_of h n @ [v]
    \<and> values_of (headers_insert_front h n v) n = values_of h n @ [v]
    \<and> values_of (insert_type_front h n (single_value v)) n = values_of h n @ [v]
    \<and> values_of (headers_insert h n v) m = values_of h m
    \<and> values_of (headers_insert_front h n v) m = values_of h m
    \<and> values_of (insert_type_front h n (single_value v)) m = values_of h m"
proof -
  have nn: "name_eq n n" and nm: "\<not> name_eq n m"
    using assms by (auto simp: names_apart_def)
  show ?thesis
  proof (cases "entry h n")
    case None
    then show ?thesis
      using nn nm
      by (auto simp: values_of_def headers_insert_def headers_insert_front_def insert_type_front_def
          single_value_def entry_append entry_Cons entry_def [of "[]"] split: option.split)
  next
    case (Some e)
    have other: "entry (push_value n v h) m = entry h m"
      unfolding push_value_def using assms by (intro entry_update_other) auto
    moreover have "entry (push_value n v h) n = Some (e\<lparr>en_values := oom_push (en_values e) v\<rparr>)"
      unfolding push_value_def using Some by (simp add: entry_update_first)
    ultimately show ?thesis
      using Some
      by (auto simp: values_of_def headers_insert_def headers_insert_front_def insert_type_front_def
          single_value_def push_value_def split: option.split)
  qed
qed

definition VIA :: Name where "VIA = Name (ascii ''Via'') (Some [ascii ''via'', ascii ''v''])"
definition FROM :: Name where "FROM = Name (ascii ''From'') (Some [ascii ''from'', ascii ''f''])"

lemma names_apart_sample: "names_apart {VIA, FROM}"
  by code_simp

theorem headers_insert_appends_witness:
  "values_of (headers_insert_front [\<lparr>en_name = VIA, en_values = One [1]\<rparr>] VIA [2]) VIA = [[1], [2]]"
proof -
  have "names_apart (insert VIA (insert FROM (header_names [\<lparr>en_name = VIA, en_values = One [1]\<rparr>])))"
    using names_apart_sample by (simp add: header_names_def insert_commute)
  moreover have "FROM \<noteq> VIA" by code_simp
  moreover have "values_of [\<lparr>en_name = VIA, en_values = One [1]\<rparr>] VIA = [[1]]" by code_simp
  ultimately show ?thesis
    using headers_insert_appends [of VIA FROM "[\<lparr>en_name = VIA, en_values = One [1]\<rparr>]" "[2]"] by simp
qed

end
