(* ===== verification/Sip_Types.thy ===== *)
theory Sip_Types
  imports Sip_Headers "HOL-Library.Sublist"
begin

text \<open>
  Value types of SIP messages that the transaction layer relies on: methods
  (\<^verbatim>\<open>sip/sip-types/src/method.rs\<close>), status codes (\<^verbatim>\<open>code.rs\<close>), parameters
  (\<^verbatim>\<open>uri/params.rs\<close>), hosts (\<^verbatim>\<open>host.rs\<close>) and the headers \<^verbatim>\<open>CSeq\<close>, \<^verbatim>\<open>Call-ID\<close> and
  \<^verbatim>\<open>Via\<close>. Text is a byte string and is read as ASCII. A parser takes the text and returns
  the rest and the value, or \<open>None\<close> for the error of the nom parser.
\<close>

type_synonym 'a parser = "bytes \<Rightarrow> (bytes \<times> 'a) option"

section \<open>Characters\<close>

definition is_digit :: "u8 \<Rightarrow> bool" where
  "is_digit c \<longleftrightarrow> 0x30 \<le> c \<and> c \<le> 0x39"

definition is_alphanumeric :: "u8 \<Rightarrow> bool" where
  "is_alphanumeric c \<longleftrightarrow> is_digit c \<or> 0x41 \<le> c \<and> c \<le> 0x5A \<or> 0x61 \<le> c \<and> c \<le> 0x7A"

definition whitespace :: "u8 \<Rightarrow> bool" where
  "whitespace c \<longleftrightarrow> c \<in> set [0x20, 0x09, 0x0D, 0x0A]"

definition token :: "u8 \<Rightarrow> bool" where
  "token c \<longleftrightarrow> is_alphanumeric c \<or> c \<in> set (ascii ''-.!%*_`'' @ [0x27] @ ascii ''~+'')"

text \<open>\<^verbatim>\<open>str::trim\<close>, on ASCII text.\<close>

definition is_whitespace :: "u8 \<Rightarrow> bool" where
  "is_whitespace c \<longleftrightarrow> c \<in> set [0x20, 0x09, 0x0A, 0x0B, 0x0C, 0x0D]"

definition trim_start :: "bytes \<Rightarrow> bytes" where
  "trim_start s = dropWhile is_whitespace s"

definition trim :: "bytes \<Rightarrow> bytes" where
  "trim s = rev (trim_start (rev (trim_start s)))"

section \<open>Decimal numbers\<close>

fun decimal :: "nat \<Rightarrow> bytes" where
  "decimal n = (if n < 10 then [of_nat (0x30 + n)] else decimal (n div 10) @ [of_nat (0x30 + n mod 10)])"

declare decimal.simps [simp del]

definition digits_value :: "bytes \<Rightarrow> nat" where
  "digits_value ds = foldl (\<lambda>acc d. 10 * acc + (unat d - 0x30)) 0 ds"

text \<open>\<^verbatim>\<open>u32::from_str\<close> on a non-empty string of digits.\<close>

definition u32_from_digits :: "bytes \<Rightarrow> u32 option" where
  "u32_from_digits ds = (if int (digits_value ds) < 2 ^ 32 then Some (of_nat (digits_value ds)) else None)"

lemma unat_digit: "n < 10 \<Longrightarrow> unat (of_nat (0x30 + n) :: u8) = 0x30 + n"
  by (simp only: unat_of_nat) (simp add: take_bit_nat_eq_self)

lemma digits_value_decimal: "digits_value (decimal n) = n"
proof (induction n rule: decimal.induct)
  case (1 n)
  then show ?case
    by (subst decimal.simps) (auto simp: digits_value_def unat_digit simp del: of_nat_add)
qed

lemma decimal_digits: "\<forall>d\<in>set (decimal n). is_digit d" and decimal_nonempty: "decimal n \<noteq> []"
proof -
  have digit: "is_digit (of_nat (0x30 + m))" if "m < 10" for m
    using unat_digit [OF that] that by (simp add: is_digit_def word_le_nat_alt del: of_nat_add)
  show "\<forall>d\<in>set (decimal n). is_digit d"
  proof (induction n rule: decimal.induct)
    case (1 n)
    then show ?case
      using digit [of n] digit [of "n mod 10"] by (subst decimal.simps) auto
  qed
  show "decimal n \<noteq> []" by (subst decimal.simps) auto
qed

lemma u32_from_decimal: "u32_from_digits (decimal (unat (w :: u32))) = Some w"
  using unsigned_less [of w] by (simp add: u32_from_digits_def digits_value_decimal)

section \<open>Methods\<close>

datatype SipMethod = INVITE | ACK | CANCEL | BYE | REGISTER | MESSAGE | UPDATE | PRACK | OPTIONS
  | SUBSCRIBE | NOTIFY | PUBLISH | INFO | REFER | OtherMethod bytes

definition methods :: "(bytes \<times> SipMethod) list" where
  "methods =
    [(ascii ''INVITE'', INVITE), (ascii ''ACK'', ACK), (ascii ''CANCEL'', CANCEL), (ascii ''BYE'', BYE),
     (ascii ''REGISTER'', REGISTER), (ascii ''MESSAGE'', MESSAGE), (ascii ''UPDATE'', UPDATE),
     (ascii ''PRACK'', PRACK), (ascii ''OPTIONS'', OPTIONS), (ascii ''SUBSCRIBE'', SUBSCRIBE),
     (ascii ''NOTIFY'', NOTIFY), (ascii ''PUBLISH'', PUBLISH), (ascii ''INFO'', INFO),
     (ascii ''REFER'', REFER)]"

text \<open>nom's \<^verbatim>\<open>tag_no_case\<close>: the tag is a prefix of the input, ignoring ASCII case.\<close>

definition tag_no_case :: "bytes \<Rightarrow> bytes \<Rightarrow> bool" where
  "tag_no_case p s \<longleftrightarrow> length p \<le> length s \<and> eq_ignore_ascii_case p (take (length p) s)"

definition method_from_parse :: "bytes \<Rightarrow> SipMethod" where
  "method_from_parse s =
     (case find (\<lambda>(p, _). tag_no_case p s) methods of
        Some (_, m) \<Rightarrow> m | None \<Rightarrow> OtherMethod s)"

fun method_print :: "SipMethod \<Rightarrow> bytes" where
  "method_print (OtherMethod other) = other"
| "method_print m = (case find (\<lambda>(_, m'). m' = m) methods of Some (p, _) \<Rightarrow> p | None \<Rightarrow> [])"

definition method_parse :: "SipMethod parser" where
  "method_parse i =
     (if takeWhile token i = [] then None
      else Some (dropWhile token i, method_from_parse (takeWhile token i)))"

text \<open>The methods the program can print and read back: the known ones, and other tokens that
  do not start like a known one.\<close>

fun method_wf :: "SipMethod \<Rightarrow> bool" where
  "method_wf (OtherMethod s) \<longleftrightarrow> s \<noteq> [] \<and> list_all token s \<and> list_all (\<lambda>(p, _). \<not> tag_no_case p s) methods"
| "method_wf _ \<longleftrightarrow> True"

lemma tag_no_case_prefix: "tag_no_case p s \<longleftrightarrow> prefix (map ascii_lower_byte p) (map ascii_lower_byte s)"
proof
  assume "tag_no_case p s"
  then have "map ascii_lower_byte p = take (length p) (map ascii_lower_byte s)"
    by (simp add: tag_no_case_def eq_ignore_ascii_case_def take_map)
  then show "prefix (map ascii_lower_byte p) (map ascii_lower_byte s)"
    using take_is_prefix [of "length p" "map ascii_lower_byte s"] by simp
next
  assume "prefix (map ascii_lower_byte p) (map ascii_lower_byte s)"
  then have "map ascii_lower_byte p = take (length p) (map ascii_lower_byte s)" "length p \<le> length s"
    by (auto simp: prefix_def dest: arg_cong [of _ _ length] map_eq_append_conv [THEN iffD1])
  then show "tag_no_case p s"
    by (simp add: tag_no_case_def eq_ignore_ascii_case_def take_map)
qed

lemma tag_no_case_linear:
  "tag_no_case p s \<Longrightarrow> tag_no_case q s \<Longrightarrow> tag_no_case p q \<or> tag_no_case q p"
  unfolding tag_no_case_prefix by (rule prefix_same_cases)

lemma methods_prefix_free:
  "list_all (\<lambda>(p, m). list_all (\<lambda>(q, m'). tag_no_case p q \<longrightarrow> m = m') methods) methods"
  by code_simp

lemma method_from_parse_prefix:
  assumes "(p, m) \<in> set methods" "tag_no_case p s"
  shows "method_from_parse s = m"
proof -
  obtain q m' where q: "find (\<lambda>(p, _). tag_no_case p s) methods = Some (q, m')"
    using assms by (cases "find (\<lambda>(p, _). tag_no_case p s) methods") (auto simp: find_None_iff)
  then have "tag_no_case q s" "(q, m') \<in> set methods"
    by (auto simp: find_Some_iff in_set_conv_nth intro: exI)
  then have "m = m'"
    using tag_no_case_linear [OF assms(2)] methods_prefix_free assms(1)
    unfolding list_all_iff by fastforce
  then show ?thesis using q by (simp add: method_from_parse_def)
qed

lemma methods_tokens: "list_all (\<lambda>(p, _). p \<noteq> [] \<and> list_all token p) methods"
  by code_simp

lemma method_print_known: "(\<forall>t. m \<noteq> OtherMethod t) \<Longrightarrow> (method_print m, m) \<in> set methods"
  by (cases m) (simp_all add: methods_def)

section \<open>Status codes\<close>

datatype CodeKind = Provisional | CodeSuccess | Redirection | RequestFailure | ServerFailure | GlobalFailure | Custom

type_synonym StatusCode = u16

definition code_kind :: "StatusCode \<Rightarrow> CodeKind" where
  "code_kind c =
     (if 100 \<le> c \<and> c \<le> 199 then Provisional
      else if 200 \<le> c \<and> c \<le> 299 then CodeSuccess
      else if 300 \<le> c \<and> c \<le> 399 then Redirection
      else if 400 \<le> c \<and> c \<le> 499 then RequestFailure
      else if 500 \<le> c \<and> c \<le> 599 then ServerFailure
      else if 600 \<le> c \<and> c \<le> 699 then GlobalFailure
      else Custom)"

definition status_texts :: "(StatusCode \<times> string) list" where
  "status_texts = [
    (100, ''Trying''), (180, ''Ringing''), (181, ''Call Is Being Forwarded''), (182, ''Queued''),
    (183, ''Session Progress''), (199, ''Early Dialog Terminated''), (200, ''OK''),
    (300, ''Multiple Choices''), (301, ''Moved Permanently''), (302, ''Moved Temporarily''),
    (305, ''Use Proxy''), (380, ''Alternative Service''), (400, ''Bad Request''),
    (401, ''Unauthorized''), (402, ''Payment Required''), (403, ''Forbidden''), (404, ''Not Found''),
    (405, ''Method Not Allowed''), (406, ''Not Acceptable''),
    (407, ''Proxy Authentication Required''), (408, ''Request Timeout''), (410, ''Gone''),
    (413, ''Request Entity Too Large''), (414, ''Request-URI Too Long''),
    (415, ''Unsupported Media Type''), (416, ''Unsupported URI Scheme''), (420, ''Bad Extension''),
    (421, ''Extension Required''), (422, ''Session Interval Too Small''),
    (423, ''Interval Too Brief''), (480, ''Temporarily Unavailable''),
    (481, ''Call/Transaction Does Not Exist''), (482, ''Loop Detected''), (483, ''Too Many Hops''),
    (484, ''Address Incomplete''), (485, ''Ambiguous''), (486, ''Busy Here''),
    (487, ''Request Terminated''), (488, ''Not Acceptable Here''), (489, ''Bad Event''),
    (491, ''Request Pending''), (493, ''Undecipherable''), (500, ''Server Internal Error''),
    (501, ''Not Implemented''), (502, ''Bad Gateway''), (503, ''Service Unavailable''),
    (504, ''Server Time-out''), (505, ''Version Not Supported''), (513, ''Message Too Large''),
    (600, ''Busy Everywhere''), (603, ''Decline''), (604, ''Does Not Exist Anywhere''),
    (606, ''Not Acceptable'')]"

definition code_text :: "StatusCode \<Rightarrow> bytes option" where
  "code_text c = map_option ascii (map_of status_texts c)"

definition TRYING :: StatusCode where "TRYING = 100"
definition CALL_OR_TRANSACTION_DOES_NOT_EXIST :: StatusCode where "CALL_OR_TRANSACTION_DOES_NOT_EXIST = 481"

section \<open>Parameters and hosts\<close>

record Param =
  param_name :: bytes
  param_value :: "bytes option"

type_synonym Params = "Param list"

definition param_new :: "bytes \<Rightarrow> bytes \<Rightarrow> Param" where
  "param_new name v = \<lparr>param_name = name, param_value = Some v\<rparr>"

definition params_get :: "Params \<Rightarrow> bytes \<Rightarrow> Param option" where
  "params_get self name = find (\<lambda>p. param_name p = name) self"

definition params_get_val :: "Params \<Rightarrow> bytes \<Rightarrow> bytes option" where
  "params_get_val self name = Option.bind (params_get self name) param_value"

definition params_push :: "Params \<Rightarrow> Param \<Rightarrow> Params" where
  "params_push self param = self @ [param]"

definition params_set :: "Params \<Rightarrow> bytes \<Rightarrow> bytes option \<Rightarrow> Params" where
  "params_set self name v = update_first (\<lambda>p. param_name p = name) (\<lambda>p. p\<lparr>param_value := v\<rparr>) self"

definition params_take :: "Params \<Rightarrow> bytes \<Rightarrow> bytes option \<times> Params" where
  "params_take self name =
     (case remove_where (\<lambda>p. param_name p = name) self of
        None \<Rightarrow> (None, self) | Some (p, rest) \<Rightarrow> (param_value p, rest))"

definition params_push_or_edit :: "Params \<Rightarrow> bytes \<Rightarrow> bytes \<Rightarrow> Params" where
  "params_push_or_edit self name v =
     (if params_get self name \<noteq> None then params_set self name (Some v)
      else params_push self (param_new name v))"

lemma params_get_val_set [simp]:
  "params_get_val (params_set ps n v) m =
     (if m = n then (if params_get ps n = None then None else v) else params_get_val ps m)"
  by (induction ps) (auto simp: params_get_val_def params_get_def params_set_def)

lemma params_get_val_push_or_edit [simp]:
  "params_get_val (params_push_or_edit ps n v) m = (if m = n then Some v else params_get_val ps m)"
proof (cases "params_get ps n")
  case None
  then have "params_get_val (params_push ps (param_new n v)) m
    = (if m = n then Some v else params_get_val ps m)"
    by (induction ps) (auto simp: params_get_val_def params_get_def params_push_def param_new_def split: if_splits)
  with None show ?thesis by (simp add: params_push_or_edit_def)
qed (simp add: params_push_or_edit_def)

datatype SipHost = IP6 u128 | IP4 u32 | HostName bytes

fun host_of_ip :: "IpAddr \<Rightarrow> SipHost" where
  "host_of_ip (IpV4 addr) = IP4 addr"
| "host_of_ip (IpV6 addr) = IP6 addr"

record HostPort =
  hp_host :: SipHost
  hp_port :: "u16 option"

definition hostport_of_socket :: "SocketAddr \<Rightarrow> HostPort" where
  "hostport_of_socket addr = \<lparr>hp_host = host_of_ip (sock_ip addr), hp_port = Some (sock_port addr)\<rparr>"

section \<open>Typed headers\<close>

record Via =
  via_transport :: bytes
  sent_by :: HostPort
  via_params :: Params

definition via_new :: "bytes \<Rightarrow> HostPort \<Rightarrow> bytes \<Rightarrow> Via" where
  "via_new transport sentby branch =
     \<lparr>via_transport = transport, sent_by = sentby, via_params = params_push [] (param_new (ascii ''branch'') branch)\<rparr>"

record CSeq =
  cseq_num :: u32
  cseq_method :: SipMethod

definition cseq_print :: "CSeq \<Rightarrow> bytes" where
  "cseq_print c = decimal (unat (cseq_num c)) @ [0x20] @ method_print (cseq_method c)"

definition cseq_parse :: "CSeq parser" where
  "cseq_parse i =
     (if takeWhile is_digit i = [] then None
      else Option.bind (u32_from_digits (takeWhile is_digit i)) (\<lambda>n.
        map_option (\<lambda>(rest, m). (rest, \<lparr>cseq_num = n, cseq_method = m\<rparr>))
          (method_parse (dropWhile whitespace (dropWhile is_digit i)))))"

definition call_id_parse :: "bytes parser" where
  "call_id_parse i = Some ([], trim i)"

text \<open>\<^verbatim>\<open>DecodeValues\<close> of a header that is parsed from its first value.\<close>

fun decode_first :: "'h parser \<Rightarrow> bytes list \<Rightarrow> 'h option" where
  "decode_first parse [] = None"
| "decode_first parse (value # _) = map_option snd (parse value)"

text \<open>
  \<^verbatim>\<open>DecodeValues\<close> of a vector of headers: every value is a comma-separated list. The loop
  runs with fuel; \<open>vec_items_fuel\<close> shows that the length of the value is enough for a parser
  that returns a suffix of its input, as the nom parsers do.
\<close>

fun vec_items :: "nat \<Rightarrow> 'h parser \<Rightarrow> bytes \<Rightarrow> 'h list" where
  "vec_items 0 parse i = []"
| "vec_items (Suc n) parse i =
     (case parse i of
        None \<Rightarrow> []
      | Some (remaining, hdr) \<Rightarrow>
          hdr # (case trim_start remaining of
                   c # cs \<Rightarrow> if c = 0x2C then vec_items n parse (dropWhile (\<lambda>c. c = 0x2C \<or> is_whitespace c) (c # cs)) else []
                 | [] \<Rightarrow> []))"

definition decode_vec :: "'h parser \<Rightarrow> bytes list \<Rightarrow> 'h list option" where
  "decode_vec parse values = Some (concat (map (\<lambda>v. vec_items (Suc (length v)) parse v) values))"

lemma trim_start_length: "length (trim_start s) \<le> length s"
  by (simp add: trim_start_def length_dropWhile_le)

lemma vec_items_fuel:
  assumes "\<And>i r h. parse i = Some (r, h) \<Longrightarrow> length r \<le> length i"
  shows "length i < n \<Longrightarrow> length i < m \<Longrightarrow> vec_items n parse i = vec_items m parse i"
proof (induction n arbitrary: m i)
  case 0
  then show ?case by simp
next
  case (Suc n)
  obtain m' where m: "m = Suc m'" using Suc.prems(2) by (cases m) auto
  have "vec_items n parse (dropWhile P cs) = vec_items m' parse (dropWhile P cs)"
    if "parse i = Some (r, h)" "trim_start r = c # cs" for r h c cs P
  proof -
    have "length (dropWhile P cs) \<le> length cs" by (rule length_dropWhile_le)
    moreover have "length (c # cs) \<le> length i"
      using assms [OF that(1)] trim_start_length [of r] that(2) by simp
    ultimately show ?thesis using Suc m by (intro Suc.IH) auto
  qed
  then show ?case unfolding m by (auto split: option.split list.split)
qed

lemma token_not_whitespace: "token c \<Longrightarrow> \<not> whitespace c"
proof
  assume "token c" "whitespace c"
  moreover have "list_all (\<lambda>c. \<not> token c) [0x20, 0x09, 0x0D, 0x0A]" by code_simp
  ultimately show False by (auto simp: whitespace_def)
qed

lemma method_wf_token: "method_wf m \<Longrightarrow> list_all token (method_print m) \<and> method_print m \<noteq> []"
proof (cases "\<exists>t. m = OtherMethod t")
  case False
  then show ?thesis
    using method_print_known [of m] methods_tokens by (auto simp: list_all_iff)
qed auto

lemma method_from_print: "method_wf m \<Longrightarrow> method_from_parse (method_print m) = m"
proof (cases "\<exists>t. m = OtherMethod t")
  case True
  moreover assume "method_wf m"
  ultimately obtain t where "m = OtherMethod t" "list_all (\<lambda>(p, _). \<not> tag_no_case p t) methods" by auto
  then have "find (\<lambda>(p, _). tag_no_case p t) methods = None"
    by (auto simp: find_None_iff list_all_iff)
  then show ?thesis using \<open>m = OtherMethod t\<close> by (simp add: method_from_parse_def)
next
  case False
  then show ?thesis
    using method_print_known [of m] by (intro method_from_parse_prefix) (auto simp: tag_no_case_prefix)
qed

lemma method_parse_print: "method_wf m \<Longrightarrow> method_parse (method_print m) = Some ([], m)"
  using method_wf_token [of m] method_from_print [of m]
  by (simp add: method_parse_def list_all_iff takeWhile_eq_all_conv [THEN iffD2])

lemma cseq_parse_print:
  assumes "method_wf (cseq_method c)"
  shows "cseq_parse (cseq_print c) = Some ([], c)"
proof -
  have sp: "\<not> is_digit 0x20" "whitespace 0x20" by code_simp+
  have tw: "takeWhile is_digit (cseq_print c) = decimal (unat (cseq_num c))"
    and dw: "dropWhile is_digit (cseq_print c) = 0x20 # method_print (cseq_method c)"
    using decimal_digits [of "unat (cseq_num c)"] sp
    by (simp_all add: cseq_print_def takeWhile_append2 dropWhile_append2)
  have "dropWhile whitespace (0x20 # method_print (cseq_method c)) = method_print (cseq_method c)"
    using method_wf_token [OF assms] token_not_whitespace sp
    by (cases "method_print (cseq_method c)") auto
  then show ?thesis
    using method_parse_print [OF assms]
    by (simp add: cseq_parse_def tw dw decimal_nonempty u32_from_decimal)
qed

text \<open>
  A \<^verbatim>\<open>CSeq\<close> header that the program prints is read back unchanged, for every sequence
  number and every method that is known or does not start like a known one. That second
  condition is needed: any text that starts with the name of a known method, in any case,
  is read as that method, whatever follows.\<close>

theorem cseq_roundtrip:
  assumes "method_wf (cseq_method c)" "(p, m) \<in> set methods"
  shows "cseq_parse (cseq_print c) = Some ([], c) \<and> method_from_parse (p @ rest) = m"
  using assms(2) cseq_parse_print [OF assms(1)] by (auto intro: method_from_parse_prefix [of p] simp: tag_no_case_prefix)

theorem cseq_roundtrip_witness:
  "cseq_parse (cseq_print \<lparr>cseq_num = 4711, cseq_method = INVITE\<rparr>) = Some ([], \<lparr>cseq_num = 4711, cseq_method = INVITE\<rparr>)
    \<and> method_from_parse (ascii ''INFO'' @ ascii ''RMATION'') = INFO"
  using cseq_roundtrip [of "\<lparr>cseq_num = 4711, cseq_method = INVITE\<rparr>" "ascii ''INFO''" INFO "ascii ''RMATION''"]
  by (simp add: methods_def)

end
