(* ===== verification/Sip_Params.thy ===== *)
theory Sip_Params
  imports Sip_Types "HOL-Library.Monad_Syntax"
begin

text \<open>
  Text form of parameter lists and hosts (\<^verbatim>\<open>sip/sip-types/src/uri/params.rs\<close>,
  \<^verbatim>\<open>host.rs\<close>, \<^verbatim>\<open>parse.rs\<close>, \<^verbatim>\<open>macros.rs\<close>) with the whitespace-skipping sequences of
  \<^verbatim>\<open>sip/internal/src/ws.rs\<close>. The nom combinators and the percent-encoding crate are
  translated by their documented meaning on ASCII text. The text form of an IPv6 address
  belongs to the standard library and enters as a pair of functions.
\<close>

section \<open>Parsing\<close>

definition tag :: "bytes \<Rightarrow> bytes \<Rightarrow> bytes option" where
  "tag p i = (if take (length p) i = p then Some (drop (length p) i) else None)"

definition is_ascii_whitespace :: "u8 \<Rightarrow> bool" where
  "is_ascii_whitespace c \<longleftrightarrow> c \<in> set [0x20, 0x09, 0x0A, 0x0C, 0x0D]"

definition ws :: "bytes \<Rightarrow> bytes" where
  "ws i = dropWhile is_ascii_whitespace i"

text \<open>
  \<^verbatim>\<open>delimited(char('"'), escaped(is_not("\""), '\\', char('"')), char('"'))\<close>: the
  inner parser \<^verbatim>\<open>is_not\<close> takes backslashes too, so the escape never applies, and it needs
  one character at least.
\<close>

fun parse_quoted :: "bytes parser" where
  "parse_quoted (q # r) =
     (if q = 0x22 \<and> takeWhile (\<lambda>c. c \<noteq> 0x22) r \<noteq> []
      then (case dropWhile (\<lambda>c. c \<noteq> 0x22) r of
              _ # rest \<Rightarrow> Some (rest, takeWhile (\<lambda>c. c \<noteq> 0x22) r)
            | [] \<Rightarrow> None)
      else None)"
| "parse_quoted [] = None"

text \<open>\<open>ends P rest\<close>: a parser that takes characters of \<open>P\<close> stops in front of \<open>rest\<close>.\<close>

definition ends :: "(u8 \<Rightarrow> bool) \<Rightarrow> bytes \<Rightarrow> bool" where
  "ends P rest \<longleftrightarrow> (case rest of [] \<Rightarrow> True | c # _ \<Rightarrow> \<not> P c)"

lemma ends_Nil [simp]: "ends P []" and ends_Cons [simp]: "ends P (c # cs) \<longleftrightarrow> \<not> P c"
  by (simp_all add: ends_def)

lemma ends_mono: "ends P rest \<Longrightarrow> (\<And>c. Q c \<Longrightarrow> P c) \<Longrightarrow> ends Q rest"
  by (cases rest) auto

lemma takeWhile_ends: "ends P rest \<Longrightarrow> takeWhile P (s @ rest) = takeWhile P s"
  by (induction s) (cases rest, auto)

lemma dropWhile_ends: "ends P rest \<Longrightarrow> dropWhile P (s @ rest) = dropWhile P s @ rest"
  by (induction s) (cases rest, auto)

lemma takeWhile_all: "\<forall>c\<in>set s. P c \<Longrightarrow> ends P rest \<Longrightarrow> takeWhile P (s @ rest) = s"
  by (induction s) (cases rest, auto)

lemma dropWhile_all: "\<forall>c\<in>set s. P c \<Longrightarrow> ends P rest \<Longrightarrow> dropWhile P (s @ rest) = rest"
  by (induction s) (cases rest, auto)

lemma takeWhile_stop: "ends P rest \<Longrightarrow> takeWhile P rest = []"
  by (cases rest) auto

lemma dropWhile_stop: "ends P rest \<Longrightarrow> dropWhile P rest = rest"
  by (cases rest) auto

lemmas while_simps = takeWhile_stop dropWhile_stop takeWhile_all dropWhile_all

lemma ws_ends: "ends is_ascii_whitespace s \<Longrightarrow> ws s = s"
  unfolding ws_def by (cases s) auto

lemma tag_append [simp]: "tag p (p @ r) = Some r"
  by (simp add: tag_def)

lemma tag_single [simp]: "tag [c] (x # r) = (if x = c then Some r else None)" "tag [c] [] = None"
  by (auto simp: tag_def)

section \<open>Percent encoding\<close>

definition hex_upper :: "nat \<Rightarrow> u8" where
  "hex_upper n = (if n < 10 then of_nat (0x30 + n) else of_nat (0x37 + n))"

definition hex_val :: "u8 \<Rightarrow> nat option" where
  "hex_val c =
     (if 0x30 \<le> c \<and> c \<le> 0x39 then Some (unat c - 0x30)
      else if 0x41 \<le> c \<and> c \<le> 0x46 then Some (unat c - 0x37)
      else if 0x61 \<le> c \<and> c \<le> 0x66 then Some (unat c - 0x57)
      else None)"

text \<open>\<^verbatim>\<open>encode_set!\<close> marks the ASCII characters outside the set; other bytes are always encoded.\<close>

definition percent_encode :: "(u8 \<Rightarrow> bool) \<Rightarrow> bytes \<Rightarrow> bytes" where
  "percent_encode spec s =
     concat (map (\<lambda>b. if b < 0x80 \<and> 0x20 \<le> b \<and> b \<noteq> 0x7F \<and> spec b then [b]
       else [0x25, hex_upper (unat b div 16), hex_upper (unat b mod 16)]) s)"

fun percent_decode :: "bytes \<Rightarrow> bytes" where
  "percent_decode [] = []"
| "percent_decode (x # xs) =
     (case (x = 0x25, xs) of
        (True, h # l # r) \<Rightarrow>
          (case (hex_val h, hex_val l) of
             (Some a, Some b) \<Rightarrow> of_nat (16 * a + b) # percent_decode r
           | _ \<Rightarrow> x # percent_decode xs)
      | _ \<Rightarrow> x # percent_decode xs)"

definition decode_utf8 :: "bytes \<Rightarrow> bytes option" where
  "decode_utf8 s = (if utf8_valid (percent_decode s) then Some (percent_decode s) else None)"

text \<open>The bytes that survive: those that are encoded, if the reader takes the escapes, and
  those that are not, apart from the percent sign.\<close>

definition byte_safe :: "(u8 \<Rightarrow> bool) \<Rightarrow> u8 \<Rightarrow> bool" where
  "byte_safe spec b \<longleftrightarrow> b \<noteq> 0x25 \<and> (b < 0x80 \<and> 0x20 \<le> b \<and> b \<noteq> 0x7F \<and> spec b \<or> spec 0x25)"

lemma hex_upper_val: "n < 16 \<Longrightarrow> hex_val (hex_upper n) = Some n \<and> is_alphanumeric (hex_upper n)"
proof -
  have "list_all (\<lambda>n. hex_val (hex_upper n) = Some n \<and> is_alphanumeric (hex_upper n)) [0..<16]" by code_simp
  then show "n < 16 \<Longrightarrow> ?thesis" by (simp add: list_all_iff)
qed

lemma percent_decode_encode:
  assumes "\<forall>b\<in>set s. byte_safe spec b"
  shows "percent_decode (percent_encode spec s) = s"
  using assms
proof (induction s)
  case Nil
  then show ?case by (simp add: percent_encode_def)
next
  case (Cons b s)
  have "unat b < 16 * 16" using unsigned_less [of b] by simp
  then have hl: "unat b div 16 < 16" "unat b mod 16 < 16"
    using less_mult_imp_div_less by auto
  have "of_nat (16 * (unat b div 16) + unat b mod 16) = b" by (simp only: mult_div_mod_eq) simp
  moreover have "percent_decode (percent_encode spec s) = s" using Cons by simp
  ultimately show ?case
    using Cons.prems hex_upper_val [OF hl(1)] hex_upper_val [OF hl(2)]
    by (auto simp: percent_encode_def byte_safe_def simp del: of_nat_add of_nat_mult)
qed

lemma encode_set_in:
  assumes "\<And>c. is_alphanumeric c \<Longrightarrow> spec c" "\<forall>b\<in>set s. byte_safe spec b"
  shows "\<forall>c\<in>set (percent_encode spec s). spec c"
proof -
  have "unat (b :: u8) div 16 < 16" "unat b mod 16 < 16" for b
    using less_mult_imp_div_less [of "unat b" 16 16] unsigned_less [of b] by simp_all
  then show ?thesis
    using assms hex_upper_val by (auto simp: percent_encode_def byte_safe_def split: if_splits)
qed

section \<open>Parameters\<close>

record ParamsSpec =
  FIRST_DELIMITER :: u8
  DELIMITER :: u8
  CHAR_SPEC :: "u8 \<Rightarrow> bool"

definition header_char :: "u8 \<Rightarrow> bool" where
  "header_char c \<longleftrightarrow> is_alphanumeric c \<or> c \<in> set (ascii ''[]/:+$-_.!~*()'' @ [0x27])"

definition param_char :: "u8 \<Rightarrow> bool" where
  "param_char c \<longleftrightarrow> is_alphanumeric c \<or> c \<in> set (ascii ''%-_.!~*()[]/:&+$`'' @ [0x27])"

definition HPS :: ParamsSpec where
  "HPS = \<lparr>FIRST_DELIMITER = 0x3F, DELIMITER = 0x26, CHAR_SPEC = header_char\<rparr>"

definition CPS :: ParamsSpec where
  "CPS = \<lparr>FIRST_DELIMITER = 0x3B, DELIMITER = 0x3B, CHAR_SPEC = param_char\<rparr>"

definition param_write :: "ParamsSpec \<Rightarrow> Param \<Rightarrow> bytes" where
  "param_write S p =
     (case param_value p of
        None \<Rightarrow> percent_encode (CHAR_SPEC S) (param_name p)
      | Some v \<Rightarrow> percent_encode (CHAR_SPEC S) (param_name p) @ [0x3D] @ percent_encode (CHAR_SPEC S) v)"

definition params_print :: "ParamsSpec \<Rightarrow> Params \<Rightarrow> bytes" where
  "params_print S ps =
     (case ps of [] \<Rightarrow> []
      | p # ps \<Rightarrow> FIRST_DELIMITER S # param_write S p @ concat (map (\<lambda>p. DELIMITER S # param_write S p) ps))"

definition filtered_print :: "ParamsSpec \<Rightarrow> (bytes \<Rightarrow> bool) \<Rightarrow> Params \<Rightarrow> bytes" where
  "filtered_print S f ps = params_print S (filter (\<lambda>p. f (param_name p)) ps)"

definition param_value_parse :: "ParamsSpec \<Rightarrow> bytes parser" where
  "param_value_parse S i = do {
     i \<leftarrow> tag [0x3D] (ws i);
     let i = ws i;
     (case parse_quoted i of
        Some x \<Rightarrow> Some x
      | None \<Rightarrow> Some (dropWhile (CHAR_SPEC S) i, takeWhile (CHAR_SPEC S) i)) }"

definition param_parse :: "ParamsSpec \<Rightarrow> Param parser" where
  "param_parse S i = do {
     let i = ws i;
     let name = takeWhile (CHAR_SPEC S) i;
     let i = ws (dropWhile (CHAR_SPEC S) i);
     let (rest, v) = (case param_value_parse S i of Some (r, v) \<Rightarrow> (r, Some v) | None \<Rightarrow> (i, None));
     name \<leftarrow> decode_utf8 name;
     v \<leftarrow> (case v of None \<Rightarrow> Some None | Some v \<Rightarrow> map_option Some (decode_utf8 v));
     Some (rest, \<lparr>param_name = name, param_value = v\<rparr>) }"

definition delimited_param :: "ParamsSpec \<Rightarrow> u8 \<Rightarrow> Param parser" where
  "delimited_param S d i = do { i \<leftarrow> tag [d] (ws i); param_parse S (ws i) }"

text \<open>\<^verbatim>\<open>many0\<close>; every parameter takes its delimiter, so the length of the input is enough fuel.\<close>

fun params_many :: "nat \<Rightarrow> ParamsSpec \<Rightarrow> bytes \<Rightarrow> bytes \<times> Params" where
  "params_many 0 S i = (i, [])"
| "params_many (Suc n) S i =
     (case delimited_param S (DELIMITER S) i of
        None \<Rightarrow> (i, [])
      | Some (r, p) \<Rightarrow> (case params_many n S r of (r, ps) \<Rightarrow> (r, p # ps)))"

definition params_parse :: "ParamsSpec \<Rightarrow> bytes \<Rightarrow> bytes \<times> Params" where
  "params_parse S i =
     (case delimited_param S (FIRST_DELIMITER S) i of
        None \<Rightarrow> (i, [])
      | Some (r, p) \<Rightarrow> (case params_many (Suc (length r)) S (ws r) of (r, ps) \<Rightarrow> (r, p # ps)))"

text \<open>
  A list of parameters between its delimiters is read back, for a character set that keeps
  letters and digits and none of the characters that structure the list.
\<close>

definition param_ok :: "ParamsSpec \<Rightarrow> Param \<Rightarrow> bool" where
  "param_ok S p \<longleftrightarrow>
     list_all (byte_safe (CHAR_SPEC S)) (param_name p) \<and> utf8_valid (param_name p)
     \<and> (case param_value p of None \<Rightarrow> True
        | Some v \<Rightarrow> list_all (byte_safe (CHAR_SPEC S)) v \<and> utf8_valid v)"

definition params_cont :: "ParamsSpec \<Rightarrow> u8 \<Rightarrow> bool" where
  "params_cont S c \<longleftrightarrow> CHAR_SPEC S c \<or> is_ascii_whitespace c \<or> c \<in> {0x3D, 0x22, FIRST_DELIMITER S, DELIMITER S}"

locale params_spec =
  fixes S :: ParamsSpec
  assumes alphanumeric_in: "is_alphanumeric c \<Longrightarrow> CHAR_SPEC S c"
    and whitespace_out: "is_ascii_whitespace c \<Longrightarrow> \<not> CHAR_SPEC S c"
    and structure_out: "c \<in> {0x3D, 0x22, FIRST_DELIMITER S, DELIMITER S} \<Longrightarrow> \<not> CHAR_SPEC S c \<and> \<not> is_ascii_whitespace c"
    and delimiters: "FIRST_DELIMITER S \<notin> {0x3D, 0x22}" "DELIMITER S \<notin> {0x3D, 0x22}"
begin

lemma encode_in: "\<forall>b\<in>set s. byte_safe (CHAR_SPEC S) b \<Longrightarrow> \<forall>c\<in>set (percent_encode (CHAR_SPEC S) s). CHAR_SPEC S c"
  using alphanumeric_in by (rule encode_set_in)

lemma ws_encode:
  assumes "\<forall>b\<in>set s. byte_safe (CHAR_SPEC S) b" "ends is_ascii_whitespace rest"
  shows "ws (percent_encode (CHAR_SPEC S) s @ rest) = percent_encode (CHAR_SPEC S) s @ rest"
  using encode_in [OF assms(1)] assms(2) whitespace_out
  by (intro ws_ends) (cases "percent_encode (CHAR_SPEC S) s", auto)

lemma value_parse_write:
  assumes v: "\<forall>b\<in>set v. byte_safe (CHAR_SPEC S) b"
    and rest: "ends (\<lambda>c. CHAR_SPEC S c \<or> is_ascii_whitespace c \<or> c = 0x22) rest"
  shows "param_value_parse S (0x3D # percent_encode (CHAR_SPEC S) v @ rest) = Some (rest, percent_encode (CHAR_SPEC S) v)"
proof -
  have e: "ends (CHAR_SPEC S) rest" "ends is_ascii_whitespace rest" "ends (\<lambda>c. c = 0x22) rest"
    using rest by (cases rest; simp)+
  have "parse_quoted (percent_encode (CHAR_SPEC S) v @ rest) = None"
    using encode_in [OF v] structure_out [of "0x22"] e(3)
    by (cases "percent_encode (CHAR_SPEC S) v"; cases rest) auto
  moreover have "ws (0x3D # percent_encode (CHAR_SPEC S) v @ rest) = 0x3D # percent_encode (CHAR_SPEC S) v @ rest"
    using structure_out [of "0x3D"] by (intro ws_ends) simp
  ultimately show ?thesis
    using encode_in [OF v] e
    by (simp add: param_value_parse_def ws_encode [OF v] while_simps)
qed

lemma param_parse_write:
  assumes p: "param_ok S p"
    and rest: "ends (\<lambda>c. CHAR_SPEC S c \<or> is_ascii_whitespace c \<or> c \<in> {0x3D, 0x22}) rest"
  shows "param_parse S (param_write S p @ rest) = Some (rest, p)"
proof -
  have e: "ends (CHAR_SPEC S) rest" "ends is_ascii_whitespace rest" "ends (\<lambda>c. c = 0x3D) rest"
    "ends (\<lambda>c. CHAR_SPEC S c \<or> is_ascii_whitespace c \<or> c = 0x22) rest"
    using rest by (cases rest; simp)+
  have n: "\<forall>b\<in>set (param_name p). byte_safe (CHAR_SPEC S) b" "utf8_valid (param_name p)"
    using p by (simp_all add: param_ok_def list_all_iff)
  have eq: "ends (CHAR_SPEC S) (0x3D # xs)" "ends is_ascii_whitespace (0x3D # xs)" for xs
    using structure_out [of "0x3D"] by simp_all
  show ?thesis
  proof (cases "param_value p")
    case None
    moreover have "param_value_parse S rest = None"
      using e(2,3) by (cases rest) (simp_all add: param_value_parse_def ws_ends)
    ultimately show ?thesis
      using n encode_in [OF n(1)] e
      by (simp add: param_parse_def param_write_def ws_encode while_simps ws_ends Let_def
          decode_utf8_def percent_decode_encode)
  next
    case (Some v)
    then have v: "\<forall>b\<in>set v. byte_safe (CHAR_SPEC S) b" "utf8_valid v"
      using p by (simp_all add: param_ok_def list_all_iff)
    show ?thesis
      using n encode_in [OF n(1)] e eq v Some value_parse_write [OF v(1) e(4)]
      by (simp add: param_parse_def param_write_def ws_encode while_simps ws_ends Let_def
          decode_utf8_def percent_decode_encode)
  qed
qed

lemma delimited_param_write:
  assumes p: "param_ok S p" and d: "d \<in> {FIRST_DELIMITER S, DELIMITER S}"
    and rest: "ends (\<lambda>c. CHAR_SPEC S c \<or> is_ascii_whitespace c \<or> c \<in> {0x3D, 0x22}) rest"
  shows "delimited_param S d (d # param_write S p @ rest) = Some (rest, p)"
proof -
  have n: "\<forall>b\<in>set (param_name p). byte_safe (CHAR_SPEC S) b" using p by (simp add: param_ok_def list_all_iff)
  have "ends is_ascii_whitespace (param_write S p @ rest)"
    using encode_in [OF n] whitespace_out rest structure_out [of "0x3D"]
    by (cases rest; cases "percent_encode (CHAR_SPEC S) (param_name p)") (auto simp: param_write_def split: option.split)
  then show ?thesis
    using d structure_out [of d] param_parse_write [OF p rest]
    by (auto simp: delimited_param_def ws_ends)
qed

lemma params_many_write:
  assumes "\<forall>p\<in>set ps. param_ok S p" "ends (params_cont S) rest" "length ps < n"
  shows "params_many n S (concat (map (\<lambda>p. DELIMITER S # param_write S p) ps) @ rest) = (rest, ps)"
  using assms(1,3)
proof (induction ps arbitrary: n)
  case Nil
  have "delimited_param S (DELIMITER S) rest = None"
    using assms(2) by (cases rest) (simp_all add: delimited_param_def params_cont_def ws_def)
  with Nil show ?case by (cases n) auto
next
  case (Cons p ps)
  obtain m where m: "n = Suc m" "length ps < m" using Cons.prems by (cases n) auto
  let ?r = "concat (map (\<lambda>p. DELIMITER S # param_write S p) ps) @ rest"
  have "ends (\<lambda>c. CHAR_SPEC S c \<or> is_ascii_whitespace c \<or> c \<in> {0x3D, 0x22}) ?r"
    using assms(2) structure_out [of "DELIMITER S"] delimiters
    by (cases ps; cases rest) (auto simp: params_cont_def)
  then have "delimited_param S (DELIMITER S) (DELIMITER S # param_write S p @ ?r) = Some (?r, p)"
    using Cons.prems by (intro delimited_param_write) auto
  moreover have "params_many m S ?r = (rest, ps)" using Cons m by simp
  ultimately show ?case using m by simp
qed

lemma params_parse_print:
  assumes ps: "\<forall>p\<in>set ps. param_ok S p" and rest: "ends (params_cont S) rest"
  shows "params_parse S (params_print S ps @ rest) = (rest, ps)"
proof (cases ps)
  case Nil
  have "delimited_param S (FIRST_DELIMITER S) rest = None"
    using rest by (cases rest) (simp_all add: delimited_param_def params_cont_def ws_def)
  with Nil show ?thesis by (simp add: params_parse_def params_print_def)
next
  case (Cons p ps')
  let ?r = "concat (map (\<lambda>p. DELIMITER S # param_write S p) ps') @ rest"
  have e: "ends (\<lambda>c. CHAR_SPEC S c \<or> is_ascii_whitespace c \<or> c \<in> {0x3D, 0x22}) ?r"
    using rest structure_out [of "DELIMITER S"] delimiters
    by (cases ps'; cases rest) (auto simp: params_cont_def)
  then have "delimited_param S (FIRST_DELIMITER S) (FIRST_DELIMITER S # param_write S p @ ?r) = Some (?r, p)"
    using ps Cons by (intro delimited_param_write) auto
  moreover have "ws ?r = ?r" using e by (intro ws_ends ends_mono [OF e]) auto
  moreover have "length ps' \<le> length ?r"
    by (induction ps') auto
  then have "params_many (Suc (length ?r)) S ?r = (rest, ps')"
    using ps Cons rest by (intro params_many_write) auto
  ultimately show ?thesis using Cons by (simp add: params_parse_def params_print_def del: params_many.simps)
qed

end

lemma whitespace_set: "is_ascii_whitespace c \<longleftrightarrow> c \<in> {0x20, 0x09, 0x0A, 0x0C, 0x0D}"
  by (simp add: is_ascii_whitespace_def)

interpretation cps: params_spec CPS
proof
  have w: "list_all (\<lambda>c. \<not> param_char c) [0x20, 0x09, 0x0A, 0x0C, 0x0D, 0x3D, 0x22, 0x3B]" by code_simp
  show "is_ascii_whitespace c \<Longrightarrow> \<not> CHAR_SPEC CPS c" for c
    using w by (auto simp: whitespace_set CPS_def)
  show "c \<in> {0x3D, 0x22, FIRST_DELIMITER CPS, DELIMITER CPS} \<Longrightarrow> \<not> CHAR_SPEC CPS c \<and> \<not> is_ascii_whitespace c" for c
    using w by (auto simp: whitespace_set CPS_def)
qed (simp_all add: CPS_def param_char_def)

interpretation hps: params_spec HPS
proof
  have w: "list_all (\<lambda>c. \<not> header_char c) [0x20, 0x09, 0x0A, 0x0C, 0x0D, 0x3D, 0x22, 0x3F, 0x26]" by code_simp
  show "is_ascii_whitespace c \<Longrightarrow> \<not> CHAR_SPEC HPS c" for c
    using w by (auto simp: whitespace_set HPS_def)
  show "c \<in> {0x3D, 0x22, FIRST_DELIMITER HPS, DELIMITER HPS} \<Longrightarrow> \<not> CHAR_SPEC HPS c \<and> \<not> is_ascii_whitespace c" for c
    using w by (auto simp: whitespace_set HPS_def)
qed (simp_all add: HPS_def header_char_def)

end
