(* ===== verification/Sip_Uri.thy ===== *)
theory Sip_Uri
  imports Sip_Params
begin

text \<open>
  Hosts, URIs, name-addresses and the headers that carry them, printed and parsed
  (\<^verbatim>\<open>sip/sip-types/src/host.rs\<close>, \<^verbatim>\<open>uri/sip.rs\<close>, \<^verbatim>\<open>uri/name_addr.rs\<close>,
  \<^verbatim>\<open>header/typed/via.rs\<close>, \<^verbatim>\<open>from_to.rs\<close>). The standard library's text form of IPv6
  addresses is the record \<open>Ip6Text\<close>; what is used of it is \<open>ip6_text_ok\<close>: parsing inverts
  printing and the text consists of hexadecimal digits, colons and dots.
\<close>

section \<open>Hosts\<close>

record Ip6Text =
  ip6_print :: "u128 \<Rightarrow> bytes"
  ip6_parse :: "bytes \<Rightarrow> u128 option"

definition is_ip6_char :: "u8 \<Rightarrow> bool" where
  "is_ip6_char c \<longleftrightarrow> hex_val c \<noteq> None \<or> c = 0x3A \<or> c = 0x2E"

definition ip6_text_ok :: "Ip6Text \<Rightarrow> bool" where
  "ip6_text_ok T \<longleftrightarrow> (\<forall>a. ip6_parse T (ip6_print T a) = Some a \<and> ip6_print T a \<noteq> []
     \<and> list_all is_ip6_char (ip6_print T a))"

definition ip4_print :: "u32 \<Rightarrow> bytes" where
  "ip4_print a =
     (case map (\<lambda>b. decimal (unat b)) (to_be 4 a) of
        [a, b, c, d] \<Rightarrow> a @ [0x2E] @ b @ [0x2E] @ c @ [0x2E] @ d | _ \<Rightarrow> [])"

text \<open>
  One component of a dotted address: nom's \<^verbatim>\<open>u8\<close> takes all digits and fails on overflow,
  and \<^verbatim>\<open>Ipv4Addr::from_str\<close> then refuses leading zeros.
\<close>

definition octet :: "u8 parser" where
  "octet i =
     (let ds = takeWhile is_digit i in
      if ds = [] \<or> 255 < digits_value ds \<or> 1 < length ds \<and> hd ds = 0x30 then None
      else Some (dropWhile is_digit i, of_nat (digits_value ds)))"

definition ip4_address :: "u32 parser" where
  "ip4_address i = do {
     (i, a) \<leftarrow> octet i; i \<leftarrow> tag [0x2E] i;
     (i, b) \<leftarrow> octet i; i \<leftarrow> tag [0x2E] i;
     (i, c) \<leftarrow> octet i; i \<leftarrow> tag [0x2E] i;
     (i, d) \<leftarrow> octet i;
     Some (i, from_be [a, b, c, d]) }"

definition ip6_reference :: "Ip6Text \<Rightarrow> u128 parser" where
  "ip6_reference T i = do {
     i \<leftarrow> tag [0x5B] i;
     let t = takeWhile is_ip6_char i;
     r \<leftarrow> tag [0x5D] (dropWhile is_ip6_char i);
     if t = [] then None else map_option (Pair r) (ip6_parse T t) }"

definition label_char :: "u8 \<Rightarrow> bool" where
  "label_char c \<longleftrightarrow> is_alphanumeric c \<or> c = 0x2D"

definition label :: "bytes parser" where
  "label i =
     (let l = takeWhile label_char i in
      if l = [] \<or> hd l = 0x2D \<or> last l = 0x2D then None else Some (dropWhile label_char i, l))"

text \<open>\<^verbatim>\<open>many0(tuple((char('.'), label)))\<close>; every round takes two characters at least.\<close>

fun labels :: "nat \<Rightarrow> bytes \<Rightarrow> bytes" where
  "labels 0 i = i"
| "labels (Suc n) i =
     (case tag [0x2E] i of
        None \<Rightarrow> i
      | Some r \<Rightarrow> (case label r of None \<Rightarrow> i | Some (r, _) \<Rightarrow> labels n r))"

definition hostname :: "bytes parser" where
  "hostname i = do {
     (r, _) \<leftarrow> label i;
     let r = labels (length r) r;
     let r = (case tag [0x2E] r of Some r \<Rightarrow> r | None \<Rightarrow> r);
     Some (r, take (length i - length r) i) }"

definition host_parse :: "Ip6Text \<Rightarrow> SipHost parser" where
  "host_parse T i =
     (case ip6_reference T i of
        Some (r, a) \<Rightarrow> Some (r, IP6 a)
      | None \<Rightarrow>
          (case ip4_address i of
             Some (r, a) \<Rightarrow> Some (r, IP4 a)
           | None \<Rightarrow> map_option (map_prod id HostName) (hostname i)))"

fun host_print :: "Ip6Text \<Rightarrow> SipHost \<Rightarrow> bytes" where
  "host_print T (IP6 addr) = [0x5B] @ ip6_print T addr @ [0x5D]"
| "host_print T (IP4 addr) = ip4_print addr"
| "host_print T (HostName name) = name"

definition u16_from_digits :: "bytes \<Rightarrow> u16 option" where
  "u16_from_digits ds = (if ds \<noteq> [] \<and> int (digits_value ds) < 2 ^ 16 then Some (of_nat (digits_value ds)) else None)"

definition hostport_parse :: "Ip6Text \<Rightarrow> HostPort parser" where
  "hostport_parse T i = do {
     (i, h) \<leftarrow> host_parse T i;
     (case tag [0x3A] i of
        None \<Rightarrow> Some (i, \<lparr>hp_host = h, hp_port = None\<rparr>)
      | Some i \<Rightarrow> map_option (\<lambda>p. (dropWhile is_digit i, \<lparr>hp_host = h, hp_port = Some p\<rparr>))
          (u16_from_digits (takeWhile is_digit i))) }"

datatype UriContext = ReqUri | FromToCtx | ContactCtx | RoutingCtx

definition hostport_print :: "Ip6Text \<Rightarrow> UriContext option \<Rightarrow> HostPort \<Rightarrow> bytes" where
  "hostport_print T ctx hp =
     host_print T (hp_host hp)
     @ (case hp_port hp of
          Some port \<Rightarrow> if ctx \<noteq> Some FromToCtx then [0x3A] @ decimal (unat port) else []
        | None \<Rightarrow> [])"

subsection \<open>Reading hosts back\<close>

definition host_cont :: "u8 \<Rightarrow> bool" where
  "host_cont c \<longleftrightarrow> label_char c \<or> c = 0x2E"

fun host_wf :: "SipHost \<Rightarrow> bool" where
  "host_wf (HostName s) \<longleftrightarrow> hostname s = Some ([], s) \<and> ip4_address s = None \<and> list_all host_cont s"
| "host_wf _ \<longleftrightarrow> True"

lemma decimal_hd: "0 < n \<Longrightarrow> hd (decimal n) \<noteq> 0x30"
proof (induction n rule: decimal.induct)
  case (1 n)
  show ?case
  proof (cases "n < 10")
    case True
    then have "unat (of_nat (0x30 + n) :: u8) \<noteq> unat (0x30 :: u8)"
      using unat_digit [OF True] 1(2) by simp
    then show ?thesis using True by (subst decimal.simps) auto
  next
    case False
    with 1 have "hd (decimal (n div 10)) \<noteq> 0x30" by simp
    then show ?thesis using False decimal_nonempty by (subst decimal.simps) simp
  qed
qed

lemma decimal_takeWhile:
  assumes "ends is_digit rest"
  shows "takeWhile is_digit (decimal n @ rest) = decimal n" "dropWhile is_digit (decimal n @ rest) = rest"
  using assms decimal_digits [of n] by (simp_all add: while_simps)

lemma octet_decimal:
  assumes "ends is_digit rest"
  shows "octet (decimal (unat b) @ rest) = Some (rest, b)"
proof -
  have "\<not> (1 < length (decimal (unat b)) \<and> hd (decimal (unat b)) = 0x30)"
  proof (cases "unat b < 10")
    case True
    then show ?thesis by (subst decimal.simps) simp
  qed (use decimal_hd [of "unat b"] in auto)
  moreover have "unat b < 256" using unsigned_less [of b] by simp
  ultimately show ?thesis
    using decimal_nonempty [of "unat b"]
    by (simp add: octet_def Let_def decimal_takeWhile [OF assms] digits_value_decimal)
qed

lemma to_be_4: "to_be 4 (a :: u32) = [ucast (drop_bit 24 a), ucast (drop_bit 16 a), ucast (drop_bit 8 a), ucast a]"
  by (simp add: numeral_eq_Suc)

lemma ip4_parse_print:
  assumes "ends is_digit rest"
  shows "ip4_address (ip4_print a @ rest) = Some (rest, a)"
proof -
  have dot: "\<not> is_digit 0x2E" by code_simp
  have "from_be (to_be 4 a) = a" by (simp add: from_be_to_be_full)
  then show ?thesis
    using assms by (simp add: ip4_print_def to_be_4 ip4_address_def octet_decimal dot)
qed

lemma octet_ends:
  assumes "ends is_digit rest"
  shows "octet (s @ rest) = map_option (map_prod (\<lambda>r. r @ rest) id) (octet s)"
  by (simp add: octet_def Let_def takeWhile_ends [OF assms] dropWhile_ends [OF assms])

lemma dot_ends: "ends (\<lambda>c. c = d) rest \<Longrightarrow> tag [d] (s @ rest) = map_option (\<lambda>r. r @ rest) (tag [d] s)"
  by (cases s; cases rest) auto

lemma ip4_address_ends:
  assumes "ends is_digit rest" "ends (\<lambda>c. c = 0x2E) rest"
  shows "ip4_address (s @ rest) = map_option (map_prod (\<lambda>r. r @ rest) id) (ip4_address s)"
  by (simp add: ip4_address_def octet_ends [OF assms(1)] dot_ends [OF assms(2)] Option.bind_map_option
      option.map_comp map_option_bind comp_def case_prod_unfold map_prod_def split: Option.bind_split)

lemma label_ends:
  assumes "ends host_cont rest"
  shows "label (s @ rest) = map_option (map_prod (\<lambda>r. r @ rest) id) (label s)"
  using ends_mono [OF assms, of label_char]
  by (simp add: label_def Let_def takeWhile_ends dropWhile_ends host_cont_def)

lemma label_shorter: "label i = Some (r, l) \<Longrightarrow> length r < length i"
proof -
  have "length (takeWhile label_char i) + length (dropWhile label_char i) = length i"
    by (metis length_append takeWhile_dropWhile_id)
  moreover assume "label i = Some (r, l)"
  ultimately show ?thesis by (cases "takeWhile label_char i") (auto simp: label_def Let_def split: if_splits)
qed

lemma labels_fuel: "length i \<le> n \<Longrightarrow> length i \<le> m \<Longrightarrow> labels n i = labels m i"
proof (induction n arbitrary: m i)
  case 0
  then show ?case by (cases m) (auto simp: tag_def)
next
  case (Suc n)
  show ?case
  proof (cases m)
    case 0
    with Suc.prems show ?thesis by simp
  next
    case (Suc m')
    have "labels n r' = labels m' r'" if "tag [0x2E] i = Some r" "label r = Some (r', l)" for r r' l
      using that label_shorter [OF that(2)] Suc.prems Suc
      by (intro Suc.IH) (cases i; auto split: if_splits)+
    then show ?thesis using Suc by (auto split: option.split)
  qed
qed

lemma labels_ends:
  assumes "ends host_cont rest"
  shows "labels n (s @ rest) = labels n s @ rest"
proof (induction n arbitrary: s)
  case (Suc n)
  have "ends (\<lambda>c. c = 0x2E) rest" using assms by (rule ends_mono) (simp add: host_cont_def)
  then show ?case
    using Suc by (auto simp: dot_ends label_ends [OF assms] split: option.split)
qed simp

lemma hostname_ends:
  assumes rest: "ends host_cont rest" and s: "hostname s = Some ([], s)"
  shows "hostname (s @ rest) = Some (rest, s)"
proof -
  have dot: "ends (\<lambda>c. c = 0x2E) rest" using rest by (rule ends_mono) (simp add: host_cont_def)
  obtain r l where l: "label s = Some (r, l)"
    using s by (cases "label s") (auto simp: hostname_def)
  have "labels (length r + length rest) r = labels (length r) r" by (rule labels_fuel) simp_all
  moreover have "(case tag [0x2E] (labels (length r) r) of Some r \<Rightarrow> r | None \<Rightarrow> labels (length r) r) = []"
    using s l by (auto simp: hostname_def Let_def split: option.splits)
  ultimately show ?thesis
    using l by (auto simp: hostname_def Let_def label_ends [OF rest] labels_ends [OF rest] dot_ends [OF dot]
        split: option.splits)
qed

lemma host_parse_print:
  assumes T: "ip6_text_ok T" and h: "host_wf h" and rest: "ends host_cont rest"
  shows "host_parse T (host_print T h @ rest) = Some (rest, h)"
proof -
  have dig: "ends is_digit rest" and dot: "ends (\<lambda>c. c = 0x2E) rest"
    using rest by (auto intro: ends_mono simp: host_cont_def label_char_def is_alphanumeric_def)
  show ?thesis
  proof (cases h)
    case (IP6 a)
    have "\<not> is_ip6_char 0x5D" by code_simp
    then have "takeWhile is_ip6_char (ip6_print T a @ 0x5D # rest) = ip6_print T a"
      "dropWhile is_ip6_char (ip6_print T a @ 0x5D # rest) = 0x5D # rest"
      using T by (auto simp: ip6_text_ok_def list_all_iff intro!: takeWhile_all dropWhile_all)
    then show ?thesis
      using T IP6 by (simp add: host_parse_def ip6_reference_def ip6_text_ok_def)
  next
    case (IP4 a)
    have "hd (ip4_print a @ rest) \<noteq> 0x5B \<and> ip4_print a \<noteq> []"
    proof -
      have "\<not> is_digit 0x5B" by code_simp
      then have "hd (decimal n) \<noteq> 0x5B" for n
        using decimal_digits [of n] decimal_nonempty [of n] by (cases "decimal n") auto
      then show ?thesis using decimal_nonempty by (auto simp: ip4_print_def to_be_4)
    qed
    then have "ip6_reference T (ip4_print a @ rest) = None"
      by (cases "ip4_print a") (auto simp: ip6_reference_def)
    then show ?thesis using IP4 ip4_parse_print [OF dig] by (simp add: host_parse_def)
  next
    case (HostName s)
    then have s: "hostname s = Some ([], s)" "ip4_address s = None" using h by auto
    have "\<not> label_char 0x5B" by code_simp
    then have "s \<noteq> [] \<and> hd s \<noteq> 0x5B"
      using s(1) by (cases s) (auto simp: hostname_def label_def Let_def split: if_splits)
    then have "ip6_reference T (s @ rest) = None" by (cases s) (auto simp: ip6_reference_def)
    then show ?thesis
      using HostName s ip4_address_ends [OF dig dot, of s] hostname_ends [OF rest s(1)]
      by (simp add: host_parse_def)
  qed
qed

lemma u16_from_decimal: "u16_from_digits (decimal (unat (w :: u16))) = Some w"
  using unsigned_less [of w] by (simp add: u16_from_digits_def digits_value_decimal decimal_nonempty)

lemma hostport_parse_print:
  assumes T: "ip6_text_ok T" and h: "host_wf (hp_host hp)"
    and ctx: "ctx = Some FromToCtx \<Longrightarrow> hp_port hp = None"
    and rest: "ends (\<lambda>c. host_cont c \<or> c = 0x3A) rest"
  shows "hostport_parse T (hostport_print T ctx hp @ rest) = Some (rest, hp)"
proof -
  have r: "ends host_cont rest" "ends (\<lambda>c. c = 0x3A) rest" "ends is_digit rest"
    using rest by (auto intro: ends_mono simp: host_cont_def label_char_def is_alphanumeric_def)
  have colon: "ends host_cont (0x3A # xs)" for xs
    by (simp add: host_cont_def label_char_def is_alphanumeric_def is_digit_def)
  show ?thesis
  proof (cases "hp_port hp")
    case None
    then show ?thesis
      using r host_parse_print [OF T h r(1)] dot_ends [of "0x3A" rest "[]"]
      by (simp add: hostport_parse_def hostport_print_def)
  next
    case (Some p)
    then show ?thesis
      using ctx host_parse_print [OF T h colon]
      by (auto simp: hostport_parse_def hostport_print_def decimal_takeWhile [OF r(3)] u16_from_decimal)
  qed
qed

section \<open>URIs\<close>

datatype SipUriUserPart = EmptyUser | User bytes | UserPw bytes bytes

record SipUri =
  sips :: bool
  user_part :: SipUriUserPart
  host_port :: HostPort
  uri_params :: Params
  header_params :: Params

definition uri_new :: "HostPort \<Rightarrow> SipUri" where
  "uri_new hp = \<lparr>sips = False, user_part = EmptyUser, host_port = hp, uri_params = [], header_params = []\<rparr>"

fun set_user :: "SipUriUserPart \<Rightarrow> bytes \<Rightarrow> SipUriUserPart" where
  "set_user EmptyUser u = User u"
| "set_user (User _) u = User u"
| "set_user (UserPw _ pw) u = UserPw u pw"

definition uri_compare :: "SipUri \<Rightarrow> SipUri \<Rightarrow> bool" where
  "uri_compare self other \<longleftrightarrow> sips self = sips other \<and> user_part self = user_part other \<and> host_port self = host_port other"

definition user_char :: "u8 \<Rightarrow> bool" where
  "user_char c \<longleftrightarrow> is_alphanumeric c \<or> c \<in> set (ascii ''-_.!~*()%&=+$,;?/'' @ [0x27])"

definition password_char :: "u8 \<Rightarrow> bool" where
  "password_char c \<longleftrightarrow> is_alphanumeric c \<or> c \<in> set (ascii ''-_.!~*()%&=+$,'' @ [0x27])"

fun user_print :: "SipUriUserPart \<Rightarrow> bytes" where
  "user_print EmptyUser = []"
| "user_print (User user) = percent_encode user_char user @ [0x40]"
| "user_print (UserPw user password) = percent_encode user_char user @ [0x3A] @ password @ [0x40]"

definition uri_print :: "Ip6Text \<Rightarrow> UriContext option \<Rightarrow> SipMethod option \<Rightarrow> SipUri \<Rightarrow> bytes" where
  "uri_print T ctx meth self =
     (if sips self then ascii ''sips:'' else ascii ''sip:'') @ user_print (user_part self)
     @ hostport_print T ctx (host_port self)
     @ (case ctx of
          Some ReqUri \<Rightarrow> params_print CPS (uri_params self)
        | Some FromToCtx \<Rightarrow>
            filtered_print CPS (\<lambda>name. name \<notin> set [ascii ''maddr'', ascii ''ttl'', ascii ''transport'', ascii ''lr'']) (uri_params self)
        | Some ContactCtx \<Rightarrow>
            if meth = Some REGISTER
            then filtered_print CPS (\<lambda>name. name \<noteq> ascii ''lr'') (uri_params self) @ params_print HPS (header_params self)
            else filtered_print CPS (\<lambda>name. name \<noteq> ascii ''ttl'') (uri_params self)
        | Some RoutingCtx \<Rightarrow> filtered_print CPS (\<lambda>name. name \<noteq> ascii ''ttl'') (uri_params self)
        | None \<Rightarrow> params_print CPS (uri_params self) @ params_print HPS (header_params self))"

definition parse_scheme :: "bool parser" where
  "parse_scheme i =
     (if tag_no_case (ascii ''sip:'') i then Some (drop 4 i, False)
      else if tag_no_case (ascii ''sips:'') i then Some (drop 5 i, True)
      else None)"

definition parse_user_pw :: "bytes \<Rightarrow> bytes \<times> (bytes \<times> bytes option) option" where
  "parse_user_pw i =
     (let r = dropWhile user_char i;
          (r, pw) = (case tag [0x3A] r of
            Some r \<Rightarrow> (dropWhile password_char r, Some (takeWhile password_char r)) | None \<Rightarrow> (r, None)) in
      case tag [0x40] r of
        Some r \<Rightarrow> (r, Some (takeWhile user_char i, pw))
      | None \<Rightarrow> (i, None))"

fun user_part_of :: "(bytes \<times> bytes option) option \<Rightarrow> SipUriUserPart option" where
  "user_part_of None = Some EmptyUser"
| "user_part_of (Some (user, None)) = map_option User (decode_utf8 user)"
| "user_part_of (Some (user, Some pw)) = map_option (\<lambda>user. UserPw user pw) (decode_utf8 user)"

definition uri_parse :: "Ip6Text \<Rightarrow> SipUri parser" where
  "uri_parse T i = do {
     (i, sips) \<leftarrow> parse_scheme i;
     let (i, user_pw) = parse_user_pw i;
     (i, hp) \<leftarrow> hostport_parse T i;
     let (i, uri_params) = params_parse CPS i;
     let (i, header_params) = params_parse HPS i;
     user_part \<leftarrow> user_part_of user_pw;
     Some (i, \<lparr>sips = sips, user_part = user_part, host_port = hp, uri_params = uri_params, header_params = header_params\<rparr>) }"

definition uri_parse_no_params :: "Ip6Text \<Rightarrow> SipUri parser" where
  "uri_parse_no_params T i = do {
     (i, sips) \<leftarrow> parse_scheme i;
     let (i, user_pw) = parse_user_pw i;
     (i, hp) \<leftarrow> hostport_parse T i;
     user_part \<leftarrow> user_part_of user_pw;
     Some (i, \<lparr>sips = sips, user_part = user_part, host_port = hp, uri_params = [], header_params = []\<rparr>) }"

section \<open>Name-addresses and the headers made of them\<close>

record NameAddr =
  na_name :: "bytes option"
  na_uri :: SipUri

definition display_char :: "u8 \<Rightarrow> bool" where
  "display_char c \<longleftrightarrow> c \<notin> set [0x3A, 0x0D, 0x0A, 0x3C]"

definition bracketed_addr :: "Ip6Text \<Rightarrow> NameAddr parser" where
  "bracketed_addr T i = do {
     let (i, name) = (case parse_quoted i of
       Some (r, n) \<Rightarrow> (r, Some n)
     | None \<Rightarrow> if takeWhile display_char i = [] then (i, None)
               else (dropWhile display_char i, Some (takeWhile display_char i)));
     i \<leftarrow> tag [0x3C] (dropWhile whitespace i);
     (i, uri) \<leftarrow> uri_parse T i;
     i \<leftarrow> tag [0x3E] i;
     Some (i, \<lparr>na_name = map_option trim name, na_uri = uri\<rparr>) }"

definition name_addr_parse :: "Ip6Text \<Rightarrow> NameAddr parser" where
  "name_addr_parse T i =
     (case bracketed_addr T i of
        Some x \<Rightarrow> Some x
      | None \<Rightarrow> map_option (map_prod id (\<lambda>uri. \<lparr>na_name = None, na_uri = uri\<rparr>)) (uri_parse T i))"

definition name_addr_parse_no_params :: "Ip6Text \<Rightarrow> NameAddr parser" where
  "name_addr_parse_no_params T i =
     (case bracketed_addr T i of
        Some x \<Rightarrow> Some x
      | None \<Rightarrow> map_option (map_prod id (\<lambda>uri. \<lparr>na_name = None, na_uri = uri\<rparr>)) (uri_parse_no_params T i))"

definition name_addr_print :: "Ip6Text \<Rightarrow> UriContext option \<Rightarrow> SipMethod option \<Rightarrow> NameAddr \<Rightarrow> bytes" where
  "name_addr_print T ctx meth self =
     (case na_name self of Some name \<Rightarrow> [0x22] @ name @ [0x22] | None \<Rightarrow> [])
     @ [0x3C] @ uri_print T ctx meth (na_uri self) @ [0x3E]"

record FromTo =
  ft_uri :: NameAddr
  ft_tag :: "bytes option"
  ft_params :: Params

definition from_to_parse :: "Ip6Text \<Rightarrow> FromTo parser" where
  "from_to_parse T i = do {
     (i, uri) \<leftarrow> name_addr_parse_no_params T i;
     let (i, params) = params_parse CPS i;
     let (t, params) = params_take params (ascii ''tag'');
     Some (i, \<lparr>ft_uri = uri, ft_tag = t, ft_params = params\<rparr>) }"

definition from_to_print :: "Ip6Text \<Rightarrow> SipMethod option \<Rightarrow> FromTo \<Rightarrow> bytes" where
  "from_to_print T meth self =
     name_addr_print T (Some FromToCtx) meth (ft_uri self)
     @ (case ft_tag self of Some t \<Rightarrow> ascii '';tag='' @ t | None \<Rightarrow> [])
     @ params_print CPS (ft_params self)"

text \<open>\<^verbatim>\<open>Contact\<close> and the routing headers differ from each other in the context they print.\<close>

record Contact =
  ct_uri :: NameAddr
  ct_params :: Params

definition contact_parse :: "Ip6Text \<Rightarrow> Contact parser" where
  "contact_parse T i = do {
     (i, uri) \<leftarrow> name_addr_parse_no_params T i;
     let (i, params) = params_parse CPS i;
     Some (i, \<lparr>ct_uri = uri, ct_params = params\<rparr>) }"

definition contact_print :: "Ip6Text \<Rightarrow> SipMethod option \<Rightarrow> Contact \<Rightarrow> bytes" where
  "contact_print T meth self = name_addr_print T (Some ContactCtx) meth (ct_uri self) @ params_print CPS (ct_params self)"

definition routing_print :: "Ip6Text \<Rightarrow> SipMethod option \<Rightarrow> Contact \<Rightarrow> bytes" where
  "routing_print T meth self = name_addr_print T (Some RoutingCtx) meth (ct_uri self) @ params_print CPS (ct_params self)"

section \<open>Via\<close>

definition via_print :: "Ip6Text \<Rightarrow> Via \<Rightarrow> bytes" where
  "via_print T v =
     ascii ''SIP/2.0/'' @ via_transport v @ [0x20] @ hostport_print T None (sent_by v) @ params_print CPS (via_params v)"

definition parse_sip_version :: "bytes \<Rightarrow> bytes option" where
  "parse_sip_version i = do {
     i \<leftarrow> tag (ascii ''SIP'') (ws i); i \<leftarrow> tag (ascii ''/'') (ws i);
     i \<leftarrow> tag (ascii ''2.0'') (ws i); tag (ascii ''/'') (ws i) }"

definition via_parse :: "Ip6Text \<Rightarrow> Via parser" where
  "via_parse T i = do {
     i \<leftarrow> parse_sip_version i;
     let i = dropWhile whitespace i;
     let tp = takeWhile token i;
     let i = dropWhile whitespace (dropWhile token i);
     (i, hp) \<leftarrow> hostport_parse T i;
     let (i, ps) = params_parse CPS i;
     Some (i, \<lparr>via_transport = tp, sent_by = hp, via_params = ps\<rparr>) }"

end
