(* ===== verification/Sip_Roundtrip.thy ===== *)
theory Sip_Roundtrip
  imports Sip_Uri
begin

text \<open>
  What the program prints of a URI, a name-address, a \<^verbatim>\<open>Via\<close> or a \<^verbatim>\<open>From\<close> or \<^verbatim>\<open>To\<close> header
  is what it reads back. A URI is printed differently in different places: \<open>uri_in\<close> is the
  part of it that a context shows.
\<close>

section \<open>Well-formed values\<close>

fun user_wf :: "SipUriUserPart \<Rightarrow> bool" where
  "user_wf EmptyUser \<longleftrightarrow> True"
| "user_wf (User u) \<longleftrightarrow> list_all (byte_safe user_char) u \<and> utf8_valid u"
| "user_wf (UserPw u pw) \<longleftrightarrow> list_all (byte_safe user_char) u \<and> utf8_valid u \<and> list_all password_char pw"

definition uri_wf :: "SipUri \<Rightarrow> bool" where
  "uri_wf u \<longleftrightarrow> user_wf (user_part u) \<and> host_wf (hp_host (host_port u))
     \<and> list_all (param_ok CPS) (uri_params u) \<and> list_all (param_ok HPS) (header_params u)"

definition uri_in :: "UriContext option \<Rightarrow> SipMethod option \<Rightarrow> SipUri \<Rightarrow> SipUri" where
  "uri_in ctx meth u =
     u\<lparr>host_port := (if ctx = Some FromToCtx then (host_port u)\<lparr>hp_port := None\<rparr> else host_port u),
       uri_params := filter (\<lambda>p. case ctx of
           Some FromToCtx \<Rightarrow> param_name p \<notin> set [ascii ''maddr'', ascii ''ttl'', ascii ''transport'', ascii ''lr'']
         | Some ContactCtx \<Rightarrow> (if meth = Some REGISTER then param_name p \<noteq> ascii ''lr'' else param_name p \<noteq> ascii ''ttl'')
         | Some RoutingCtx \<Rightarrow> param_name p \<noteq> ascii ''ttl''
         | _ \<Rightarrow> True) (uri_params u),
       header_params := (if ctx = None \<or> ctx = Some ContactCtx \<and> meth = Some REGISTER then header_params u else [])\<rparr>"

definition name_addr_wf :: "NameAddr \<Rightarrow> bool" where
  "name_addr_wf a \<longleftrightarrow> uri_wf (na_uri a)
     \<and> (case na_name a of None \<Rightarrow> True | Some n \<Rightarrow> n \<noteq> [] \<and> 0x22 \<notin> set n \<and> trim n = n)"

definition from_to_wf :: "FromTo \<Rightarrow> bool" where
  "from_to_wf f \<longleftrightarrow> name_addr_wf (ft_uri f) \<and> list_all (param_ok CPS) (ft_params f)
     \<and> ascii ''tag'' \<notin> param_name ` set (ft_params f)
     \<and> (case ft_tag f of None \<Rightarrow> True | Some t \<Rightarrow> list_all (\<lambda>c. param_char c \<and> c \<noteq> 0x25) t)"

definition via_wf :: "Via \<Rightarrow> bool" where
  "via_wf v \<longleftrightarrow> via_transport v \<noteq> [] \<and> list_all token (via_transport v)
     \<and> host_wf (hp_host (sent_by v)) \<and> list_all (param_ok CPS) (via_params v)"

section \<open>Via\<close>

lemma host_print_start:
  assumes "ip6_text_ok T" "host_wf h"
  shows "\<exists>c cs. host_print T h = c # cs \<and> (is_alphanumeric c \<or> c = 0x5B)"
proof (cases h)
  case (IP4 a)
  obtain d ds where d: "decimal (unat (ucast (drop_bit 24 a) :: u8)) = d # ds" "is_digit d"
    using decimal_nonempty decimal_digits by (metis list.set_intros(1) neq_Nil_conv)
  then show ?thesis using IP4 by (simp add: ip4_print_def to_be_4 is_alphanumeric_def)
next
  case (HostName s)
  then obtain r l where "label s = Some (r, l)"
    using assms(2) by (cases "label s") (auto simp: hostname_def)
  then show ?thesis
    using HostName by (cases s) (auto simp: label_def label_char_def Let_def split: if_splits)
qed simp

lemma alphanumeric_solid:
  "is_alphanumeric c \<or> c = 0x5B \<Longrightarrow> \<not> whitespace c \<and> \<not> is_ascii_whitespace c"
proof -
  have "list_all (\<lambda>c. \<not> is_alphanumeric c \<and> c \<noteq> 0x5B) [0x20, 0x09, 0x0D, 0x0A, 0x0C]" by code_simp
  then show "is_alphanumeric c \<or> c = 0x5B \<Longrightarrow> ?thesis"
    by (auto simp: whitespace_def is_ascii_whitespace_def)
qed

lemma hostport_print_start:
  assumes "ip6_text_ok T" "host_wf (hp_host hp)"
  shows "ends whitespace (hostport_print T ctx hp @ rest)"
proof -
  from host_print_start [OF assms] obtain c cs
    where "host_print T (hp_host hp) = c # cs" "is_alphanumeric c \<or> c = 0x5B" by blast
  then show ?thesis using alphanumeric_solid by (auto simp: hostport_print_def)
qed

lemma host_cont_CPS: "host_cont c \<or> c = 0x3A \<Longrightarrow> params_cont CPS c"
proof -
  have "list_all param_char [0x2D, 0x2E, 0x3A]" by code_simp
  then show "host_cont c \<or> c = 0x3A \<Longrightarrow> ?thesis"
    by (auto simp: host_cont_def label_char_def params_cont_def CPS_def param_char_def)
qed

lemma ends_params_print:
  assumes "ends (params_cont CPS) rest"
  shows "ends (\<lambda>c. host_cont c \<or> c = 0x3A) (params_print CPS ps @ rest)"
proof (cases ps)
  case Nil
  then show ?thesis using ends_mono [OF assms host_cont_CPS] by (simp add: params_print_def)
next
  case (Cons p ps')
  have "\<not> (host_cont 0x3B \<or> 0x3B = (0x3A :: u8))" by code_simp
  then show ?thesis using Cons by (simp add: params_print_def CPS_def)
qed

lemma parse_sip_version_print: "parse_sip_version (ascii ''SIP/2.0/'' @ i) = Some i"
proof -
  have a: "ascii ''SIP/2.0/'' = ascii ''SIP'' @ ascii ''/'' @ ascii ''2.0'' @ ascii ''/''"
    by (simp add: ascii_def)
  have "list_all (\<lambda>c. \<not> is_ascii_whitespace c) (ascii ''S/2'')" by code_simp
  then have "ends is_ascii_whitespace (ascii ''SIP'' @ xs)" "ends is_ascii_whitespace (ascii ''/'' @ xs)"
    "ends is_ascii_whitespace (ascii ''2.0'' @ xs)" for xs
    by (simp_all add: ascii_def)
  then show ?thesis unfolding a parse_sip_version_def by (simp add: ws_ends del: append_Cons)
qed

lemma via_parse_print:
  assumes T: "ip6_text_ok T" and v: "via_wf v" and rest: "ends (params_cont CPS) rest"
  shows "via_parse T (via_print T v @ rest) = Some (rest, v)"
proof -
  let ?h = "hostport_print T None (sent_by v) @ params_print CPS (via_params v) @ rest"
  have wf: "via_transport v \<noteq> []" "\<forall>c\<in>set (via_transport v). token c" "host_wf (hp_host (sent_by v))"
    "\<forall>p\<in>set (via_params v). param_ok CPS p"
    using v by (auto simp: via_wf_def list_all_iff)
  have sp: "\<not> token 0x20" "whitespace 0x20" by code_simp+
  have tw: "takeWhile token (via_transport v @ 0x20 # ?h) = via_transport v"
    "dropWhile token (via_transport v @ 0x20 # ?h) = 0x20 # ?h"
    using wf(2) sp by (auto intro!: takeWhile_all dropWhile_all)
  have "dropWhile whitespace (via_transport v @ 0x20 # ?h) = via_transport v @ 0x20 # ?h"
    using wf(1,2) token_not_whitespace by (intro dropWhile_stop) (cases "via_transport v", auto)
  moreover have "dropWhile whitespace (0x20 # ?h) = ?h"
    using sp dropWhile_stop [OF hostport_print_start [OF T wf(3)]] by simp
  moreover have "hostport_parse T ?h = Some (params_print CPS (via_params v) @ rest, sent_by v)"
    by (rule hostport_parse_print [OF T wf(3) _ ends_params_print [OF rest]]) simp
  ultimately show ?thesis
    using cps.params_parse_print [OF wf(4) rest]
    by (simp add: via_parse_def via_print_def parse_sip_version_print tw Let_def)
qed

section \<open>URIs\<close>

lemma uri_print_in: "uri_print T ctx meth u = uri_print T None meth (uri_in ctx meth u)"
  by (cases ctx) (auto simp: uri_print_def uri_in_def filtered_print_def hostport_print_def params_print_def
      split: UriContext.split option.split)

lemma uri_in_wf: "uri_wf u \<Longrightarrow> uri_wf (uri_in ctx meth u)"
  by (auto simp: uri_wf_def uri_in_def list_all_iff)

lemma user_chars:
  "\<not> user_char 0x40" "\<not> user_char 0x3A" "\<not> user_char 0x3E" "\<not> password_char 0x40" "\<not> password_char 0x3E"
  by code_simp+

lemma encode_user_in: "\<forall>b\<in>set s. byte_safe user_char b \<Longrightarrow> \<forall>c\<in>set (percent_encode user_char s). user_char c"
  by (rule encode_set_in) (simp_all add: user_char_def)

text \<open>A character that ends the text of a URI.\<close>

definition terminator :: "u8 \<Rightarrow> bool" where
  "terminator e \<longleftrightarrow> \<not> user_char e \<and> \<not> password_char e \<and> e \<noteq> 0x40 \<and> e \<noteq> 0x3A"

lemma terminators: "terminator 0x3E" "terminator 0x20"
  by code_simp+

lemma parse_user_pw_none:
  assumes "0x40 \<notin> set t" and e: "terminator e"
  shows "parse_user_pw (t @ e # xs) = (t @ e # xs, None)"
proof -
  have tag_none: "tag [0x40] (s @ e # xs) = None" if "set s \<subseteq> set t" for s
    using assms that by (cases s) (auto simp: terminator_def)
  have drop: "dropWhile P (s @ e # xs) = dropWhile P s @ e # xs" if "\<not> P e" for P s
    using that by (intro dropWhile_ends) simp
  show ?thesis
  proof (cases "tag [0x3A] (dropWhile user_char t @ e # xs)")
    case None
    moreover have "set (dropWhile user_char t) \<subseteq> set t" by (auto dest: set_dropWhileD)
    ultimately show ?thesis
      using tag_none [of "dropWhile user_char t"] by (simp add: parse_user_pw_def drop e [unfolded terminator_def])
  next
    case (Some r)
    have "set (dropWhile user_char t) \<subseteq> set t" by (auto dest: set_dropWhileD)
    with Some obtain s where s: "r = s @ e # xs" "set s \<subseteq> set t"
      by (cases "dropWhile user_char t") (use e in \<open>auto simp: terminator_def split: if_splits\<close>)
    then have "tag [0x40] (dropWhile password_char s @ e # xs) = None"
      by (intro tag_none) (auto dest: set_dropWhileD)
    then show ?thesis
      using Some s by (simp add: parse_user_pw_def drop e [unfolded terminator_def])
  qed
qed

lemma no_at_params:
  assumes "\<forall>c. CHAR_SPEC S c \<longrightarrow> c \<noteq> 0x40" "\<forall>c. is_alphanumeric c \<longrightarrow> CHAR_SPEC S c"
    "FIRST_DELIMITER S \<noteq> 0x40" "DELIMITER S \<noteq> 0x40" "\<forall>p\<in>set ps. param_ok S p"
  shows "0x40 \<notin> set (params_print S ps)"
proof -
  have "0x40 \<notin> set (percent_encode (CHAR_SPEC S) s)" if "\<forall>b\<in>set s. byte_safe (CHAR_SPEC S) b" for s
    using encode_set_in [OF _ that] assms(1,2) by blast
  then have "0x40 \<notin> set (param_write S p)" if "param_ok S p" for p
    using that by (auto simp: param_write_def param_ok_def list_all_iff split: option.splits)
  then show ?thesis using assms(3-5) by (auto simp: params_print_def split: list.split)
qed

lemma no_at_hostport:
  assumes T: "ip6_text_ok T" and h: "host_wf (hp_host hp)"
  shows "0x40 \<notin> set (hostport_print T ctx hp)"
proof -
  have "\<not> is_digit 0x40" "\<not> is_ip6_char 0x40" "\<not> host_cont 0x40" by code_simp+
  then have "0x40 \<notin> set (decimal n)" "0x40 \<notin> set (ip6_print T a)" "list_all host_cont s \<Longrightarrow> 0x40 \<notin> set s" for n a s
    using decimal_digits T by (auto simp: ip6_text_ok_def list_all_iff)
  then show ?thesis
    using h by (cases "hp_host hp") (auto simp: hostport_print_def ip4_print_def to_be_4 split: option.split)
qed

lemma uri_start:
  "parse_scheme ((if b then ascii ''sips:'' else ascii ''sip:'') @ i) = Some (i, b)"
proof -
  have "\<not> tag_no_case (ascii ''sip:'') (ascii ''sips:'' @ i)"
    by (simp add: tag_no_case_def eq_ignore_ascii_case_def ascii_def ascii_lower_byte_def)
  moreover have "tag_no_case p (p @ i)" for p by (simp add: tag_no_case_prefix)
  moreover have "length (ascii ''sips:'') = 5" "length (ascii ''sip:'') = 4" by (simp_all add: ascii_def)
  ultimately show ?thesis by (auto simp: parse_scheme_def)
qed

lemma parse_user_pw_print:
  assumes e: "terminator e" and "user_wf up" "up = EmptyUser \<Longrightarrow> 0x40 \<notin> set t"
  shows "\<exists>x. parse_user_pw (user_print up @ t @ e # xs) = (t @ e # xs, x) \<and> user_part_of x = Some up"
proof (cases up)
  case EmptyUser
  then show ?thesis using assms parse_user_pw_none [OF _ e, of t xs] by simp
next
  case (User u)
  then have u: "\<forall>b\<in>set u. byte_safe user_char b" "utf8_valid u" using assms by (auto simp: list_all_iff)
  then show ?thesis
    using User encode_user_in [OF u(1)] user_chars
    by (auto simp: parse_user_pw_def while_simps decode_utf8_def percent_decode_encode)
next
  case (UserPw u pw)
  then have u: "\<forall>b\<in>set u. byte_safe user_char b" "utf8_valid u" "\<forall>c\<in>set pw. password_char c"
    using assms by (auto simp: list_all_iff)
  then show ?thesis
    using UserPw encode_user_in [OF u(1)] user_chars
    by (auto simp: parse_user_pw_def while_simps decode_utf8_def percent_decode_encode)
qed

lemma hps_start: "params_print HPS ps @ 0x3E # xs = c # cs \<Longrightarrow> \<not> params_cont CPS c"
proof -
  have "\<not> params_cont CPS 0x3F" "\<not> params_cont CPS 0x3E" by code_simp+
  then show "params_print HPS ps @ 0x3E # xs = c # cs \<Longrightarrow> ?thesis"
    by (cases ps) (auto simp: params_print_def HPS_def)
qed

lemma uri_parse_print:
  assumes T: "ip6_text_ok T" and u: "uri_wf u"
  shows "uri_parse T (uri_print T ctx meth u @ 0x3E # xs) = Some (0x3E # xs, uri_in ctx meth u)"
proof -
  define w where "w = uri_in ctx meth u"
  have wf: "user_wf (user_part w)" "host_wf (hp_host (host_port w))"
    "\<forall>p\<in>set (uri_params w). param_ok CPS p" "\<forall>p\<in>set (header_params w). param_ok HPS p"
    using uri_in_wf [OF u, of ctx meth] by (simp_all add: w_def uri_wf_def list_all_iff)
  let ?hp = "hostport_print T None (host_port w)"
  let ?ps = "params_print CPS (uri_params w)" and ?hs = "params_print HPS (header_params w)"
  have "list_all (\<lambda>c. \<not> c) [param_char 0x40, header_char 0x40]" by code_simp
  then have "0x40 \<notin> set (?hp @ ?ps @ ?hs)"
    using no_at_hostport [OF T wf(2)] no_at_params [of CPS, OF _ _ _ _ wf(3)] no_at_params [of HPS, OF _ _ _ _ wf(4)]
    by (auto simp: CPS_def HPS_def param_char_def header_char_def)
  then obtain x where x: "parse_user_pw (user_print (user_part w) @ (?hp @ ?ps @ ?hs) @ 0x3E # xs)
      = ((?hp @ ?ps @ ?hs) @ 0x3E # xs, x)" "user_part_of x = Some (user_part w)"
    using parse_user_pw_print [OF terminators(1) wf(1)] by blast
  have ends: "ends (params_cont HPS) (0x3E # xs)"
  proof -
    have "\<not> params_cont HPS 0x3E" by code_simp
    then show ?thesis by simp
  qed
  have cps: "ends (params_cont CPS) (?hs @ 0x3E # xs)"
    using hps_start by (cases "?hs @ 0x3E # xs") auto
  have "hostport_parse T (?hp @ ?ps @ ?hs @ 0x3E # xs) = Some (?ps @ ?hs @ 0x3E # xs, host_port w)"
    using ends_params_print [OF cps] by (intro hostport_parse_print [OF T wf(2)]) auto
  moreover have "uri_print T ctx meth u = (if sips w then ascii ''sips:'' else ascii ''sip:'')
      @ user_print (user_part w) @ ?hp @ ?ps @ ?hs"
    unfolding uri_print_in [of T ctx] w_def [symmetric] by (simp add: uri_print_def)
  ultimately show ?thesis
    using x cps.params_parse_print [OF wf(3) cps] hps.params_parse_print [OF wf(4) ends]
    unfolding w_def [symmetric]
    by (simp add: uri_parse_def uri_start del: append_Cons)
qed

section \<open>Name-addresses, From and To\<close>

lemma bracketed_addr_print:
  assumes T: "ip6_text_ok T" and a: "name_addr_wf a"
  shows "bracketed_addr T (name_addr_print T ctx meth a @ rest) = Some (rest, a\<lparr>na_uri := uri_in ctx meth (na_uri a)\<rparr>)"
proof -
  have uri: "uri_parse T (uri_print T ctx meth (na_uri a) @ 0x3E # rest) = Some (0x3E # rest, uri_in ctx meth (na_uri a))"
    using a by (intro uri_parse_print [OF T]) (simp add: name_addr_wf_def)
  have lt: "\<not> whitespace 0x3C" "\<not> display_char 0x3C" by code_simp+
  show ?thesis
  proof (cases "na_name a")
    case None
    then show ?thesis
      using uri lt by (simp add: bracketed_addr_def name_addr_print_def)
  next
    case (Some n)
    then have n: "n \<noteq> []" "\<forall>c\<in>set n. c \<noteq> 0x22" "trim n = n" using a by (auto simp: name_addr_wf_def)
    then show ?thesis
      using Some uri lt by (simp add: bracketed_addr_def name_addr_print_def while_simps)
  qed
qed

lemma utf8_ascii: "\<forall>c\<in>set s. c \<le> 0x7F \<Longrightarrow> utf8_valid s"
  by (induction s) auto

lemma percent_encode_id:
  "\<forall>c\<in>set s. c < 0x80 \<and> 0x20 \<le> c \<and> c \<noteq> 0x7F \<and> spec c \<Longrightarrow> percent_encode spec s = s"
  by (induction s) (auto simp: percent_encode_def)

lemma param_char_printable: "param_char c \<Longrightarrow> c < 0x80 \<and> 0x20 \<le> c \<and> c \<noteq> 0x7F"
  by (auto simp: param_char_def is_alphanumeric_def is_digit_def ascii_def of_char_def
      word_le_nat_alt word_less_nat_alt)

lemma tag_param_print:
  assumes "list_all (\<lambda>c. param_char c \<and> c \<noteq> 0x25) t"
  shows "ascii '';tag='' @ t @ params_print CPS ps = params_print CPS (param_new (ascii ''tag'') t # ps)"
    and "param_ok CPS (param_new (ascii ''tag'') t)"
proof -
  have t: "\<forall>c\<in>set t. param_char c \<and> c \<noteq> 0x25" using assms by (simp add: list_all_iff)
  have tag: "list_all (\<lambda>c. param_char c \<and> c \<noteq> 0x25) (ascii ''tag'')" by code_simp
  then have enc: "percent_encode param_char t = t" "percent_encode param_char (ascii ''tag'') = ascii ''tag''"
    using t param_char_printable by (auto intro!: percent_encode_id simp: list_all_iff)
  have "ascii '';tag='' = 0x3B # ascii ''tag'' @ [0x3D]" by (simp add: ascii_def)
  then show "ascii '';tag='' @ t @ params_print CPS ps = params_print CPS (param_new (ascii ''tag'') t # ps)"
    using enc by (cases ps) (simp_all add: params_print_def param_write_def param_new_def CPS_def)
  have "c \<le> 0x7F" if "param_char c" for c using param_char_printable [OF that] by (simp add: word_le_nat_alt word_less_nat_alt)
  then have "utf8_valid t" "utf8_valid (ascii ''tag'')" using t tag by (auto intro!: utf8_ascii simp: list_all_iff)
  then show "param_ok CPS (param_new (ascii ''tag'') t)"
    using t tag param_char_printable by (auto simp: param_ok_def param_new_def byte_safe_def CPS_def list_all_iff)
qed

lemma remove_where_none: "\<forall>x\<in>set xs. \<not> f x \<Longrightarrow> remove_where f xs = None"
  by (induction xs) auto

lemma from_to_parse_print:
  assumes T: "ip6_text_ok T" and f: "from_to_wf f" and rest: "ends (params_cont CPS) rest"
  shows "from_to_parse T (from_to_print T meth f @ rest)
    = Some (rest, f\<lparr>ft_uri := (ft_uri f)\<lparr>na_uri := uri_in (Some FromToCtx) meth (na_uri (ft_uri f))\<rparr>\<rparr>)"
proof -
  have wf: "name_addr_wf (ft_uri f)" "\<forall>p\<in>set (ft_params f). param_ok CPS p"
    "\<forall>p\<in>set (ft_params f). param_name p \<noteq> ascii ''tag''"
    using f unfolding from_to_wf_def list_all_iff by (simp, simp, metis image_eqI)
  have nap: "name_addr_parse_no_params T (name_addr_print T (Some FromToCtx) meth (ft_uri f) @ r)
      = Some (r, (ft_uri f)\<lparr>na_uri := uri_in (Some FromToCtx) meth (na_uri (ft_uri f))\<rparr>)" for r
    using bracketed_addr_print [OF T wf(1)] by (simp add: name_addr_parse_no_params_def)
  show ?thesis
  proof (cases "ft_tag f")
    case None
    then show ?thesis
      using cps.params_parse_print [OF wf(2) rest] wf(3)
      by (simp add: from_to_parse_def from_to_print_def nap params_take_def remove_where_none)
  next
    case (Some t)
    then have t: "list_all (\<lambda>c. param_char c \<and> c \<noteq> 0x25) t" using f by (simp add: from_to_wf_def)
    let ?ps = "param_new (ascii ''tag'') t # ft_params f"
    have "params_parse CPS (params_print CPS ?ps @ rest) = (rest, ?ps)"
      using wf(2) tag_param_print(2) [OF t] by (intro cps.params_parse_print [OF _ rest]) simp
    then show ?thesis
      using Some tag_param_print(1) [OF t, of "ft_params f"]
      by (simp add: from_to_parse_def from_to_print_def nap params_take_def param_new_def)
  qed
qed

section \<open>What is read back\<close>

text \<open>
  C24: The headers that identify transactions and dialogs are read back as they were printed:
  a \<^verbatim>\<open>Via\<close> exactly, and a \<^verbatim>\<open>From\<close> or \<^verbatim>\<open>To\<close> with its display name, tag, parameters and the
  part of the URI that this context prints (no port, no header parameters and none of the
  parameters maddr, ttl, transport and lr). It holds for values without a percent sign,
  which is printed unescaped but decoded when read.\<close>

theorem sip_headers_roundtrip:
  assumes "ip6_text_ok T" "via_wf v" "from_to_wf f"
  shows "via_parse T (via_print T v) = Some ([], v)
    \<and> from_to_parse T (from_to_print T meth f)
        = Some ([], f\<lparr>ft_uri := (ft_uri f)\<lparr>na_uri := uri_in (Some FromToCtx) meth (na_uri (ft_uri f))\<rparr>\<rparr>)"
  using via_parse_print [OF assms(1,2), of "[]"] from_to_parse_print [OF assms(1,3), of "[]"] by simp

text \<open>An IPv6 text form for the examples: the address in decimal.\<close>

definition decimal_ip6 :: Ip6Text where
  "decimal_ip6 = \<lparr>ip6_print = (\<lambda>a. decimal (unat a)), ip6_parse = (\<lambda>s. Some (of_nat (digits_value s)))\<rparr>"

lemma decimal_ip6_ok: "ip6_text_ok decimal_ip6"
proof -
  have "is_ip6_char c" if "is_digit c" for c
    using that by (simp add: is_ip6_char_def hex_val_def is_digit_def)
  then show ?thesis
    using decimal_digits by (auto simp: ip6_text_ok_def decimal_ip6_def digits_value_decimal decimal_nonempty list_all_iff)
qed

definition sample_via :: Via where
  "sample_via = via_new (ascii ''UDP'') \<lparr>hp_host = HostName (ascii ''pc33''), hp_port = Some 7\<rparr> (ascii ''z9hG4bKabc'')"

definition sample_from :: FromTo where
  "sample_from = \<lparr>ft_uri = \<lparr>na_name = Some (ascii ''Bob''), na_uri = (uri_new \<lparr>hp_host = HostName (ascii ''example.org''), hp_port = None\<rparr>)\<lparr>user_part := User (ascii ''bob'')\<rparr>\<rparr>,
     ft_tag = Some (ascii ''77''), ft_params = []\<rparr>"

lemma sample_wf: "via_wf sample_via" "from_to_wf sample_from"
  by code_simp+

theorem sip_headers_roundtrip_witness:
  "via_parse decimal_ip6 (ascii ''SIP/2.0/UDP pc33:7;branch=z9hG4bKabc'') = Some ([], sample_via)
    \<and> from_to_parse decimal_ip6 (from_to_print decimal_ip6 None sample_from) = Some ([], sample_from)"
proof -
  have "ascii ''SIP/2.0/UDP pc33:7;branch=z9hG4bKabc'' = via_print decimal_ip6 sample_via" by code_simp
  moreover have "sample_from\<lparr>ft_uri := (ft_uri sample_from)\<lparr>na_uri := uri_in (Some FromToCtx) None (na_uri (ft_uri sample_from))\<rparr>\<rparr> = sample_from"
    by (simp add: sample_from_def uri_in_def uri_new_def)
  ultimately show ?thesis
    using sip_headers_roundtrip [OF decimal_ip6_ok sample_wf, of None] by simp
qed

text \<open>The percent sign is in the set of characters that are printed as they are.\<close>

lemma percent_sign_misread:
  "params_parse CPS (params_print CPS [param_new (ascii ''a'') (ascii ''%41'')]) = ([], [param_new (ascii ''a'') (ascii ''A'')])"
  by code_simp

text \<open>The character set of URI header parameters has no percent sign, so that an escape ends the value.\<close>

lemma header_escape_unread:
  "params_parse HPS (params_print HPS [param_new (ascii ''a'') (ascii ''b c'')]) = (ascii ''%20c'', [param_new (ascii ''a'') (ascii ''b'')])"
  by code_simp

text \<open>A backslash does not protect a quote.\<close>

lemma escaped_quote_ends_value:
  "parse_quoted ([0x22] @ ascii ''a'' @ [0x5C, 0x22] @ ascii ''b'' @ [0x22]) = Some (ascii ''b'' @ [0x22], ascii ''a'' @ [0x5C])"
  by code_simp

end
