(* ===== verification/Sip_Tsx_Key.thy ===== *)
theory Sip_Tsx_Key
  imports Sip_Roundtrip
begin

text \<open>
  How the transaction layer names transactions (\<^verbatim>\<open>sip/sip-core/src/transaction/key.rs\<close>),
  with the headers every message has (\<^verbatim>\<open>sip/sip-core/src/lib.rs\<close>), the leading lines
  (\<^verbatim>\<open>sip/sip-types/src/msg.rs\<close>) and what the endpoint does to a \<^verbatim>\<open>Via\<close> header when it
  sends and receives (\<^verbatim>\<open>sip/sip-core/src/endpoint.rs\<close>). The random part of a branch is an
  input.
\<close>

section \<open>Leading lines and base headers\<close>

record RequestLine =
  rl_method :: SipMethod
  rl_uri :: SipUri

record StatusLine =
  sl_code :: StatusCode
  sl_reason :: "bytes option"

datatype MessageLine = RequestMsg RequestLine | ResponseMsg StatusLine

fun is_request :: "MessageLine \<Rightarrow> bool" where
  "is_request (RequestMsg _) = True"
| "is_request (ResponseMsg _) = False"

fun request_method :: "MessageLine \<Rightarrow> SipMethod option" where
  "request_method (RequestMsg line) = Some (rl_method line)"
| "request_method (ResponseMsg _) = None"

definition TO :: Name where "TO = Name (ascii ''To'') (Some [ascii ''to'', ascii ''t''])"
definition CALL_ID :: Name where "CALL_ID = Name (ascii ''Call-ID'') (Some [ascii ''call-id'', ascii ''i''])"
definition CSEQ :: Name where "CSEQ = Name (ascii ''CSeq'') (Some [ascii ''cseq''])"

record BaseHeaders =
  bh_via :: "Via list"
  bh_from :: FromTo
  bh_to :: FromTo
  bh_call_id :: bytes
  bh_cseq :: CSeq

definition extract_from :: "Ip6Text \<Rightarrow> Headers \<Rightarrow> (HeaderError, BaseHeaders) result" where
  "extract_from T headers =
     bind_res (headers_get headers VIA (decode_vec (via_parse T))) (\<lambda>via.
     bind_res (headers_get headers FROM (decode_first (from_to_parse T))) (\<lambda>frm.
     bind_res (headers_get headers TO (decode_first (from_to_parse T))) (\<lambda>dst.
     bind_res (headers_get headers CALL_ID (decode_first call_id_parse)) (\<lambda>call_id.
     bind_res (headers_get headers CSEQ (decode_first cseq_parse)) (\<lambda>cseq.
       Inr \<lparr>bh_via = via, bh_from = frm, bh_to = dst, bh_call_id = call_id, bh_cseq = cseq\<rparr>)))))"

section \<open>Keys\<close>

definition RFC3261_BRANCH_PREFIX :: bytes where
  "RFC3261_BRANCH_PREFIX = ascii ''z9hG4bK''"

datatype Role = ServerRole | ClientRole

record Rfc2543 =
  k_role :: Role
  k_method :: "SipMethod option"
  k_cseq :: u32
  k_from_tag :: bytes
  k_call_id :: bytes
  k_via_host_port :: HostPort

record Rfc3261 =
  b_role :: Role
  b_branch :: bytes
  b_method :: "SipMethod option"

datatype TsxKey = RFC3261 Rfc3261 | RFC2543 Rfc2543

definition filter_method :: "SipMethod \<Rightarrow> SipMethod option" where
  "filter_method m = (if m = INVITE \<or> m = ACK then None else Some m)"

fun is_server :: "TsxKey \<Rightarrow> bool" where
  "is_server (RFC3261 rfc) \<longleftrightarrow> b_role rfc = ServerRole"
| "is_server (RFC2543 rfc) \<longleftrightarrow> k_role rfc = ServerRole"

fun is_invite :: "TsxKey \<Rightarrow> bool" where
  "is_invite (RFC3261 rfc) \<longleftrightarrow> b_method rfc = None"
| "is_invite (RFC2543 rfc) \<longleftrightarrow> k_method rfc = None"

definition generate_branch :: "bytes \<Rightarrow> bytes" where
  "generate_branch random = RFC3261_BRANCH_PREFIX @ random"

definition client_key :: "bytes \<Rightarrow> SipMethod \<Rightarrow> TsxKey" where
  "client_key random m =
     RFC3261 \<lparr>b_role = ClientRole, b_branch = generate_branch random, b_method = filter_method m\<rparr>"

fun key_branch :: "TsxKey \<Rightarrow> bytes" where
  "key_branch (RFC3261 v) = b_branch v"
| "key_branch (RFC2543 _) = []"

definition via_branch :: "Via \<Rightarrow> bytes" where
  "via_branch v = (case params_get_val (via_params v) (ascii ''branch'') of Some b \<Rightarrow> b | None \<Rightarrow> [])"

text \<open>Indexing \<^verbatim>\<open>via[0]\<close> panics on an empty vector.\<close>

definition from_headers :: "BaseHeaders \<Rightarrow> Role \<Rightarrow> (HeaderError, TsxKey) result panics" where
  "from_headers headers role =
     (case bh_via headers of
        [] \<Rightarrow> None
      | via # _ \<Rightarrow>
          let meth = filter_method (cseq_method (bh_cseq headers)) in
          Some (if tag RFC3261_BRANCH_PREFIX (via_branch via) \<noteq> None
            then Inr (RFC3261 \<lparr>b_role = role, b_branch = via_branch via, b_method = meth\<rparr>)
            else bind_res (ok_or (ft_tag (bh_from headers)) (Malformed FROM)) (\<lambda>t.
              Inr (RFC2543 \<lparr>k_role = role, k_method = meth, k_cseq = cseq_num (bh_cseq headers),
                k_from_tag = t, k_call_id = bh_call_id headers, k_via_host_port = sent_by via\<rparr>))))"

fun from_message_parts :: "MessageLine \<Rightarrow> BaseHeaders \<Rightarrow> (HeaderError, TsxKey) result panics" where
  "from_message_parts (RequestMsg _) headers = from_headers headers ServerRole"
| "from_message_parts (ResponseMsg _) headers = from_headers headers ClientRole"

section \<open>The Via header on its way\<close>

datatype Direction = NoDirection | Outgoing SocketAddr | Incoming SocketAddr

text \<open>The answers of a \<^verbatim>\<open>Transport\<close>; its \<^verbatim>\<open>send\<close> is an output of the model.\<close>

record TpHandle =
  tp_name :: bytes
  tp_secure :: bool
  tp_reliable :: bool
  tp_bound :: SocketAddr
  tp_sent_by :: SocketAddr
  tp_direction :: Direction

definition create_via :: "TpHandle \<Rightarrow> TsxKey \<Rightarrow> HostPort option \<Rightarrow> Via" where
  "create_via transport tsx_key via_host_port =
     via_new (tp_name transport)
       (case via_host_port of Some hp \<Rightarrow> hp | None \<Rightarrow> hostport_of_socket (tp_sent_by transport))
       (key_branch tsx_key)"

fun ip_string :: "Ip6Text \<Rightarrow> IpAddr \<Rightarrow> bytes" where
  "ip_string T (IpV4 a) = ip4_print a"
| "ip_string T (IpV6 a) = ip6_print T a"

definition add_received_rport :: "Ip6Text \<Rightarrow> Via \<Rightarrow> SocketAddr \<Rightarrow> Via" where
  "add_received_rport T via source =
     (let ps = via_params via;
          ps = (if host_of_ip (sock_ip source) \<noteq> hp_host (sent_by via)
                then params_push_or_edit ps (ascii ''received'') (ip_string T (sock_ip source)) else ps);
          ps = (if params_get ps (ascii ''rport'') \<noteq> None
                then params_set ps (ascii ''rport'') (Some (decimal (unat (sock_port source)))) else ps) in
      via\<lparr>via_params := ps\<rparr>)"

section \<open>Matching\<close>

lemma branch_names: "ascii ''branch'' \<noteq> ascii ''received''" "ascii ''branch'' \<noteq> ascii ''rport''"
  "ascii ''rport'' \<noteq> ascii ''received''"
  by (simp_all add: ascii_def)

lemma received_keeps:
  "via_branch (add_received_rport T via source) = via_branch via"
  "sent_by (add_received_rport T via source) = sent_by via"
  "via_transport (add_received_rport T via source) = via_transport via"
  using branch_names by (auto simp: add_received_rport_def via_branch_def Let_def)

lemma generate_branch_magic: "tag RFC3261_BRANCH_PREFIX (generate_branch r) = Some r"
  by (simp add: generate_branch_def)

lemma param_ok_text:
  assumes "list_all (\<lambda>c. param_char c \<and> c \<noteq> 0x25) v" "list_all (\<lambda>c. param_char c \<and> c \<noteq> 0x25) n"
  shows "param_ok CPS \<lparr>param_name = n, param_value = Some v\<rparr>"
proof -
  have "c \<le> 0x7F" if "param_char c" for c
    using param_char_printable [OF that] by (simp add: word_le_nat_alt word_less_nat_alt)
  then have "utf8_valid v" "utf8_valid n" using assms by (auto intro!: utf8_ascii simp: list_all_iff)
  then show ?thesis
    using assms param_char_printable by (auto simp: param_ok_def byte_safe_def CPS_def list_all_iff)
qed

lemma param_ok_set_value:
  assumes "param_ok CPS p" "list_all (\<lambda>c. param_char c \<and> c \<noteq> 0x25) v"
  shows "param_ok CPS (p\<lparr>param_value := Some v\<rparr>)"
  using assms param_ok_text [OF assms(2), of "[]"] by (simp add: param_ok_def)

lemma decimal_param: "list_all (\<lambda>c. param_char c \<and> c \<noteq> 0x25) (decimal n)"
proof -
  have "\<not> is_digit 0x25" by code_simp
  then show ?thesis using decimal_digits [of n] by (auto simp: list_all_iff param_char_def is_alphanumeric_def)
qed

lemma ip_string_param:
  assumes "ip6_text_ok T"
  shows "list_all (\<lambda>c. param_char c \<and> c \<noteq> 0x25) (ip_string T ip)"
proof (cases ip)
  case (IpV4 a)
  have "list_all (\<lambda>c. param_char c \<and> c \<noteq> 0x25) [0x2E]" by code_simp
  then show ?thesis using IpV4 decimal_param by (simp add: ip4_print_def to_be_4)
next
  case (IpV6 a)
  have "param_char c \<and> c \<noteq> 0x25" if "is_ip6_char c" for c
  proof -
    have "param_char 0x3A" "param_char 0x2E" "\<not> is_ip6_char 0x25" by code_simp+
    moreover have "is_alphanumeric c" if "hex_val c \<noteq> None"
      using that by (auto simp: hex_val_def is_alphanumeric_def is_digit_def word_le_nat_alt split: if_splits)
    ultimately show ?thesis using that by (auto simp: is_ip6_char_def param_char_def)
  qed
  then show ?thesis using IpV6 assms by (auto simp: ip6_text_ok_def list_all_iff)
qed

lemma params_set_ok:
  assumes "list_all (param_ok CPS) ps" "list_all (\<lambda>c. param_char c \<and> c \<noteq> 0x25) v"
  shows "list_all (param_ok CPS) (params_set ps n (Some v))"
  using assms(1) param_ok_set_value [OF _ assms(2)]
  by (induction ps) (auto simp: params_set_def)

lemma received_wf:
  assumes T: "ip6_text_ok T" and v: "via_wf v"
  shows "via_wf (add_received_rport T v source)"
proof -
  have "list_all (\<lambda>c. param_char c \<and> c \<noteq> 0x25) (ascii ''received'')" by code_simp
  then have "param_ok CPS (param_new (ascii ''received'') (ip_string T (sock_ip source)))"
    unfolding param_new_def by (intro param_ok_text ip_string_param [OF T])
  then show ?thesis
    using v params_set_ok ip_string_param [OF T] decimal_param received_keeps
    by (simp add: via_wf_def add_received_rport_def Let_def params_push_or_edit_def params_push_def)
qed

text \<open>The \<^verbatim>\<open>Via\<close> headers this endpoint creates.\<close>

definition via_source_ok :: "TpHandle \<Rightarrow> HostPort option \<Rightarrow> bool" where
  "via_source_ok tp hp \<longleftrightarrow> tp_name tp \<noteq> [] \<and> list_all token (tp_name tp)
     \<and> (case hp of Some hp \<Rightarrow> host_wf (hp_host hp) | None \<Rightarrow> True)"

lemma host_of_ip_wf: "host_wf (host_of_ip ip)"
  by (cases ip) auto

lemma create_via_wf:
  assumes "via_source_ok tp hp" "list_all is_alphanumeric random"
  shows "via_wf (create_via tp (client_key random m) hp)"
proof -
  have "list_all (\<lambda>c. param_char c \<and> c \<noteq> 0x25) (RFC3261_BRANCH_PREFIX @ ascii ''branch'')" by code_simp
  moreover have "list_all (\<lambda>c. param_char c \<and> c \<noteq> 0x25) random"
  proof -
    have "\<not> is_alphanumeric 0x25" by code_simp
    then show ?thesis using assms(2) by (auto simp: list_all_iff param_char_def)
  qed
  ultimately have "param_ok CPS (param_new (ascii ''branch'') (generate_branch random))"
    unfolding param_new_def generate_branch_def by (intro param_ok_text) auto
  then show ?thesis
    using assms(1) host_of_ip_wf
    by (simp add: via_source_ok_def via_wf_def create_via_def via_new_def client_key_def params_push_def
        hostport_of_socket_def split: option.splits)
qed

lemma create_via_branch: "via_branch (create_via tp (client_key random m) hp) = generate_branch random"
  by (simp add: create_via_def via_new_def via_branch_def client_key_def params_push_def params_get_val_def
      params_get_def param_new_def)

text \<open>
  C7: A response finds the client transaction of its request. The \<^verbatim>\<open>Via\<close> header that the
  client creates is read by the server, which may add the address the request came from and
  prints it into the response; what the client reads of it, together with a \<^verbatim>\<open>CSeq\<close> of the
  same method, gives the key the transaction was registered with.\<close>

theorem response_matches_client_tsx:
  assumes T: "ip6_text_ok T" and src: "via_source_ok tp hp" and rnd: "list_all is_alphanumeric random"
  shows "\<exists>via1 via2. via_parse T (via_print T (create_via tp (client_key random m) hp)) = Some ([], via1)
    \<and> via_parse T (via_print T (add_received_rport T via1 source)) = Some ([], via2)
    \<and> (\<forall>line headers. bh_via headers = via2 # vias \<and> cseq_method (bh_cseq headers) = m \<longrightarrow>
        from_message_parts (ResponseMsg line) headers = Some (Inr (client_key random m)))"
proof (intro exI conjI allI impI)
  let ?v = "create_via tp (client_key random m) hp"
  have wf: "via_wf ?v" using create_via_wf [OF src rnd] .
  show "via_parse T (via_print T ?v) = Some ([], ?v)"
    using via_parse_print [OF T wf, of "[]"] by simp
  show "via_parse T (via_print T (add_received_rport T ?v source)) = Some ([], add_received_rport T ?v source)"
    using via_parse_print [OF T received_wf [OF T wf], of "[]"] by simp
  fix line and headers :: BaseHeaders
  assume h: "bh_via headers = add_received_rport T ?v source # vias \<and> cseq_method (bh_cseq headers) = m"
  have "via_branch (add_received_rport T ?v source) = generate_branch random"
    by (simp add: received_keeps create_via_branch)
  then have "from_message_parts (ResponseMsg line) headers
      = Some (Inr (RFC3261 \<lparr>b_role = ClientRole, b_branch = generate_branch random, b_method = filter_method m\<rparr>))"
    using h by (simp add: from_headers_def generate_branch_magic Let_def)
  then show "from_message_parts (ResponseMsg line) headers = Some (Inr (client_key random m))"
    by (simp add: client_key_def)
qed

definition udp :: TpHandle where
  "udp = \<lparr>tp_name = ascii ''UDP'', tp_secure = False, tp_reliable = False, tp_bound = SockV4 1 7,
     tp_sent_by = SockV4 1 7, tp_direction = NoDirection\<rparr>"

theorem response_matches_client_tsx_witness:
  "\<exists>via1 via2. via_parse decimal_ip6 (via_print decimal_ip6 (create_via udp (client_key (ascii ''x1'') BYE) None)) = Some ([], via1)
    \<and> via_parse decimal_ip6 (via_print decimal_ip6 (add_received_rport decimal_ip6 via1 (SockV4 2 9))) = Some ([], via2)
    \<and> from_message_parts (ResponseMsg \<lparr>sl_code = 200, sl_reason = None\<rparr>)
        \<lparr>bh_via = [via2], bh_from = sample_from, bh_to = sample_from, bh_call_id = [], bh_cseq = \<lparr>cseq_num = 1, cseq_method = BYE\<rparr>\<rparr>
      = Some (Inr (client_key (ascii ''x1'') BYE))"
proof -
  have "via_source_ok udp None" "list_all is_alphanumeric (ascii ''x1'')" by code_simp+
  from response_matches_client_tsx [OF decimal_ip6_ok this, where m = BYE and source = "SockV4 2 9" and vias = "[]"]
  obtain via1 via2 where v: "via_parse decimal_ip6 (via_print decimal_ip6 (create_via udp (client_key (ascii ''x1'') BYE) None)) = Some ([], via1)"
    "via_parse decimal_ip6 (via_print decimal_ip6 (add_received_rport decimal_ip6 via1 (SockV4 2 9))) = Some ([], via2)"
    and k: "\<And>line headers. bh_via headers = [via2] \<and> cseq_method (bh_cseq headers) = BYE \<longrightarrow>
        from_message_parts (ResponseMsg line) headers = Some (Inr (client_key (ascii ''x1'') BYE))"
    by blast
  show ?thesis using v k by (intro exI conjI) auto
qed

text \<open>
  C25: Two requests belong to the same server transaction exactly if their methods are the same,
  or are INVITE and ACK, and either their top \<^verbatim>\<open>Via\<close> headers carry the same branch with the
  magic cookie, or both carry none and agree in sequence number, \<^verbatim>\<open>From\<close> tag, call id and the
  address of the \<^verbatim>\<open>Via\<close>. So an ACK with the branch of an INVITE finds it, and a CANCEL with that
  branch does not, but names the same branch; and no request is taken for a response to a
  request of this endpoint.\<close>

theorem request_keys_agree:
  assumes "bh_via h = v # vs" "bh_via h' = v' # vs'"
    and "from_message_parts (RequestMsg l) h = Some (Inr k)" "from_message_parts (RequestMsg l') h' = Some (Inr k')"
  defines "a \<equiv> cseq_method (bh_cseq h)" and "b \<equiv> cseq_method (bh_cseq h')"
  shows "(k = k' \<longleftrightarrow> (a = b \<or> a = INVITE \<and> b = ACK \<or> a = ACK \<and> b = INVITE)
      \<and> (if tag RFC3261_BRANCH_PREFIX (via_branch v) \<noteq> None then via_branch v = via_branch v'
         else tag RFC3261_BRANCH_PREFIX (via_branch v') = None
           \<and> cseq_num (bh_cseq h) = cseq_num (bh_cseq h') \<and> ft_tag (bh_from h) = ft_tag (bh_from h')
           \<and> bh_call_id h = bh_call_id h' \<and> sent_by v = sent_by v'))
    \<and> (tag RFC3261_BRANCH_PREFIX (via_branch v) \<noteq> None \<and> via_branch v = via_branch v' \<longrightarrow>
        (a = INVITE \<and> b = ACK \<longrightarrow> k = k') \<and> (a = INVITE \<and> b = CANCEL \<longrightarrow> k \<noteq> k')
        \<and> key_branch k = via_branch v \<and> key_branch k' = via_branch v)
    \<and> k \<noteq> client_key random m"
proof -
  have same: "filter_method a = filter_method b \<longleftrightarrow> a = b \<or> a = INVITE \<and> b = ACK \<or> a = ACK \<and> b = INVITE"
    by (auto simp: filter_method_def)
  show ?thesis unfolding same [symmetric]
    using assms(1-4) by (auto simp: from_headers_def Let_def client_key_def res_iff same [folded a_def b_def] a_def b_def filter_method_def split: if_splits)
qed

theorem request_keys_agree_witness:
  "\<exists>k k'. from_message_parts (RequestMsg \<lparr>rl_method = INVITE, rl_uri = na_uri (ft_uri sample_from)\<rparr>)
        \<lparr>bh_via = [sample_via], bh_from = sample_from, bh_to = sample_from, bh_call_id = [], bh_cseq = \<lparr>cseq_num = 1, cseq_method = INVITE\<rparr>\<rparr> = Some (Inr k)
    \<and> from_message_parts (RequestMsg \<lparr>rl_method = ACK, rl_uri = na_uri (ft_uri sample_from)\<rparr>)
        \<lparr>bh_via = [sample_via], bh_from = sample_from, bh_to = sample_from, bh_call_id = [], bh_cseq = \<lparr>cseq_num = 1, cseq_method = ACK\<rparr>\<rparr> = Some (Inr k)
    \<and> from_message_parts (RequestMsg \<lparr>rl_method = CANCEL, rl_uri = na_uri (ft_uri sample_from)\<rparr>)
        \<lparr>bh_via = [sample_via], bh_from = sample_from, bh_to = sample_from, bh_call_id = [], bh_cseq = \<lparr>cseq_num = 1, cseq_method = CANCEL\<rparr>\<rparr> = Some (Inr k')
    \<and> k \<noteq> k' \<and> key_branch k = key_branch k'"
proof -
  define h where "h m = \<lparr>bh_via = [sample_via], bh_from = sample_from, bh_to = sample_from, bh_call_id = [], bh_cseq = \<lparr>cseq_num = 1, cseq_method = m\<rparr>\<rparr>" for m
  define l where "l m = \<lparr>rl_method = m, rl_uri = na_uri (ft_uri sample_from)\<rparr>" for m
  have magic: "tag RFC3261_BRANCH_PREFIX (via_branch sample_via) \<noteq> None" by code_simp
  have ex: "\<exists>k. from_message_parts (RequestMsg (l m)) (h m) = Some (Inr k)" for m
    using magic by (auto simp: h_def from_headers_def Let_def)
  obtain k k' k'' where k: "from_message_parts (RequestMsg (l INVITE)) (h INVITE) = Some (Inr k)"
    "from_message_parts (RequestMsg (l ACK)) (h ACK) = Some (Inr k')" "from_message_parts (RequestMsg (l CANCEL)) (h CANCEL) = Some (Inr k'')"
    using ex by meson
  have v: "bh_via (h m) = [sample_via]" "cseq_method (bh_cseq (h m)) = m" for m by (simp_all add: h_def)
  have "k = k'" using request_keys_agree [OF v(1) v(1) k(1,2)] magic by (simp add: v)
  moreover have "k \<noteq> k''" "key_branch k = key_branch k''" using request_keys_agree [OF v(1) v(1) k(1,3)] magic by (simp_all add: v)
  ultimately show ?thesis using k by (auto simp: h_def l_def)
qed

end
