(* ===== verification/Sip_Endpoint.thy ===== *)
theory Sip_Endpoint
  imports Sip_Tsx_Key "HOL-Library.AList"
begin

text \<open>
  The endpoint's table of transactions and what it does with a received message
  (\<^verbatim>\<open>sip/sip-core/src/transaction/mod.rs\<close>, \<^verbatim>\<open>registration.rs\<close>, \<^verbatim>\<open>endpoint.rs\<close>,
  \<^verbatim>\<open>lib.rs\<close>). The hash map of handlers is an association list; a handler closure is the
  chain of filters in front of the channel it sends to; a channel whose receiver lives is an
  entry of \<open>channels\<close>, holding the messages not yet received. A layer is the function it
  applies to the offered request: \<open>None\<close> if it takes it, else what it leaves of it.
  \<open>None\<close> as the result of an operation is a panic.
\<close>

section \<open>Messages\<close>

record MessageTpInfo =
  mi_timestamp :: nat
  mi_source :: SocketAddr
  mi_buffer :: bytes
  mi_transport :: TpHandle

record ReceivedMessage =
  rm_tp_info :: MessageTpInfo
  rm_line :: MessageLine
  rm_headers :: Headers
  rm_body :: bytes

record TsxMessage =
  tm_tp_info :: MessageTpInfo
  tm_line :: MessageLine
  tm_base :: BaseHeaders
  tm_headers :: Headers
  tm_body :: bytes

section \<open>Transactions\<close>

datatype TsxHandler = SendTo nat | FilterThen "TsxMessage \<Rightarrow> bool" TsxHandler

record Transactions =
  tsx_map :: "(TsxKey \<times> TsxHandler) list"
  channels :: "nat \<Rightarrow> TsxMessage list option"
  next_channel :: nat

record TsxRegistration =
  reg_key :: TsxKey
  reg_channel :: nat

fun handler_channel :: "TsxHandler \<Rightarrow> nat" where
  "handler_channel (SendTo c) = c"
| "handler_channel (FilterThen f h) = handler_channel h"

fun handler_accepts :: "TsxHandler \<Rightarrow> TsxMessage \<Rightarrow> bool" where
  "handler_accepts (SendTo c) msg \<longleftrightarrow> True"
| "handler_accepts (FilterThen f h) msg \<longleftrightarrow> f msg \<and> handler_accepts h msg"

text \<open>Calling a handler: the message it rejects, if it does.\<close>

fun call_handler :: "Transactions \<Rightarrow> TsxHandler \<Rightarrow> TsxMessage \<Rightarrow> TsxMessage option \<times> Transactions" where
  "call_handler tx (SendTo c) msg =
     (case channels tx c of
        None \<Rightarrow> (Some msg, tx)
      | Some q \<Rightarrow> (None, tx\<lparr>channels := (channels tx)(c \<mapsto> q @ [msg])\<rparr>))"
| "call_handler tx (FilterThen f h) msg = (if f msg then call_handler tx h msg else (Some msg, tx))"

definition unbounded_channel :: "Transactions \<Rightarrow> nat \<times> Transactions" where
  "unbounded_channel tx =
     (next_channel tx, tx\<lparr>channels := (channels tx)(next_channel tx \<mapsto> []), next_channel := Suc (next_channel tx)\<rparr>)"

definition get_handler :: "Transactions \<Rightarrow> TsxKey \<Rightarrow> (TsxRegistration \<times> Transactions) + TsxHandler" where
  "get_handler tx key =
     (case map_of (tsx_map tx) key of
        Some h \<Rightarrow> Inr h
      | None \<Rightarrow>
          let (c, tx) = unbounded_channel tx in
          Inl (\<lparr>reg_key = key, reg_channel = c\<rparr>, tx\<lparr>tsx_map := AList.update key (SendTo c) (tsx_map tx)\<rparr>))"

definition register_transaction :: "Transactions \<Rightarrow> TsxKey \<Rightarrow> TsxHandler \<Rightarrow> Transactions panics" where
  "register_transaction tx key h =
     (if map_of (tsx_map tx) key \<noteq> None then None
      else Some (tx\<lparr>tsx_map := AList.update key h (tsx_map tx)\<rparr>))"

definition remove_transaction :: "Transactions \<Rightarrow> TsxKey \<Rightarrow> Transactions" where
  "remove_transaction tx key = tx\<lparr>tsx_map := AList.delete key (tsx_map tx)\<rparr>"

definition registration_create :: "Transactions \<Rightarrow> TsxKey \<Rightarrow> (TsxRegistration \<times> Transactions) panics" where
  "registration_create tx key =
     (let (c, tx) = unbounded_channel tx in
      map_option (Pair \<lparr>reg_key = key, reg_channel = c\<rparr>) (register_transaction tx key (SendTo c)))"

definition add_filter :: "Transactions \<Rightarrow> TsxRegistration \<Rightarrow> (TsxMessage \<Rightarrow> bool) \<Rightarrow> Transactions panics" where
  "add_filter tx self flt =
     (case map_of (tsx_map tx) (reg_key self) of
        None \<Rightarrow> None
      | Some old_handler \<Rightarrow>
          Some (tx\<lparr>tsx_map := AList.update (reg_key self) (FilterThen flt old_handler) (tsx_map tx)\<rparr>))"

text \<open>
  One poll of \<^verbatim>\<open>receive\<close>: the next message, or \<open>None\<close> while there is none; it panics if the
  channel is empty and no handler holds its sender.
\<close>

definition registration_receive :: "Transactions \<Rightarrow> TsxRegistration \<Rightarrow> (TsxMessage option \<times> Transactions) panics" where
  "registration_receive tx self =
     (case channels tx (reg_channel self) of
        Some (m # q) \<Rightarrow> Some (Some m, tx\<lparr>channels := (channels tx)(reg_channel self \<mapsto> q)\<rparr>)
      | _ \<Rightarrow> if list_ex (\<lambda>(_, h). handler_channel h = reg_channel self) (tsx_map tx)
             then Some (None, tx) else None)"

definition registration_drop :: "Transactions \<Rightarrow> TsxRegistration \<Rightarrow> Transactions" where
  "registration_drop tx self =
     (let tx = remove_transaction tx (reg_key self) in
      tx\<lparr>channels := (channels tx)(reg_channel self := None)\<rparr>)"

section \<open>Requests and responses\<close>

record IncomingRequest =
  ir_tp_info :: MessageTpInfo
  ir_tsx_key :: TsxKey
  ir_tsx :: "TsxRegistration option"
  ir_line :: RequestLine
  ir_base :: BaseHeaders
  ir_headers :: Headers
  ir_body :: bytes

definition take_tsx_registration :: "IncomingRequest \<Rightarrow> (TsxRegistration \<times> IncomingRequest) panics" where
  "take_tsx_registration self = map_option (\<lambda>tsx. (tsx, self\<lparr>ir_tsx := None\<rparr>)) (ir_tsx self)"

record OutgoingParts =
  op_transport :: TpHandle
  op_destination :: SocketAddr
  op_buffer :: bytes

record OutgoingResponse =
  or_line :: StatusLine
  or_headers :: Headers
  or_body :: bytes
  or_parts :: OutgoingParts

definition TIMESTAMP :: Name where "TIMESTAMP = Name (ascii ''Timestamp'') (Some [ascii ''timestamp''])"

text \<open>The values a vector of headers creates; it panics on the empty vector.\<close>

fun vec_values :: "bytes list \<Rightarrow> OneOrMore panics" where
  "vec_values [] = None"
| "vec_values (v # vs) = Some (fold (\<lambda>v x. oom_push x v) vs (One v))"

definition ip_from_str :: "Ip6Text \<Rightarrow> bytes \<Rightarrow> IpAddr option" where
  "ip_from_str T s =
     (case ip4_address s of Some ([], a) \<Rightarrow> Some (IpV4 a) | _ \<Rightarrow> map_option IpV6 (ip6_parse T s))"

text \<open>\<^verbatim>\<open>u16::from_str\<close>, which allows a plus sign.\<close>

definition u16_from_str :: "bytes \<Rightarrow> u16 option" where
  "u16_from_str s =
     (let ds = (case s of c # cs \<Rightarrow> if c = 0x2B then cs else s | [] \<Rightarrow> s) in
      if list_all is_digit ds then u16_from_digits ds else None)"

definition response_destination :: "Ip6Text \<Rightarrow> Via \<Rightarrow> MessageTpInfo \<Rightarrow> SocketAddr" where
  "response_destination T via tp_info =
     (case tp_direction (mi_transport tp_info) of
        NoDirection \<Rightarrow>
          (case Option.bind (params_get_val (via_params via) (ascii ''maddr'')) (ip_from_str T) of
             Some maddr \<Rightarrow> sock_new maddr (case hp_port (sent_by via) of Some p \<Rightarrow> p | None \<Rightarrow> 5060)
           | None \<Rightarrow>
               (case Option.bind (params_get_val (via_params via) (ascii ''rport'')) u16_from_str of
                  Some rport \<Rightarrow> sock_new (sock_ip (mi_source tp_info)) rport
                | None \<Rightarrow> mi_source tp_info))
      | Outgoing remote \<Rightarrow> remote
      | Incoming remote \<Rightarrow> remote)"

definition create_response ::
    "Ip6Text \<Rightarrow> IncomingRequest \<Rightarrow> StatusCode \<Rightarrow> bytes option \<Rightarrow> OutgoingResponse panics" where
  "create_response T request code reason =
     (if rl_method (ir_line request) = ACK then None
      else Option.bind (vec_values (map (via_print T) (bh_via (ir_base request)))) (\<lambda>via_values.
        let base = ir_base request;
            headers = insert_type [] VIA \<lparr>extend_values = (\<lambda>x. x), create_values = via_values\<rparr>;
            headers = insert_type headers FROM (replacing_value (from_to_print T None (bh_from base)));
            headers = insert_type headers TO (replacing_value (from_to_print T None (bh_to base)));
            headers = insert_type headers CALL_ID (replacing_value (bh_call_id base));
            headers = insert_type headers CSEQ (replacing_value (cseq_print (bh_cseq base)));
            headers = (if code = TRYING
              then (case clone_into (ir_headers request) headers TIMESTAMP of Inl _ \<Rightarrow> headers | Inr h \<Rightarrow> h)
              else headers) in
        Some \<lparr>or_line = \<lparr>sl_code = code, sl_reason = (case reason of Some r \<Rightarrow> Some r | None \<Rightarrow> code_text code)\<rparr>,
          or_headers = headers, or_body = [],
          or_parts = \<lparr>op_transport = mi_transport (ir_tp_info request),
            op_destination = response_destination T (hd (bh_via base)) (ir_tp_info request), op_buffer = []\<rparr>\<rparr>))"

section \<open>Receiving\<close>

type_synonym Layer = "IncomingRequest \<Rightarrow> IncomingRequest option"

text \<open>
  What becomes of a received message: it cannot be read, a transaction has it, it is a
  response without one, a layer took the request, or nobody wants it, with the answer the
  endpoint then sends and the registration of the transaction that sends it.
\<close>

datatype Received =
    Unreadable HeaderError
  | Delegated
  | Orphaned
  | Taken nat IncomingRequest
  | UnwantedAck
  | Unwanted TsxRegistration OutgoingResponse

fun offer_layers :: "Layer list \<Rightarrow> nat \<Rightarrow> IncomingRequest \<Rightarrow> (nat \<times> IncomingRequest) + IncomingRequest" where
  "offer_layers [] n request = Inr request"
| "offer_layers (layer # layers) n request =
     (case layer request of
        None \<Rightarrow> Inl (n, request)
      | Some request \<Rightarrow> offer_layers layers (Suc n) request)"

definition drop_request :: "Transactions \<Rightarrow> IncomingRequest \<Rightarrow> Transactions" where
  "drop_request tx request = (case ir_tsx request of Some reg \<Rightarrow> registration_drop tx reg | None \<Rightarrow> tx)"

definition handle_unwanted_request ::
    "Ip6Text \<Rightarrow> Transactions \<Rightarrow> IncomingRequest \<Rightarrow> (Received \<times> Transactions) panics" where
  "handle_unwanted_request T tx request =
     (if rl_method (ir_line request) = ACK then Some (UnwantedAck, drop_request tx request)
      else Option.bind (create_response T request CALL_OR_TRANSACTION_DOES_NOT_EXIST None) (\<lambda>response.
        Option.bind (take_tsx_registration request) (\<lambda>(reg, request).
          Some (Unwanted reg response, drop_request tx request))))"

definition dispatch ::
    "Ip6Text \<Rightarrow> Layer list \<Rightarrow> Transactions \<Rightarrow> TsxKey \<Rightarrow> TsxRegistration option \<Rightarrow> TsxMessage \<Rightarrow> (Received \<times> Transactions) panics" where
  "dispatch T layers tx key tsx msg =
     (case tm_line msg of
        ResponseMsg _ \<Rightarrow> Some (Orphaned, case tsx of Some reg \<Rightarrow> registration_drop tx reg | None \<Rightarrow> tx)
      | RequestMsg line \<Rightarrow>
          (case offer_layers layers 0 \<lparr>ir_tp_info = tm_tp_info msg, ir_tsx_key = key, ir_tsx = tsx, ir_line = line,
              ir_base = tm_base msg, ir_headers = tm_headers msg, ir_body = tm_body msg\<rparr> of
             Inl (n, request) \<Rightarrow> Some (Taken n request, tx)
           | Inr request \<Rightarrow> handle_unwanted_request T tx request))"

definition received_base :: "Ip6Text \<Rightarrow> ReceivedMessage \<Rightarrow> BaseHeaders \<Rightarrow> BaseHeaders panics" where
  "received_base T message base =
     (if is_request (rm_line message)
      then (case bh_via base of
              [] \<Rightarrow> None
            | v # vs \<Rightarrow> Some (base\<lparr>bh_via := add_received_rport T v (mi_source (rm_tp_info message)) # vs\<rparr>))
      else Some base)"

text \<open>The key of a message and the message as a transaction sees it.\<close>

definition message_key ::
    "Ip6Text \<Rightarrow> ReceivedMessage \<Rightarrow> (HeaderError, TsxKey \<times> TsxMessage) result panics" where
  "message_key T message =
     (case extract_from T (rm_headers message) of
        Inl e \<Rightarrow> Some (Inl e)
      | Inr base \<Rightarrow>
          Option.bind (received_base T message base) (\<lambda>base.
          map_option (\<lambda>r. bind_res r (\<lambda>key. Inr (key,
              \<lparr>tm_tp_info = rm_tp_info message, tm_line = rm_line message, tm_base = base,
               tm_headers = rm_headers message, tm_body = rm_body message\<rparr>)))
            (from_message_parts (rm_line message) base)))"

definition route ::
    "Ip6Text \<Rightarrow> Layer list \<Rightarrow> Transactions \<Rightarrow> TsxKey \<Rightarrow> TsxMessage \<Rightarrow> (Received \<times> Transactions) panics" where
  "route T layers tx key msg =
     (case get_handler tx key of
        Inr handler \<Rightarrow>
          (case call_handler tx handler msg of
             (None, tx) \<Rightarrow> Some (Delegated, tx)
           | (Some rejected, tx) \<Rightarrow> dispatch T layers tx key None rejected)
      | Inl (reg, tx) \<Rightarrow> dispatch T layers tx key (Some reg) msg)"

text \<open>
  The layers are functions here: a layer that waits before it takes or hands back the request
  does so within this step.
\<close>

definition do_receive ::
    "Ip6Text \<Rightarrow> Layer list \<Rightarrow> Transactions \<Rightarrow> ReceivedMessage \<Rightarrow> (Received \<times> Transactions) panics" where
  "do_receive T layers tx message =
     Option.bind (message_key T message) (\<lambda>r. case r of
       Inl e \<Rightarrow> Some (Unreadable e, tx)
     | Inr (key, msg) \<Rightarrow> route T layers tx key msg)"

end
