(* ===== verification/Sip_Dispatch.thy ===== *)
theory Sip_Dispatch
  imports Sip_Endpoint
begin

text \<open>
  Who owns a transaction. The registrations that are alive and the entries of the table
  belong together one to one; this invariant is kept by every operation, and with it the
  messages of a transaction reach its registration, in order, and the panics of the
  transaction layer cannot happen. The abstract view of the table is a map from keys to
  queues, on which receiving is appending.
\<close>

section \<open>Ownership\<close>

definition owns :: "Transactions \<Rightarrow> TsxRegistration \<Rightarrow> bool" where
  "owns tx r \<longleftrightarrow>
     (\<exists>h. map_of (tsx_map tx) (reg_key r) = Some h \<and> handler_channel h = reg_channel r)
     \<and> channels tx (reg_channel r) \<noteq> None \<and> reg_channel r < next_channel tx"

definition table_inv :: "Transactions \<Rightarrow> TsxRegistration list \<Rightarrow> bool" where
  "table_inv tx regs \<longleftrightarrow> distinct (map reg_key regs) \<and> distinct (map reg_channel regs)
     \<and> list_all (owns tx) regs \<and> fst ` set (tsx_map tx) = reg_key ` set regs"

lemma table_invI:
  assumes "distinct (map reg_key regs)" "distinct (map reg_channel regs)" "\<And>r. r \<in> set regs \<Longrightarrow> owns tx r"
    "fst ` set (tsx_map tx) = reg_key ` set regs"
  shows "table_inv tx regs"
  using assms by (simp add: table_inv_def list_all_iff)

lemma table_invD:
  assumes "table_inv tx regs"
  shows "distinct (map reg_key regs)" "distinct (map reg_channel regs)" "r \<in> set regs \<Longrightarrow> owns tx r"
    "fst ` set (tsx_map tx) = reg_key ` set regs"
  using assms by (simp_all add: table_inv_def list_all_iff)

lemma lookup_none: "table_inv tx regs \<Longrightarrow> map_of (tsx_map tx) k = None \<longleftrightarrow> k \<notin> reg_key ` set regs"
  using table_invD(4) [of tx regs] by (simp add: map_of_eq_None_iff)

lemma lookup_some:
  assumes "table_inv tx regs" "map_of (tsx_map tx) k = Some h"
  shows "\<exists>r\<in>set regs. reg_key r = k \<and> handler_channel h = reg_channel r"
proof -
  have "k \<in> reg_key ` set regs" using lookup_none [OF assms(1)] assms(2) by (metis option.distinct(1))
  then obtain r where r: "r \<in> set regs" "reg_key r = k" by auto
  with table_invD(3) [OF assms(1) r(1)] assms(2) show ?thesis by (auto simp: owns_def)
qed

lemma reg_unique:
  "table_inv tx regs \<Longrightarrow> r \<in> set regs \<Longrightarrow> r' \<in> set regs \<Longrightarrow> reg_channel r = reg_channel r' \<or> reg_key r = reg_key r' \<Longrightarrow> r = r'"
  using table_invD(1,2) [of tx regs] by (auto dest: inj_onD [OF distinct_map [THEN iffD1, THEN conjunct2]])

lemma keys_delete: "fst ` set (AList.delete k al) = fst ` set al - {k}"
  by (metis delete_keys set_map set_removeAll)

section \<open>Every operation keeps the invariant\<close>

lemma open_inv:
  assumes inv: "table_inv tx regs" and k: "k \<notin> reg_key ` set regs" and c: "unbounded_channel tx = (c, tx1)"
  shows "table_inv (tx1\<lparr>tsx_map := AList.update k (SendTo c) (tsx_map tx1)\<rparr>) (\<lparr>reg_key = k, reg_channel = c\<rparr> # regs)"
proof (rule table_invI)
  have c': "c = next_channel tx" "tsx_map tx1 = tsx_map tx" using c by (auto simp: unbounded_channel_def)
  have old: "owns tx r" "reg_key r \<noteq> k" "reg_channel r \<noteq> c" if "r \<in> set regs" for r
    using table_invD(3) [OF inv that] k that c' by (auto simp: owns_def)
  show "distinct (map reg_key (\<lparr>reg_key = k, reg_channel = c\<rparr> # regs))"
    "distinct (map reg_channel (\<lparr>reg_key = k, reg_channel = c\<rparr> # regs))"
    using table_invD(1,2) [OF inv] k old by auto
  show "fst ` set (tsx_map (tx1\<lparr>tsx_map := AList.update k (SendTo c) (tsx_map tx1)\<rparr>))
      = reg_key ` set (\<lparr>reg_key = k, reg_channel = c\<rparr> # regs)"
    using table_invD(4) [OF inv] c' by (simp add: dom_update)
  show "owns (tx1\<lparr>tsx_map := AList.update k (SendTo c) (tsx_map tx1)\<rparr>) r"
    if "r \<in> set (\<lparr>reg_key = k, reg_channel = c\<rparr> # regs)" for r
    using that old [of r] c by (auto simp: owns_def update_conv' unbounded_channel_def)
qed

lemma get_handler_inv:
  "table_inv tx regs \<Longrightarrow> get_handler tx k = Inl (r, tx') \<Longrightarrow> table_inv tx' (r # regs)"
  using open_inv [of tx regs k] lookup_none [of tx regs k]
  by (auto simp: get_handler_def split: option.splits prod.splits)

lemma registration_create_inv:
  "table_inv tx regs \<Longrightarrow> registration_create tx k = Some (r, tx') \<Longrightarrow> table_inv tx' (r # regs)"
  using open_inv [of tx regs k] lookup_none [of tx regs k]
  by (auto simp: registration_create_def register_transaction_def unbounded_channel_def split: if_splits)

lemma call_handler_queue:
  "channels tx (handler_channel h) = Some q \<Longrightarrow> call_handler tx h msg =
     (if handler_accepts h msg then (None, tx\<lparr>channels := (channels tx)(handler_channel h \<mapsto> q @ [msg])\<rparr>)
      else (Some msg, tx))"
  by (induction tx h msg rule: call_handler.induct) auto

lemma channels_inv:
  "table_inv tx regs \<Longrightarrow> (\<And>c. (cs c = None) = (channels tx c = None)) \<Longrightarrow> table_inv (tx\<lparr>channels := cs\<rparr>) regs"
  by (auto simp: table_inv_def owns_def list_all_iff)

lemma call_handler_inv:
  assumes "table_inv tx regs" "call_handler tx h msg = (r, tx')"
  shows "table_inv tx' regs"
proof (cases "channels tx (handler_channel h)")
  case None
  then have "call_handler tx h msg = (Some msg, tx)" by (induction tx h msg rule: call_handler.induct) auto
  then show ?thesis using assms by simp
next
  case (Some q)
  then show ?thesis
    using assms by (auto simp: call_handler_queue split: if_splits intro!: channels_inv)
qed

lemma add_filter_inv:
  assumes inv: "table_inv tx regs" and r: "r \<in> set regs" and "add_filter tx r f = Some tx'"
  shows "table_inv tx' regs"
proof -
  obtain h where h: "map_of (tsx_map tx) (reg_key r) = Some h" "handler_channel h = reg_channel r"
    and tx': "tx' = tx\<lparr>tsx_map := AList.update (reg_key r) (FilterThen f h) (tsx_map tx)\<rparr>"
    using assms(3) table_invD(3) [OF inv r] by (auto simp: add_filter_def owns_def split: option.splits)
  have "owns tx' s" if "s \<in> set regs" for s
  proof (cases "reg_key s = reg_key r")
    case True
    then have "s = r" using reg_unique [OF inv that r] by blast
    then show ?thesis using h table_invD(3) [OF inv r] by (simp add: tx' owns_def update_conv')
  next
    case False
    then show ?thesis using table_invD(3) [OF inv that] by (simp add: tx' owns_def update_conv')
  qed
  moreover have "fst ` set (tsx_map tx') = reg_key ` set regs"
    using table_invD(4) [OF inv] r by (auto simp: tx' dom_update)
  ultimately show ?thesis using table_invD(1,2) [OF inv] by (intro table_invI) auto
qed

lemma registration_receive_inv:
  "table_inv tx regs \<Longrightarrow> registration_receive tx r = Some (m, tx') \<Longrightarrow> table_inv tx' regs"
  by (auto simp: registration_receive_def split: option.splits list.splits if_splits intro!: channels_inv)

lemma registration_drop_inv:
  assumes inv: "table_inv tx regs" and r: "r \<in> set regs"
  shows "table_inv (registration_drop tx r) (remove1 r regs)"
proof (rule table_invI)
  have d: "distinct regs" using table_invD(1) [OF inv] by (simp add: distinct_map)
  then have rest: "set (remove1 r regs) = set regs - {r}" by simp
  show "distinct (map reg_key (remove1 r regs))" "distinct (map reg_channel (remove1 r regs))"
    using table_invD(1,2) [OF inv] d by (auto simp: distinct_map intro: inj_on_subset)
  show "fst ` set (tsx_map (registration_drop tx r)) = reg_key ` set (remove1 r regs)"
    using table_invD(4) [OF inv] inj_on_image_set_diff [of reg_key "set regs" "set regs" "{r}"] table_invD(1) [OF inv] r
    by (simp add: distinct_map registration_drop_def remove_transaction_def keys_delete rest Let_def)
  fix s
  assume "s \<in> set (remove1 r regs)"
  then have s: "s \<in> set regs" "s \<noteq> r" using rest by auto
  then have "reg_key s \<noteq> reg_key r" "reg_channel s \<noteq> reg_channel r" using reg_unique [OF inv r s(1)] by auto
  then show "owns (registration_drop tx r) s"
    using table_invD(3) [OF inv s(1)]
    by (auto simp: owns_def registration_drop_def remove_transaction_def delete_conv' Let_def)
qed

text \<open>
  The one filter that the program installs, in \<^verbatim>\<open>ServerInvTsx::respond_success\<close>, rejects
  ACK requests.
\<close>

definition ack_filter :: "TsxMessage \<Rightarrow> bool" where
  "ack_filter msg \<longleftrightarrow> request_method (tm_line msg) \<noteq> Some ACK"

definition rejects_only_ack :: "Transactions \<Rightarrow> bool" where
  "rejects_only_ack tx \<longleftrightarrow>
     (\<forall>k h msg. map_of (tsx_map tx) k = Some h \<longrightarrow> \<not> handler_accepts h msg \<longrightarrow> request_method (tm_line msg) = Some ACK)"

text \<open>A layer that leaves a request leaves its transaction and its method.\<close>

definition layers_keep :: "Layer list \<Rightarrow> bool" where
  "layers_keep layers \<longleftrightarrow>
     (\<forall>l\<in>set layers. \<forall>r r'. l r = Some r' \<longrightarrow> ir_tsx r' = ir_tsx r \<and> ir_line r' = ir_line r \<and> ir_base r' = ir_base r)"

lemma offer_layers_keep:
  assumes "layers_keep layers"
  shows "(\<forall>n' r'. offer_layers layers n r = Inl (n', r') \<longrightarrow> ir_tsx r' = ir_tsx r)
    \<and> (\<forall>r'. offer_layers layers n r = Inr r' \<longrightarrow> ir_tsx r' = ir_tsx r \<and> ir_line r' = ir_line r \<and> ir_base r' = ir_base r)"
  using assms
proof (induction layers arbitrary: n r)
  case (Cons l layers)
  have ll: "l r = Some r' \<Longrightarrow> ir_tsx r' = ir_tsx r \<and> ir_line r' = ir_line r \<and> ir_base r' = ir_base r" for r'
    using Cons.prems by (auto simp: layers_keep_def)
  have "layers_keep layers" using Cons.prems by (auto simp: layers_keep_def)
  with Cons.IH [of "Suc n"] ll show ?case by (cases "l r") fastforce+
qed simp

text \<open>The registration somebody holds after a message has been received.\<close>

fun kept :: "Received \<Rightarrow> TsxRegistration list" where
  "kept (Taken _ request) = (case ir_tsx request of Some r \<Rightarrow> [r] | None \<Rightarrow> [])"
| "kept (Unwanted r _) = [r]"
| "kept _ = []"

lemma drop_first: "table_inv tx (r # regs) \<Longrightarrow> table_inv (registration_drop tx r) regs"
  using registration_drop_inv [of tx "r # regs" r] by simp

lemma dispatch_inv:
  assumes inv: "table_inv tx (case tsx of Some r \<Rightarrow> r # regs | None \<Rightarrow> regs)" and layers: "layers_keep layers"
    and res: "dispatch T layers tx key tsx msg = Some (res, tx')"
  shows "table_inv tx' (kept res @ regs)"
proof (cases "tm_line msg")
  case (ResponseMsg l)
  then show ?thesis using res inv drop_first by (cases tsx) (auto simp: dispatch_def)
next
  case (RequestMsg line)
  let ?r = "\<lparr>ir_tp_info = tm_tp_info msg, ir_tsx_key = key, ir_tsx = tsx, ir_line = line,
              ir_base = tm_base msg, ir_headers = tm_headers msg, ir_body = tm_body msg\<rparr> :: IncomingRequest"
  show ?thesis
  proof (cases "offer_layers layers 0 ?r")
    case (Inl p)
    then have "ir_tsx (snd p) = tsx" using offer_layers_keep [OF layers, of 0 ?r] by (cases p) auto
    then show ?thesis
      using Inl res inv RequestMsg by (cases p; cases tsx) (auto simp: dispatch_def)
  next
    case (Inr r)
    then have r: "ir_tsx r = tsx" using offer_layers_keep [OF layers, of 0 ?r] by auto
    have "handle_unwanted_request T tx r = Some (res, tx')" using Inr res RequestMsg by (simp add: dispatch_def)
    then show ?thesis
      using r inv drop_first
      by (cases tsx) (auto simp: handle_unwanted_request_def drop_request_def take_tsx_registration_def
          bind_eq_Some_conv split: if_splits)
  qed
qed

lemma route_inv:
  assumes inv: "table_inv tx regs" and layers: "layers_keep layers" and res: "route T layers tx key msg = Some (res, tx')"
  shows "table_inv tx' (kept res @ regs)"
proof (cases "get_handler tx key")
  case (Inl p)
  obtain reg tx1 where p: "p = (reg, tx1)" by (cases p)
  have "table_inv tx1 (case Some reg of Some r \<Rightarrow> r # regs | None \<Rightarrow> regs)"
    using get_handler_inv [OF inv] Inl p by simp
  then show ?thesis using res Inl p by (intro dispatch_inv [OF _ layers]) (auto simp: route_def)
next
  case (Inr h)
  obtain r tx1 where c: "call_handler tx h msg = (r, tx1)" by (cases "call_handler tx h msg")
  then have inv1: "table_inv tx1 regs" using call_handler_inv [OF inv] by blast
  show ?thesis
  proof (cases r)
    case None
    then show ?thesis using res Inr c inv1 by (simp add: route_def)
  next
    case (Some m)
    have "table_inv tx1 (case None of Some r \<Rightarrow> r # regs | None \<Rightarrow> regs)" using inv1 by simp
    then show ?thesis using res Inr c Some by (intro dispatch_inv [OF _ layers]) (auto simp: route_def)
  qed
qed

lemma do_receive_inv:
  assumes "table_inv tx regs" "layers_keep layers" "do_receive T layers tx message = Some (res, tx')"
  shows "table_inv tx' (kept res @ regs)"
proof -
  from assms(3) consider (unreadable) e where "res = Unreadable e" "tx' = tx"
    | (routed) key msg where "route T layers tx key msg = Some (res, tx')"
    unfolding do_receive_def bind_eq_Some_conv by (metis (no_types, lifting) option.inject old.sum.exhaust
        old.sum.simps(5,6) prod.inject split_pairs surj_pair case_prod_conv)
  then show ?thesis
  proof cases
    case unreadable
    then show ?thesis using assms(1) by simp
  next
    case routed
    then show ?thesis using route_inv [OF assms(1,2)] by blast
  qed
qed

section \<open>Reachable tables\<close>

inductive tsx_step :: "Ip6Text \<Rightarrow> Layer list \<Rightarrow> Transactions \<times> TsxRegistration list \<Rightarrow> Transactions \<times> TsxRegistration list \<Rightarrow> bool"
  for T layers where
  step_receive: "do_receive T layers tx message = Some (res, tx') \<Longrightarrow> tsx_step T layers (tx, regs) (tx', kept res @ regs)"
| step_create: "registration_create tx key = Some (r, tx') \<Longrightarrow> tsx_step T layers (tx, regs) (tx', r # regs)"
| step_filter: "r \<in> set regs \<Longrightarrow> add_filter tx r ack_filter = Some tx' \<Longrightarrow> tsx_step T layers (tx, regs) (tx', regs)"
| step_recv: "r \<in> set regs \<Longrightarrow> registration_receive tx r = Some (m, tx') \<Longrightarrow> tsx_step T layers (tx, regs) (tx', regs)"
| step_drop: "r \<in> set regs \<Longrightarrow> tsx_step T layers (tx, regs) (registration_drop tx r, remove1 r regs)"

definition no_transactions :: Transactions where
  "no_transactions = \<lparr>tsx_map = [], channels = (\<lambda>_. None), next_channel = 0\<rparr>"

inductive tsx_reach :: "Ip6Text \<Rightarrow> Layer list \<Rightarrow> Transactions \<times> TsxRegistration list \<Rightarrow> bool"
  for T layers where
  reach_start: "tsx_reach T layers (no_transactions, [])"
| reach_step: "tsx_reach T layers s \<Longrightarrow> tsx_step T layers s t \<Longrightarrow> tsx_reach T layers t"

lemma step_inv: "tsx_step T layers (tx, regs) (tx', regs') \<Longrightarrow> layers_keep layers \<Longrightarrow> table_inv tx regs \<Longrightarrow> table_inv tx' regs'"
  by (induction "(tx, regs)" "(tx', regs')" rule: tsx_step.induct)
    (auto intro: do_receive_inv registration_create_inv add_filter_inv registration_receive_inv registration_drop_inv)

lemma reach_inv: "tsx_reach T layers s \<Longrightarrow> layers_keep layers \<Longrightarrow> table_inv (fst s) (snd s)"
proof (induction rule: tsx_reach.induct)
  case reach_start
  then show ?case by (simp add: table_inv_def no_transactions_def)
next
  case (reach_step s t)
  then show ?case using step_inv [of T layers "fst s" "snd s" "fst t" "snd t"] by simp
qed

lemma owned_receive: "owns tx r \<Longrightarrow> registration_receive tx r \<noteq> None"
  by (auto simp: owns_def registration_receive_def list_ex_iff split: option.splits list.splits dest: map_of_SomeD)

lemma owned_filter: "owns tx r \<Longrightarrow> add_filter tx r f \<noteq> None"
  by (auto simp: owns_def add_filter_def split: option.splits)

lemma create_iff: "table_inv tx regs \<Longrightarrow> registration_create tx k = None \<longleftrightarrow> k \<in> reg_key ` set regs"
  using lookup_none [of tx regs k]
  by (auto simp: registration_create_def register_transaction_def unbounded_channel_def)

text \<open>
  C6: In every reachable state of the endpoint the registrations that are alive have distinct
  keys, and these are the keys of the table. Hence installing a filter or waiting for a
  message never hits the panics about the lifetime of the handler, and creating a
  transaction panics exactly if its key is the key of one that is alive.\<close>

theorem registrations_own_handlers:
  assumes "tsx_reach T layers (tx, regs)" "layers_keep layers"
  shows "distinct (map reg_key regs) \<and> fst ` set (tsx_map tx) = reg_key ` set regs
    \<and> list_all (\<lambda>r. add_filter tx r f \<noteq> None \<and> registration_receive tx r \<noteq> None) regs
    \<and> (registration_create tx k = None \<longleftrightarrow> k \<in> reg_key ` set regs)"
proof -
  have inv: "table_inv tx regs" using reach_inv [OF assms] by simp
  then have "list_all (\<lambda>r. add_filter tx r f \<noteq> None \<and> registration_receive tx r \<noteq> None) regs"
    using owned_filter owned_receive table_invD(3) [OF inv] by (auto simp: list_all_iff)
  then show ?thesis using table_invD(1,4) [OF inv] create_iff [OF inv] by simp
qed

section \<open>The table as a map of queues\<close>

definition queue_of :: "Transactions \<Rightarrow> TsxKey \<Rightarrow> TsxMessage list option" where
  "queue_of tx k = (case map_of (tsx_map tx) k of Some h \<Rightarrow> channels tx (handler_channel h) | None \<Rightarrow> None)"

text \<open>The specification: what receiving a message with key \<open>k\<close> does to the queues, by its result.\<close>

fun spec_receive :: "(TsxKey \<Rightarrow> TsxMessage list option) \<Rightarrow> TsxKey \<Rightarrow> TsxMessage \<Rightarrow> Received \<Rightarrow> TsxKey \<Rightarrow> TsxMessage list option" where
  "spec_receive qs k msg Delegated = qs(k \<mapsto> the (qs k) @ [msg])"
| "spec_receive qs k msg (Taken _ request) = (if ir_tsx request = None then qs else qs(k \<mapsto> []))"
| "spec_receive qs k msg (Unwanted _ _) = qs(k \<mapsto> [])"
| "spec_receive qs k msg _ = qs"

lemma queue_open:
  assumes inv: "table_inv tx regs" and g: "get_handler tx k = Inl (reg, tx1)"
  shows "queue_of tx1 = (queue_of tx)(k \<mapsto> [])" "queue_of tx k = None" "queue_of (registration_drop tx1 reg) = queue_of tx"
proof -
  have none: "map_of (tsx_map tx) k = None" and reg: "reg = \<lparr>reg_key = k, reg_channel = next_channel tx\<rparr>"
    and tx1: "tx1 = tx\<lparr>channels := (channels tx)(next_channel tx \<mapsto> []), next_channel := Suc (next_channel tx),
      tsx_map := AList.update k (SendTo (next_channel tx)) (tsx_map tx)\<rparr>"
    using g by (auto simp: get_handler_def unbounded_channel_def split: option.splits)
  have fresh: "handler_channel h \<noteq> next_channel tx" if "map_of (tsx_map tx) k' = Some h" for k' h
  proof -
    have "\<exists>r\<in>set regs. handler_channel h = reg_channel r" using lookup_some [OF inv that] by blast
    then show ?thesis using table_invD(3) [OF inv] by (simp add: owns_def) (metis less_irrefl)
  qed
  show "queue_of tx k = None" using none by (simp add: queue_of_def)
  show "queue_of tx1 = (queue_of tx)(k \<mapsto> [])"
    using fresh by (auto simp: fun_eq_iff queue_of_def tx1 update_conv' split: option.split)
  show "queue_of (registration_drop tx1 reg) = queue_of tx"
    using fresh none by (auto simp: fun_eq_iff queue_of_def tx1 reg registration_drop_def remove_transaction_def
        update_conv' delete_conv' Let_def split: option.split)
qed

lemma queue_update:
  assumes inv: "table_inv tx regs" and h: "map_of (tsx_map tx) k = Some h"
  shows "queue_of (tx\<lparr>channels := (channels tx)(handler_channel h \<mapsto> q)\<rparr>) = (queue_of tx)(k \<mapsto> q)"
proof
  fix k'
  show "queue_of (tx\<lparr>channels := (channels tx)(handler_channel h \<mapsto> q)\<rparr>) k' = ((queue_of tx)(k \<mapsto> q)) k'"
  proof (cases "map_of (tsx_map tx) k'")
    case None
    then show ?thesis using h by (auto simp: queue_of_def)
  next
    case (Some h')
    have "k' = k" if "handler_channel h' = handler_channel h"
      using lookup_some [OF inv h] lookup_some [OF inv Some] reg_unique [OF inv] that by metis
    then show ?thesis using Some h by (cases "k' = k") (auto simp: queue_of_def)
  qed
qed

lemma dispatch_queues:
  assumes "layers_keep layers" "dispatch T layers tx k tsx m = Some (res, tx')"
    and "qs = (case tsx of Some reg \<Rightarrow> queue_of (registration_drop tx reg) | None \<Rightarrow> queue_of tx)"
    and "queue_of tx = (if tsx = None then qs else qs(k \<mapsto> []))"
  shows "queue_of tx' = spec_receive qs k msg res \<and> res \<noteq> Delegated"
proof (cases "tm_line m")
  case (ResponseMsg l)
  then show ?thesis using assms by (cases tsx) (auto simp: dispatch_def)
next
  case (RequestMsg line)
  let ?r = "\<lparr>ir_tp_info = tm_tp_info m, ir_tsx_key = k, ir_tsx = tsx, ir_line = line,
              ir_base = tm_base m, ir_headers = tm_headers m, ir_body = tm_body m\<rparr> :: IncomingRequest"
  note keep = offer_layers_keep [OF assms(1), of 0 ?r]
  show ?thesis
  proof (cases "offer_layers layers 0 ?r")
    case (Inl p)
    then obtain n r where p: "p = (n, r)" "ir_tsx r = tsx" using keep by (cases p) auto
    have "res = Taken n r" "tx' = tx" using Inl p assms(2) RequestMsg by (simp_all add: dispatch_def)
    then show ?thesis using p assms(4) by simp
  next
    case (Inr r)
    then have "ir_tsx r = tsx" using keep by auto
    moreover have "handle_unwanted_request T tx r = Some (res, tx')"
      using Inr assms(2) RequestMsg by (simp add: dispatch_def)
    ultimately show ?thesis
      using assms(3,4)
      by (cases tsx) (auto simp: handle_unwanted_request_def drop_request_def take_tsx_registration_def
          bind_eq_Some_conv split: if_splits)
  qed
qed

text \<open>
  C2: Receiving a message refines appending to queues. A message whose key is in the table and
  that the transaction's filters accept is appended to that transaction's queue and nothing
  else changes; any other message changes the queues only by opening an empty one for the
  transaction of a request that a layer or the endpoint itself answers.\<close>

theorem receive_refines_queues:
  assumes "tsx_reach T layers (tx, regs)" "layers_keep layers"
    and key: "message_key T message = Some (Inr (k, msg))" and res: "do_receive T layers tx message = Some (res, tx')"
  shows "queue_of tx' = spec_receive (queue_of tx) k msg res
    \<and> (res = Delegated \<longleftrightarrow> (\<exists>h. map_of (tsx_map tx) k = Some h \<and> handler_accepts h msg))"
proof -
  have inv: "table_inv tx regs" using reach_inv [OF assms(1,2)] by simp
  have r: "route T layers tx k msg = Some (res, tx')" using key res by (simp add: do_receive_def)
  show ?thesis
  proof (cases "get_handler tx k")
    case (Inl p)
    obtain reg tx1 where p: "p = (reg, tx1)" by (cases p)
    note q = queue_open [OF inv Inl [unfolded p]]
    have d: "dispatch T layers tx1 k (Some reg) msg = Some (res, tx')" using r Inl p by (simp add: route_def)
    have "queue_of tx' = spec_receive (queue_of tx) k msg res \<and> res \<noteq> Delegated"
      by (rule dispatch_queues [OF assms(2) d]) (simp_all add: q)
    moreover have "map_of (tsx_map tx) k = None" using Inl by (auto simp: get_handler_def split: option.splits)
    ultimately show ?thesis by auto
  next
    case (Inr h)
    then have h: "map_of (tsx_map tx) k = Some h" by (auto simp: get_handler_def split: option.splits prod.splits)
    then obtain reg where reg: "reg \<in> set regs" "reg_key reg = k" "handler_channel h = reg_channel reg"
      using lookup_some [OF inv] by blast
    then obtain q where q: "channels tx (handler_channel h) = Some q"
      using table_invD(3) [OF inv reg(1)] by (auto simp: owns_def)
    show ?thesis
    proof (cases "handler_accepts h msg")
      case True
      then have res': "res = Delegated" "tx' = tx\<lparr>channels := (channels tx)(handler_channel h \<mapsto> q @ [msg])\<rparr>"
        using r Inr q by (simp_all add: route_def call_handler_queue)
      have "queue_of tx' = (queue_of tx)(k \<mapsto> q @ [msg])"
        unfolding res'(2) by (rule queue_update [OF inv h])
      then show ?thesis using True h q res' by (auto simp: queue_of_def)
    next
      case False
      then have d: "dispatch T layers tx k None msg = Some (res, tx')"
        using r Inr q by (simp add: route_def call_handler_queue)
      have "queue_of tx' = spec_receive (queue_of tx) k msg res \<and> res \<noteq> Delegated"
        by (rule dispatch_queues [OF assms(2) d]) simp_all
      then show ?thesis using False h by auto
    qed
  qed
qed

section \<open>No panic but one\<close>

lemma registration_drop_lookup: "map_of (tsx_map (registration_drop tx r)) = (map_of (tsx_map tx))(reg_key r := None)"
  by (simp add: registration_drop_def remove_transaction_def delete_conv' Let_def)

lemma rejects_fewer:
  "rejects_only_ack tx \<Longrightarrow> (\<And>k h. map_of (tsx_map tx') k = Some h \<Longrightarrow> map_of (tsx_map tx) k = Some h \<or> (\<exists>c. h = SendTo c)) \<Longrightarrow>
     rejects_only_ack tx'"
  unfolding rejects_only_ack_def by (metis handler_accepts.simps(1))

lemma dispatch_lookup:
  assumes "dispatch T layers tx k tsx m = Some (res, tx')" "map_of (tsx_map tx') k' = Some h"
  shows "map_of (tsx_map tx) k' = Some h"
  using assms
  by (auto simp: dispatch_def handle_unwanted_request_def drop_request_def registration_drop_lookup bind_eq_Some_conv
      split: MessageLine.splits sum.splits option.splits if_splits)

lemma dispatch_rejects: "rejects_only_ack tx \<Longrightarrow> dispatch T layers tx k tsx m = Some (res, tx') \<Longrightarrow> rejects_only_ack tx'"
  using dispatch_lookup by (intro rejects_fewer [of tx tx']) blast+

lemma call_handler_map: "call_handler tx h m = (r, tx') \<Longrightarrow> tsx_map tx' = tsx_map tx"
  by (induction tx h m rule: call_handler.induct) (auto split: option.splits if_splits)

lemma route_rejects:
  assumes "rejects_only_ack tx" "route T layers tx k msg = Some (res, tx')"
  shows "rejects_only_ack tx'"
proof (cases "get_handler tx k")
  case (Inl p)
  obtain reg tx1 where p: "p = (reg, tx1)" by (cases p)
  have "map_of (tsx_map tx1) k' = Some h \<Longrightarrow> map_of (tsx_map tx) k' = Some h \<or> (\<exists>c. h = SendTo c)" for k' h
    using Inl p by (auto simp: get_handler_def unbounded_channel_def update_conv' split: option.splits if_splits)
  moreover have "dispatch T layers tx1 k (Some reg) msg = Some (res, tx')" using assms(2) Inl p by (simp add: route_def)
  ultimately show ?thesis using dispatch_lookup rejects_fewer [OF assms(1)] by metis
next
  case (Inr h)
  obtain r tx1 where c: "call_handler tx h msg = (r, tx1)" by (cases "call_handler tx h msg")
  then have "rejects_only_ack tx1" using assms(1) call_handler_map [OF c] by (simp add: rejects_only_ack_def)
  then show ?thesis
    using assms(2) Inr c dispatch_rejects [of tx1] by (cases r) (auto simp: route_def)
qed

lemma do_receive_rejects:
  assumes "rejects_only_ack tx" "do_receive T layers tx message = Some (res, tx')"
  shows "rejects_only_ack tx'"
proof -
  obtain r where r: "message_key T message = Some r" using assms(2) by (cases "message_key T message") (auto simp: do_receive_def)
  show ?thesis
  proof (cases r)
    case (Inl e)
    then show ?thesis using assms r by (simp add: do_receive_def)
  next
    case (Inr p)
    then show ?thesis using assms r route_rejects by (cases p) (auto simp: do_receive_def)
  qed
qed

lemma step_rejects:
  "tsx_step T layers (tx, regs) (tx', regs') \<Longrightarrow> rejects_only_ack tx \<Longrightarrow> rejects_only_ack tx'"
proof (induction "(tx, regs)" "(tx', regs')" rule: tsx_step.induct)
  case (step_filter r)
  then show ?case
    by (auto simp: rejects_only_ack_def add_filter_def update_conv' ack_filter_def split: option.splits if_splits)
next
  case (step_create key r)
  then show ?case
    by (auto simp: rejects_only_ack_def registration_create_def register_transaction_def unbounded_channel_def update_conv'
        split: if_splits)
next
  case (step_recv r m)
  then show ?case
    by (auto simp: rejects_only_ack_def registration_receive_def split: option.splits list.splits if_splits)
next
  case (step_drop r)
  then show ?case by (auto simp: rejects_only_ack_def registration_drop_lookup split: if_splits)
qed (rule do_receive_rejects)

lemma reach_rejects: "tsx_reach T layers s \<Longrightarrow> rejects_only_ack (fst s)"
proof (induction rule: tsx_reach.induct)
  case (reach_step s t)
  then show ?case using step_rejects [of T layers "fst s" "snd s" "fst t" "snd t"] by simp
qed (simp add: rejects_only_ack_def no_transactions_def)

lemma message_key_via:
  "message_key T message = None \<longleftrightarrow> (\<exists>base. extract_from T (rm_headers message) = Inr base \<and> bh_via base = [])"
  by (cases "rm_line message")
    (auto simp: message_key_def received_base_def from_headers_def Let_def split: sum.splits list.splits)

lemma message_key_msg:
  "message_key T message = Some (Inr (k, msg)) \<Longrightarrow> bh_via (tm_base msg) \<noteq> [] \<and> tm_line msg = rm_line message"
  by (cases "rm_line message")
    (auto simp: message_key_def received_base_def from_headers_def Let_def res_iff split: sum.splits list.splits)

lemma dispatch_total:
  assumes "layers_keep layers" "bh_via (tm_base m) \<noteq> []" "tsx \<noteq> None \<or> request_method (tm_line m) = Some ACK"
  shows "dispatch T layers tx k tsx m \<noteq> None"
proof (cases "tm_line m")
  case (RequestMsg line)
  let ?r = "\<lparr>ir_tp_info = tm_tp_info m, ir_tsx_key = k, ir_tsx = tsx, ir_line = line,
              ir_base = tm_base m, ir_headers = tm_headers m, ir_body = tm_body m\<rparr> :: IncomingRequest"
  show ?thesis
  proof (cases "offer_layers layers 0 ?r")
    case (Inr r)
    then have r: "ir_tsx r = tsx" "ir_line r = line" "ir_base r = tm_base m"
      using offer_layers_keep [OF assms(1), of 0 ?r] by auto
    obtain v vs where "bh_via (tm_base m) = v # vs" using assms(2) by (cases "bh_via (tm_base m)") auto
    then have "handle_unwanted_request T tx r \<noteq> None"
      using r assms(3) RequestMsg
      by (auto simp: handle_unwanted_request_def create_response_def take_tsx_registration_def Let_def)
    then show ?thesis using Inr RequestMsg by (simp add: dispatch_def)
  qed (auto simp: dispatch_def RequestMsg)
qed (simp add: dispatch_def)

lemma receive_total:
  assumes "tsx_reach T layers (tx, regs)" "layers_keep layers" and key: "message_key T message = Some (Inr (k, msg))"
  shows "do_receive T layers tx message \<noteq> None"
proof -
  note via = message_key_msg [OF key]
  have "route T layers tx k msg \<noteq> None"
  proof (cases "get_handler tx k")
    case (Inl p)
    then show ?thesis using via dispatch_total [OF assms(2)] by (cases p) (simp add: route_def)
  next
    case (Inr h)
    then have h: "map_of (tsx_map tx) k = Some h" by (auto simp: get_handler_def split: option.splits prod.splits)
    then obtain q where q: "channels tx (handler_channel h) = Some q"
      using reach_inv [OF assms(1,2)] lookup_some [of tx regs k h] table_invD(3) [of tx regs] by (fastforce simp: owns_def)
    show ?thesis
    proof (cases "handler_accepts h msg")
      case False
      then have "request_method (tm_line msg) = Some ACK"
        using reach_rejects [OF assms(1)] h by (auto simp: rejects_only_ack_def)
      then show ?thesis
        using False Inr q via dispatch_total [OF assms(2)] by (simp add: route_def call_handler_queue)
    qed (use Inr q in \<open>simp add: route_def call_handler_queue\<close>)
  qed
  then show ?thesis using key by (simp add: do_receive_def)
qed

text \<open>
  In a reachable state, receiving a message panics exactly if its base headers can be read
  but no \<^verbatim>\<open>Via\<close> header among them: the vector of \<^verbatim>\<open>Via\<close> headers is then empty, which the
  endpoint indexes. A request that no transaction and no layer wants is always answered
  without a panic.\<close>

theorem receive_panics_iff_no_via:
  assumes "tsx_reach T layers (tx, regs)" "layers_keep layers"
  shows "do_receive T layers tx message = None \<longleftrightarrow>
    (\<exists>base. extract_from T (rm_headers message) = Inr base \<and> bh_via base = [])"
proof (cases "message_key T message")
  case None
  then show ?thesis using message_key_via [of T message] by (simp add: do_receive_def)
next
  case (Some r)
  then have "do_receive T layers tx message \<noteq> None"
    using receive_total [OF assms] by (cases r) (auto simp: do_receive_def)
  then show ?thesis using Some message_key_via [of T message] by force
qed

section \<open>Where responses go\<close>

lemma u16_from_str_decimal: "u16_from_str (decimal (unat (p :: u16))) = Some p"
proof -
  have "\<not> is_digit 0x2B" by code_simp
  then have "decimal (unat p) = c # cs \<Longrightarrow> c \<noteq> 0x2B" for c cs using decimal_digits [of "unat p"] by auto
  moreover have "list_all is_digit (decimal (unat p))" using decimal_digits by (simp add: list_all_iff)
  ultimately show ?thesis
    using u16_from_decimal [of p] by (cases "decimal (unat p)") (auto simp: u16_from_str_def Let_def)
qed

text \<open>
  The response to a request that came over a datagram transport goes back to the address
  and port the request came from, whether or not the \<^verbatim>\<open>Via\<close> header asks for that with an
  \<^verbatim>\<open>rport\<close> parameter, provided that it names no multicast address; over a connection it goes
  to the remote end of the connection.\<close>

theorem response_returns_to_source:
  assumes "bh_via (ir_base request) = add_received_rport T v (mi_source (ir_tp_info request)) # vs"
    and "rl_method (ir_line request) \<noteq> ACK"
    and "params_get_val (via_params v) (ascii ''maddr'') = None"
  shows "\<exists>response. create_response T request code reason = Some response
    \<and> op_transport (or_parts response) = mi_transport (ir_tp_info request)
    \<and> (case tp_direction (mi_transport (ir_tp_info request)) of
         NoDirection \<Rightarrow> sock_ip (op_destination (or_parts response)) = sock_ip (mi_source (ir_tp_info request))
           \<and> sock_port (op_destination (or_parts response)) = sock_port (mi_source (ir_tp_info request))
       | Outgoing remote \<Rightarrow> op_destination (or_parts response) = remote
       | Incoming remote \<Rightarrow> op_destination (or_parts response) = remote)"
proof -
  let ?src = "mi_source (ir_tp_info request)" and ?via = "add_received_rport T v (mi_source (ir_tp_info request))"
  have names: "ascii ''maddr'' \<noteq> ascii ''received''" "ascii ''maddr'' \<noteq> ascii ''rport''"
    by (simp_all add: ascii_def)
  have maddr: "params_get_val (via_params ?via) (ascii ''maddr'') = None"
    using assms(3) names by (simp add: add_received_rport_def Let_def)
  have rport: "params_get_val (via_params ?via) (ascii ''rport'') = None
      \<or> params_get_val (via_params ?via) (ascii ''rport'') = Some (decimal (unat (sock_port ?src)))"
  proof -
    have "params_get_val (if params_get ps n \<noteq> None then params_set ps n (Some d) else ps) n \<in> {None, Some d}" for ps n d
      by (cases "params_get ps n") (auto simp: params_get_val_def [of ps])
    then show ?thesis by (simp add: add_received_rport_def Let_def)
  qed
  have new: "sock_ip (sock_new ip p) = ip" "sock_port (sock_new ip p) = p" for ip p by (cases ip; simp)+
  show ?thesis
    using assms maddr rport new u16_from_str_decimal
    by (auto simp: create_response_def response_destination_def Let_def split: Direction.split)
qed

section \<open>Examples\<close>

definition sample_headers :: "bytes \<Rightarrow> Headers" where
  "sample_headers via =
     [\<lparr>en_name = VIA, en_values = One via\<rparr>, \<lparr>en_name = FROM, en_values = One (ascii ''<sip:a>'')\<rparr>,
      \<lparr>en_name = TO, en_values = One (ascii ''<sip:b>'')\<rparr>, \<lparr>en_name = CALL_ID, en_values = One (ascii ''7'')\<rparr>,
      \<lparr>en_name = CSEQ, en_values = One (ascii ''1 BYE'')\<rparr>]"

definition sample_message :: "bytes \<Rightarrow> ReceivedMessage" where
  "sample_message via =
     \<lparr>rm_tp_info = \<lparr>mi_timestamp = 0, mi_source = SockV4 2 9, mi_buffer = [], mi_transport = udp\<rparr>,
      rm_line = ResponseMsg \<lparr>sl_code = 200, sl_reason = None\<rparr>, rm_headers = sample_headers via, rm_body = []\<rparr>"

definition sample_key :: TsxKey where
  "sample_key = client_key (ascii ''x1'') BYE"

lemma layers_keep_Nil: "layers_keep []"
  by (simp add: layers_keep_def)

lemma sample_reach:
  "\<exists>r tx. registration_create no_transactions sample_key = Some (r, tx) \<and> tsx_reach decimal_ip6 [] (tx, [r])
     \<and> map_of (tsx_map tx) sample_key = Some (SendTo 0) \<and> reg_key r = sample_key"
proof -
  obtain r tx where c: "registration_create no_transactions sample_key = Some (r, tx)"
    "map_of (tsx_map tx) sample_key = Some (SendTo 0)" "reg_key r = sample_key"
    by (auto simp: registration_create_def no_transactions_def unbounded_channel_def register_transaction_def)
  then show ?thesis using reach_step [OF reach_start step_create] by fastforce
qed

theorem registrations_own_handlers_witness:
  "\<exists>r tx. registration_create no_transactions sample_key = Some (r, tx) \<and> registration_receive tx r \<noteq> None
     \<and> registration_create tx sample_key = None"
proof -
  from sample_reach obtain r tx where s: "registration_create no_transactions sample_key = Some (r, tx)"
    "tsx_reach decimal_ip6 [] (tx, [r])" "reg_key r = sample_key" by blast
  show ?thesis using registrations_own_handlers [OF s(2) layers_keep_Nil, of ack_filter sample_key] s by auto
qed

lemma sample_message_key:
  "map_option (map_sum id fst) (message_key decimal_ip6 (sample_message (ascii ''SIP/2.0/UDP h;branch=z9hG4bKx1''))) = Some (Inr sample_key)"
  by code_simp

lemma malformed_via_empty:
  "map_sum (\<lambda>_. ()) bh_via (extract_from decimal_ip6 (rm_headers (sample_message (ascii ''SIP/2.0'')))) = Inr []"
  by code_simp

theorem receive_refines_queues_witness:
  "\<exists>r tx tx' msg. registration_create no_transactions sample_key = Some (r, tx)
     \<and> do_receive decimal_ip6 [] tx (sample_message (ascii ''SIP/2.0/UDP h;branch=z9hG4bKx1'')) = Some (Delegated, tx')
     \<and> queue_of tx' = (queue_of tx)(sample_key \<mapsto> the (queue_of tx sample_key) @ [msg])"
proof -
  let ?m = "sample_message (ascii ''SIP/2.0/UDP h;branch=z9hG4bKx1'')"
  from sample_reach obtain r tx where s: "registration_create no_transactions sample_key = Some (r, tx)"
    "tsx_reach decimal_ip6 [] (tx, [r])" "map_of (tsx_map tx) sample_key = Some (SendTo 0)" by blast
  obtain msg where key: "message_key decimal_ip6 ?m = Some (Inr (sample_key, msg))"
  proof -
    obtain z where z: "message_key decimal_ip6 ?m = Some z" "map_sum id fst z = Inr sample_key"
      using sample_message_key by auto
    then show thesis using that by (cases z) auto
  qed
  have "do_receive decimal_ip6 [] tx ?m \<noteq> None"
    using receive_total [OF s(2) layers_keep_Nil key] .
  then obtain res tx' where d: "do_receive decimal_ip6 [] tx ?m = Some (res, tx')" by fastforce
  have "queue_of tx' = spec_receive (queue_of tx) sample_key msg res \<and> res = Delegated"
    using receive_refines_queues [OF s(2) layers_keep_Nil key d] s(3) by auto
  then show ?thesis using s(1) d by auto
qed

theorem receive_panics_iff_no_via_witness:
  "do_receive decimal_ip6 [] no_transactions (sample_message (ascii ''SIP/2.0'')) = None"
proof -
  have "\<exists>base. extract_from decimal_ip6 (rm_headers (sample_message (ascii ''SIP/2.0''))) = Inr base \<and> bh_via base = []"
    using malformed_via_empty
    by (cases "extract_from decimal_ip6 (rm_headers (sample_message (ascii ''SIP/2.0'')))") auto
  then show ?thesis
    using receive_panics_iff_no_via [OF reach_start [of decimal_ip6 "[]"] layers_keep_Nil, of "sample_message (ascii ''SIP/2.0'')"] by simp
qed

definition sample_request :: "Via \<Rightarrow> IncomingRequest" where
  "sample_request via =
     \<lparr>ir_tp_info = \<lparr>mi_timestamp = 0, mi_source = SockV4 2 9, mi_buffer = [], mi_transport = udp\<rparr>,
      ir_tsx_key = sample_key, ir_tsx = None, ir_line = \<lparr>rl_method = BYE, rl_uri = na_uri (ft_uri sample_from)\<rparr>,
      ir_base = \<lparr>bh_via = [via], bh_from = sample_from, bh_to = sample_from, bh_call_id = [], bh_cseq = \<lparr>cseq_num = 1, cseq_method = BYE\<rparr>\<rparr>,
      ir_headers = [], ir_body = []\<rparr>"

theorem response_returns_to_source_witness:
  "\<exists>response. create_response decimal_ip6 (sample_request (add_received_rport decimal_ip6 sample_via (SockV4 2 9))) 200 None = Some response
     \<and> sock_ip (op_destination (or_parts response)) = IpV4 2 \<and> sock_port (op_destination (or_parts response)) = 9"
proof -
  have "params_get_val (via_params sample_via) (ascii ''maddr'') = None" by code_simp
  then show ?thesis
    using response_returns_to_source [of "sample_request (add_received_rport decimal_ip6 sample_via (SockV4 2 9))"
        decimal_ip6 sample_via "[]" 200 None]
    by (auto simp: sample_request_def udp_def)
qed

end
