(* ===== verification/Sip_Tsx_Base.thy ===== *)
theory Sip_Tsx_Base
  imports Sip_Dispatch
begin

text \<open>
  What the transactions of \<^verbatim>\<open>sip/sip-core/src/transaction/\<close> share: the timer constants, the
  messages they send (\<^verbatim>\<open>Endpoint::send_outgoing_request\<close> and \<^verbatim>\<open>send_outgoing_response\<close> in
  \<^verbatim>\<open>endpoint.rs\<close>), and how an asynchronous wait is modelled.

  A transaction waits for a message or a timer. What happens is an input of the model: a list
  of wakes, each with the outcome of the wait, the instant of the wake, and the result and
  end of the send that the transaction makes in reaction to it, if it makes one. A run that
  consumes all wakes without returning is \<open>Pending\<close>. What tokio documents of its timers is
  the predicate \<open>wait_ok\<close>: a timer does not fire before its deadline, and a wait on a deadline
  that has passed ends at once; a run on wakes that break it is \<open>NotPossible\<close>. What the
  transaction transmits is the output.
\<close>

section \<open>Constants\<close>

definition T1 :: duration where "T1 = from_millis 500"
definition T2 :: duration where "T2 = from_secs 4"
definition T4 :: duration where "T4 = from_secs 5"

datatype CoreError = IoError | HeaderFault HeaderError | RequestTimedOut

section \<open>Sending\<close>

record OutgoingRequest =
  oq_line :: RequestLine
  oq_headers :: Headers
  oq_body :: bytes
  oq_parts :: OutgoingParts

record TsxResponse =
  tr_tp_info :: MessageTpInfo
  tr_line :: StatusLine
  tr_base :: BaseHeaders
  tr_headers :: Headers
  tr_body :: bytes

definition USER_AGENT :: Name where "USER_AGENT = Name (ascii ''User-Agent'') (Some [ascii ''user-agent''])"
definition CONTENT_LENGTH :: Name where
  "CONTENT_LENGTH = Name (ascii ''Content-Length'') (Some [ascii ''content-length'', ascii ''l''])"
definition MAX_FORWARDS :: Name where "MAX_FORWARDS = Name (ascii ''Max-Forwards'') (Some [ascii ''max-forwards''])"

text \<open>The endpoint's configuration that printing depends on.\<close>

record Env =
  env_ip6 :: Ip6Text
  user_agent :: "bytes option"

definition request_line_print :: "Ip6Text \<Rightarrow> RequestLine \<Rightarrow> bytes" where
  "request_line_print T line =
     method_print (rl_method line) @ [0x20] @ uri_print T None (Some (rl_method line)) (rl_uri line) @ ascii '' SIP/2.0''"

definition status_line_print :: "StatusLine \<Rightarrow> bytes" where
  "status_line_print line =
     ascii ''SIP/2.0 '' @ decimal (unat (sl_code line))
     @ (case sl_reason line of Some reason \<Rightarrow> [0x20] @ reason | None \<Rightarrow> [])"

abbreviation CRLF :: bytes where "CRLF \<equiv> [0x0D, 0x0A]"

text \<open>The message with its buffer filled; the buffer is what is handed to the transport.\<close>

definition send_outgoing_request :: "Env \<Rightarrow> OutgoingRequest \<Rightarrow> OutgoingRequest" where
  "send_outgoing_request env message =
     (let headers = oq_headers message;
          headers = (case user_agent env of
            Some ua \<Rightarrow> if headers_contains headers USER_AGENT then headers else headers_insert headers USER_AGENT ua
          | None \<Rightarrow> headers) in
      if op_buffer (oq_parts message) = []
      then let headers = headers_insert headers CONTENT_LENGTH (decimal (length (oq_body message)));
               buffer = request_line_print (env_ip6 env) (oq_line message) @ CRLF @ headers_display headers @ CRLF @ oq_body message in
           message\<lparr>oq_headers := headers, oq_parts := (oq_parts message)\<lparr>op_buffer := buffer\<rparr>\<rparr>
      else message\<lparr>oq_headers := headers\<rparr>)"

definition send_outgoing_response :: "OutgoingResponse \<Rightarrow> OutgoingResponse" where
  "send_outgoing_response message =
     (if op_buffer (or_parts message) = []
      then let headers = headers_insert (or_headers message) CONTENT_LENGTH (decimal (length (or_body message)));
               buffer = status_line_print (or_line message) @ CRLF @ headers_display headers @ CRLF @ or_body message in
           message\<lparr>or_headers := headers, or_parts := (or_parts message)\<lparr>op_buffer := buffer\<rparr>\<rparr>
      else message)"

text \<open>One transmission: the bytes and where they go.\<close>

type_synonym transmission = "bytes \<times> SocketAddr"

definition transmit_request :: "OutgoingRequest \<Rightarrow> transmission" where
  "transmit_request message = (op_buffer (oq_parts message), op_destination (oq_parts message))"

definition transmit_response :: "OutgoingResponse \<Rightarrow> transmission" where
  "transmit_response message = (op_buffer (or_parts message), op_destination (or_parts message))"

lemma headers_contains_insert: "name_eq n n \<Longrightarrow> headers_contains (headers_insert h n v) n"
proof (cases "entry h n")
  case (Some e)
  have "headers_contains h n \<Longrightarrow> headers_contains (push_value n v h) n"
    unfolding headers_contains_def push_value_def by (induction h) auto
  moreover have "headers_contains h n" using entry_find_name [OF Some] by (auto simp: headers_contains_def)
  ultimately show "name_eq n n \<Longrightarrow> ?thesis" using Some by (simp add: headers_insert_def)
qed (simp add: headers_insert_def headers_contains_def)

lemma send_outgoing_request_keeps [simp]:
  "op_transport (oq_parts (send_outgoing_request env m)) = op_transport (oq_parts m)"
  "op_destination (oq_parts (send_outgoing_request env m)) = op_destination (oq_parts m)"
  "oq_line (send_outgoing_request env m) = oq_line m" "oq_body (send_outgoing_request env m) = oq_body m"
  by (simp_all add: send_outgoing_request_def Let_def)

text \<open>A message is printed once: sending it again transmits the same bytes.\<close>

lemma send_outgoing_request_buffer:
  "op_buffer (oq_parts (send_outgoing_request env m)) \<noteq> []"
  "transmit_request (send_outgoing_request env (send_outgoing_request env m)) = transmit_request (send_outgoing_request env m)"
  by (auto simp: send_outgoing_request_def transmit_request_def Let_def)

lemma send_outgoing_request_same:
  "op_buffer (oq_parts m) \<noteq> [] \<Longrightarrow> transmit_request (send_outgoing_request env m) = transmit_request m
     \<and> op_buffer (oq_parts (send_outgoing_request env m)) \<noteq> []
     \<and> op_transport (oq_parts (send_outgoing_request env m)) = op_transport (oq_parts m)"
  by (auto simp: send_outgoing_request_def transmit_request_def Let_def)

lemma send_outgoing_response_same:
  "op_buffer (or_parts m) \<noteq> [] \<Longrightarrow> send_outgoing_response m = m"
  by (simp add: send_outgoing_response_def)

lemma send_outgoing_response_buffer: "op_buffer (or_parts (send_outgoing_response m)) \<noteq> []"
  by (simp add: send_outgoing_response_def Let_def)

section \<open>Waiting\<close>

datatype 'm Wait = Got 'm | TimerElapsed | DeadlineElapsed

record 'm Wake =
  wk_outcome :: "'m Wait"
  wk_at :: instant
  wk_sent :: bool
  wk_done :: instant

datatype 'a Async = Pending | Ready 'a | NotPossible

text \<open>
  Whether a wake can end a wait that begins at \<open>start\<close>, has a timer of its own
  (\<^verbatim>\<open>timeout(n, ..)\<close>) or not, and a deadline (\<^verbatim>\<open>timeout_at\<close>).
\<close>

definition wait_ok :: "duration option \<Rightarrow> instant \<Rightarrow> instant \<Rightarrow> 'm Wake \<Rightarrow> bool" where
  "wait_ok timer deadline start w \<longleftrightarrow> start \<le> wk_at w \<and> wk_at w \<le> wk_done w
     \<and> (case wk_outcome w of
          Got _ \<Rightarrow> True
        | TimerElapsed \<Rightarrow> (case timer of Some n \<Rightarrow> start + n \<le> wk_at w \<and> start < deadline | None \<Rightarrow> False)
        | DeadlineElapsed \<Rightarrow> deadline \<le> wk_at w)"

text \<open>
  The wakes of a loop that waits with a timer of \<open>n\<close>, the next one of \<open>step n\<close> and so on,
  within a deadline; \<open>start\<close> is when the loop is entered.
\<close>

fun lawful :: "(duration \<Rightarrow> duration) \<Rightarrow> instant \<Rightarrow> duration \<Rightarrow> instant \<Rightarrow> 'm Wake list \<Rightarrow> bool" where
  "lawful step deadline n start [] \<longleftrightarrow> True"
| "lawful step deadline n start (w # wks) \<longleftrightarrow>
     wait_ok (Some n) deadline start w \<and> lawful step deadline (step n) (wk_done w) wks"

text \<open>
  A timer that backs off. Each wait takes at least its delay, so the number of waits that
  start within a window is bounded as soon as enough delays fill the window.
\<close>

primrec total_delay :: "(duration \<Rightarrow> duration) \<Rightarrow> duration \<Rightarrow> nat \<Rightarrow> duration" where
  "total_delay step n 0 = 0"
| "total_delay step n (Suc k) = n + total_delay step (step n) k"

lemma total_delay_numeral [simp]:
  "total_delay step n (numeral k) = n + total_delay step (step n) (pred_numeral k)"
  by (simp add: numeral_eq_Suc)

locale backoff =
  fixes step :: "duration \<Rightarrow> duration" and first :: duration and window :: duration and rounds :: nat
  assumes fills: "window \<le> total_delay step first rounds"
begin

lemma elapsed_progress:
  assumes "lawful step deadline n start (wks @ w # rest)" "\<forall>v\<in>set wks. wk_outcome v = TimerElapsed" "wk_outcome w = TimerElapsed"
  shows "start + total_delay step n (length wks) < deadline"
  using assms
proof (induction wks arbitrary: n start)
  case (Cons v wks)
  then have "wk_done v + total_delay step (step n) (length wks) < deadline" "start + n \<le> wk_done v"
    by (auto simp: wait_ok_def)
  then show ?case by simp
qed (auto simp: wait_ok_def)

text \<open>No more than \<open>rounds\<close> timers elapse one after the other.\<close>

lemma rounds_bound:
  assumes law: "lawful step deadline first start wks" and all: "\<forall>v\<in>set wks. wk_outcome v = TimerElapsed"
    and "deadline \<le> start + window"
  shows "length wks \<le> rounds"
proof (rule ccontr)
  assume "\<not> length wks \<le> rounds"
  then have r: "rounds < length wks" by simp
  then have "wks = take rounds wks @ wks ! rounds # drop (Suc rounds) wks" by (simp add: id_take_nth_drop)
  then have "lawful step deadline first start (take rounds wks @ wks ! rounds # drop (Suc rounds) wks)" using law by simp
  moreover have "\<forall>v\<in>set (take rounds wks). wk_outcome v = TimerElapsed" using all in_set_takeD by fast
  moreover have "wk_outcome (wks ! rounds) = TimerElapsed" using all r by simp
  ultimately have "start + total_delay step first (length (take rounds wks)) < deadline" by (rule elapsed_progress)
  then show False using fills assms(3) r by simp
qed

end

text \<open>
  A loop that waits with a timer and sends a message again each time the timer elapses, until
  its deadline. \<open>resend\<close> is the state after sending the message again and \<open>wire\<close> what is
  transmitted.
\<close>

locale retransmission = backoff step first window rounds
  for step :: "duration \<Rightarrow> duration" and first window rounds +
  fixes loop :: "'t \<Rightarrow> duration \<Rightarrow> instant \<Rightarrow> 'm Wake list \<Rightarrow> 'r Async \<times> transmission list"
    and deadline :: "'t \<Rightarrow> instant" and resend :: "'t \<Rightarrow> 't" and wire :: "'t \<Rightarrow> transmission"
    and gave_up :: 'r and delay_ok :: "duration \<Rightarrow> bool"
  assumes first_ok: "delay_ok first"
    and step_ok: "delay_ok n \<Longrightarrow> delay_ok (step n)"
    and loop_nil: "loop t n start [] = (Pending, [])"
    and loop_refuses: "delay_ok n \<Longrightarrow> \<not> wait_ok (Some n) (deadline t) start w \<Longrightarrow> loop t n start (w # wks) = (NotPossible, [])"
    and loop_timer: "delay_ok n \<Longrightarrow> wait_ok (Some n) (deadline t) start w \<Longrightarrow> wk_outcome w = TimerElapsed \<Longrightarrow> wk_sent w
      \<Longrightarrow> loop t n start (w # wks) = map_prod (\<lambda>r. r) ((#) (wire (resend t))) (loop (resend t) (step n) (wk_done w) wks)"
    and loop_deadline: "delay_ok n \<Longrightarrow> wait_ok (Some n) (deadline t) start w \<Longrightarrow> wk_outcome w = DeadlineElapsed
      \<Longrightarrow> loop t n start (w # wks) = (Ready gave_up, [])"
    and deadline_resend: "deadline (resend t) = deadline t"
    and wire_resend: "wire (resend (resend t)) = wire (resend t)"
begin

text \<open>
  As long as no message arrives: the timers that have elapsed keep to the schedule, each was
  answered with the same transmission, and the loop ends when the deadline has passed.
\<close>

lemma silent_run:
  assumes "loop t n start wks = (r, out)" "r \<noteq> NotPossible" "delay_ok n"
    and "list_all (\<lambda>w. wk_outcome w \<in> {TimerElapsed, DeadlineElapsed} \<and> wk_sent w) wks"
  shows "set out \<subseteq> {wire (resend t)}
    \<and> lawful step (deadline t) n start (take (length out) wks)
    \<and> (\<forall>w\<in>set (take (length out) wks). wk_outcome w = TimerElapsed)
    \<and> (r = Pending \<and> length out = length wks
       \<or> r = Ready gave_up \<and> length out < length wks \<and> deadline t \<le> wk_at (wks ! length out))"
  using assms
proof (induction wks arbitrary: t n start r out)
  case Nil
  then show ?case by (simp add: loop_nil)
next
  case (Cons w wks)
  have ok: "wait_ok (Some n) (deadline t) start w"
    using Cons.prems loop_refuses by fastforce
  show ?case
  proof (cases "wk_outcome w = TimerElapsed")
    case True
    with Cons.prems ok obtain out' where l: "loop (resend t) (step n) (wk_done w) wks = (r, out')" and out: "out = wire (resend t) # out'"
      by (cases "loop (resend t) (step n) (wk_done w) wks") (auto simp: loop_timer)
    have rest: "list_all (\<lambda>w. wk_outcome w \<in> {TimerElapsed, DeadlineElapsed} \<and> wk_sent w) wks"
      using Cons.prems(4) by simp
    have "set out' \<subseteq> {wire (resend t)}
      \<and> lawful step (deadline t) (step n) (wk_done w) (take (length out') wks)
      \<and> (\<forall>w\<in>set (take (length out') wks). wk_outcome w = TimerElapsed)
      \<and> (r = Pending \<and> length out' = length wks
         \<or> r = Ready gave_up \<and> length out' < length wks \<and> deadline t \<le> wk_at (wks ! length out'))"
      using Cons.IH [OF l Cons.prems(2) step_ok [OF Cons.prems(3)] rest] unfolding deadline_resend wire_resend .
    then show ?thesis using out ok True by auto
  next
    case False
    then have "wk_outcome w = DeadlineElapsed" using Cons.prems(4) by simp
    then show ?thesis using Cons.prems ok by (auto simp: loop_deadline wait_ok_def)
  qed
qed

theorem gives_up:
  assumes run: "loop t first start wks = (r, out)" "r \<noteq> NotPossible"
    and silent: "list_all (\<lambda>w. wk_outcome w \<in> {TimerElapsed, DeadlineElapsed} \<and> wk_sent w) wks"
    and within: "deadline t \<le> start + window" and long: "rounds < length wks"
  shows "r = Ready gave_up \<and> set out \<subseteq> {wire (resend t)} \<and> length out \<le> rounds
    \<and> deadline t \<le> wk_at (wks ! length out)"
proof -
  note run = silent_run [OF run first_ok silent]
  then have "length (take (length out) wks) \<le> rounds" using within by (intro rounds_bound) auto
  with run long show ?thesis by auto
qed

end

text \<open>The schedules of the client transactions: doubling from \<open>T1\<close>, and every \<open>T2\<close>.\<close>

interpretation doubling: backoff "\<lambda>n. n * 2" T1 "64 * T1" 7
  by unfold_locales (simp add: T1_def from_millis_def)

interpretation steady: backoff "\<lambda>n. n" T2 "64 * T1" 8
  by unfold_locales (simp add: T1_def T2_def from_millis_def)

section \<open>Examples\<close>

text \<open>A wake at a given millisecond, whose transmission succeeds at once.\<close>

definition wake_at :: "'m Wait \<Rightarrow> nat \<Rightarrow> 'm Wake" where
  "wake_at x t = \<lparr>wk_outcome = x, wk_at = from_millis t, wk_sent = True, wk_done = from_millis t\<rparr>"

end
