(* ===== verification/Sip_Client_Tsx.thy ===== *)
theory Sip_Client_Tsx
  imports Sip_Tsx_Base
begin

text \<open>
  The client transactions (\<^verbatim>\<open>sip/sip-core/src/transaction/client.rs\<close> and
  \<^verbatim>\<open>client_inv.rs\<close>). A call of \<^verbatim>\<open>receive\<close> consumes wakes; its result comes with the
  transaction after the call, what was transmitted, and what became of the registration if
  the call gave it away. \<open>start\<close> is when \<^verbatim>\<open>receive\<close> is called; the deadline of a transaction
  is set from the instant of the wake it reacts to. A registration is taken after the caller
  has checked that it is there, so the \<^verbatim>\<open>expect\<close> on it has no branch of its own.
\<close>

section \<open>Responses\<close>

fun as_response :: "TsxMessage \<Rightarrow> TsxResponse option" where
  "as_response msg =
     (case tm_line msg of
        RequestMsg _ \<Rightarrow> None
      | ResponseMsg line \<Rightarrow> Some \<lparr>tr_tp_info = tm_tp_info msg, tr_line = line, tr_base = tm_base msg,
          tr_headers = tm_headers msg, tr_body = tm_body msg\<rparr>)"

text \<open>\<^verbatim>\<open>receive_response\<close> on the messages that arrive: requests are skipped.\<close>

fun receive_response :: "TsxMessage list \<Rightarrow> (TsxResponse \<times> TsxMessage list) option" where
  "receive_response [] = None"
| "receive_response (m # ms) = (case as_response m of Some r \<Rightarrow> Some (r, ms) | None \<Rightarrow> receive_response ms)"

abbreviation response_kind :: "TsxResponse \<Rightarrow> CodeKind" where
  "response_kind r \<equiv> code_kind (sl_code (tr_line r))"

datatype Handover = NotGiven | GivenToTask TsxRegistration | GivenUp TsxRegistration

section \<open>Client transaction\<close>

datatype ClientState = ClientInit | ClientProceeding | ClientCompleted | ClientTerminated

record ClientTsx =
  cl_registration :: "TsxRegistration option"
  cl_request :: OutgoingRequest
  cl_timeout :: instant
  cl_state :: ClientState

text \<open>
  \<^verbatim>\<open>send\<close> for a request whose transport has been selected; \<open>sent\<close> and \<open>now\<close> are the result
  and the end of the transmission.
\<close>

definition start_request ::
    "Env \<Rightarrow> Transactions \<Rightarrow> bytes \<Rightarrow> SipMethod \<Rightarrow> HostPort option \<Rightarrow> OutgoingRequest
     \<Rightarrow> (TsxRegistration \<times> OutgoingRequest \<times> Transactions) panics" where
  "start_request env tx random meth via_host_port request =
     map_option (\<lambda>(reg, tx).
       let via = create_via (op_transport (oq_parts request)) (reg_key reg) via_host_port;
           request = request\<lparr>oq_headers := insert_type_front (oq_headers request) VIA (single_value (via_print (env_ip6 env) via))\<rparr> in
       (reg, send_outgoing_request env request, tx))
     (registration_create tx (client_key random meth))"

definition client_send ::
    "Env \<Rightarrow> Transactions \<Rightarrow> bytes \<Rightarrow> HostPort option \<Rightarrow> OutgoingRequest \<Rightarrow> bool \<Rightarrow> instant
     \<Rightarrow> ((CoreError, ClientTsx) result \<times> Transactions) panics" where
  "client_send env tx random via_host_port request sent now =
     (if rl_method (oq_line request) \<in> {INVITE, ACK} then None
      else map_option (\<lambda>(reg, request, tx).
        if sent then (Inr \<lparr>cl_registration = Some reg, cl_request = request, cl_timeout = now + T1 * 64, cl_state = ClientInit\<rparr>, tx)
        else (Inl IoError, registration_drop tx reg))
      (start_request env tx random (rl_method (oq_line request)) via_host_port request))"

definition client_handle_msg :: "ClientTsx \<Rightarrow> TsxResponse \<Rightarrow> ClientTsx \<times> Handover" where
  "client_handle_msg self response =
     (if response_kind response = Provisional then (self\<lparr>cl_state := ClientProceeding\<rparr>, NotGiven)
      else (case cl_registration self of
        None \<Rightarrow> (self, NotGiven)
      | Some registration \<Rightarrow>
          if tp_reliable (op_transport (oq_parts (cl_request self)))
          then (self\<lparr>cl_registration := None, cl_state := ClientTerminated\<rparr>, GivenUp registration)
          else (self\<lparr>cl_registration := None, cl_state := ClientCompleted\<rparr>, GivenToTask registration)))"

type_synonym ('t, 'r) call = "(CoreError, 'r) result Async \<times> 't \<times> transmission list \<times> Handover"

definition client_got :: "ClientTsx \<Rightarrow> TsxResponse \<Rightarrow> (ClientTsx, TsxResponse) call" where
  "client_got self response =
     (case client_handle_msg self response of (self, given) \<Rightarrow> (Ready (Inr response), self, [], given))"

fun client_init_loop :: "Env \<Rightarrow> ClientTsx \<Rightarrow> instant \<Rightarrow> TsxResponse Wake list \<Rightarrow> (ClientTsx, TsxResponse) call" where
  "client_init_loop env self start [] = (Pending, self, [], NotGiven)"
| "client_init_loop env self start (w # wks) =
     (if \<not> wait_ok (Some T2) (cl_timeout self) start w then (NotPossible, self, [], NotGiven) else
      case wk_outcome w of
        Got msg \<Rightarrow> client_got self msg
      | TimerElapsed \<Rightarrow>
          let self = self\<lparr>cl_request := send_outgoing_request env (cl_request self)\<rparr>;
              tr = transmit_request (cl_request self) in
          if wk_sent w
          then (case client_init_loop env self (wk_done w) wks of (r, self, out, given) \<Rightarrow> (r, self, tr # out, given))
          else (Ready (Inl IoError), self, [tr], NotGiven)
      | DeadlineElapsed \<Rightarrow> (Ready (Inl RequestTimedOut), self, [], NotGiven))"

fun client_wait :: "ClientTsx \<Rightarrow> instant \<Rightarrow> TsxResponse Wake list \<Rightarrow> (ClientTsx, TsxResponse) call" where
  "client_wait self start [] = (Pending, self, [], NotGiven)"
| "client_wait self start (w # _) =
     (if \<not> wait_ok None (cl_timeout self) start w then (NotPossible, self, [], NotGiven) else
      case wk_outcome w of
        Got msg \<Rightarrow> client_got self msg
      | _ \<Rightarrow> (Ready (Inl RequestTimedOut), self, [], NotGiven))"

definition client_receive :: "Env \<Rightarrow> ClientTsx \<Rightarrow> instant \<Rightarrow> TsxResponse Wake list \<Rightarrow> (ClientTsx, TsxResponse) call panics" where
  "client_receive env self start wks =
     (if cl_registration self = None then None
      else case cl_state self of
        ClientInit \<Rightarrow> Some (if \<not> tp_reliable (op_transport (oq_parts (cl_request self)))
          then client_init_loop env self start wks else client_wait self start wks)
      | ClientProceeding \<Rightarrow> Some (client_wait self start wks)
      | _ \<Rightarrow> None)"

text \<open>
  \<^verbatim>\<open>receive_final\<close>: one list of wakes per call of \<^verbatim>\<open>receive\<close>, each with the instant of the
  call; a call that is pending is the last.
\<close>

fun receive_final :: "Env \<Rightarrow> ClientTsx \<Rightarrow> (instant \<times> TsxResponse Wake list) list \<Rightarrow> (ClientTsx, TsxResponse) call panics" where
  "receive_final env self [] = Some (Pending, self, [], NotGiven)"
| "receive_final env self ((start, wks) # calls) =
     (case client_receive env self start wks of
        Some (Ready (Inr response), self, out, given) \<Rightarrow>
          if response_kind response = Provisional
          then map_option (\<lambda>(r, self, out', given). (r, self, out @ out', given)) (receive_final env self calls)
          else Some (Ready (Inr response), self, out, given)
      | res \<Rightarrow> res)"

section \<open>Client INVITE transaction\<close>

datatype InvState = InvInit | InvProceeding | InvAccepted | InvCompleted | InvTerminated

record ClientInvTsx =
  ci_registration :: "TsxRegistration option"
  ci_request :: OutgoingRequest
  ci_timeout :: instant
  ci_state :: InvState

definition client_inv_send ::
    "Env \<Rightarrow> Transactions \<Rightarrow> bytes \<Rightarrow> HostPort option \<Rightarrow> OutgoingRequest \<Rightarrow> bool \<Rightarrow> instant
     \<Rightarrow> ((CoreError, ClientInvTsx) result \<times> Transactions) panics" where
  "client_inv_send env tx random via_host_port request sent now =
     (if rl_method (oq_line request) \<noteq> INVITE then None
      else map_option (\<lambda>(reg, request, tx).
        if sent then (Inr \<lparr>ci_registration = Some reg, ci_request = request, ci_timeout = now + T1 * 64, ci_state = InvInit\<rparr>, tx)
        else (Inl IoError, registration_drop tx reg))
      (start_request env tx random INVITE via_host_port request))"

definition create_ack :: "OutgoingRequest \<Rightarrow> TsxResponse \<Rightarrow> (HeaderError, OutgoingRequest) result" where
  "create_ack request response =
     bind_res (clone_into (oq_headers request) [] VIA) (\<lambda>headers.
     bind_res (clone_into (oq_headers request) headers FROM) (\<lambda>headers.
     bind_res (clone_into (tr_headers response) headers TO) (\<lambda>headers.
     bind_res (clone_into (oq_headers request) headers CALL_ID) (\<lambda>headers.
       let headers = insert_type headers MAX_FORWARDS (replacing_value (decimal 70)) in
     bind_res (headers_get (oq_headers request) CSEQ (decode_first cseq_parse)) (\<lambda>cseq.
       let headers = insert_type headers CSEQ (replacing_value (cseq_print \<lparr>cseq_num = cseq_num cseq, cseq_method = ACK\<rparr>)) in
       Inr \<lparr>oq_line = \<lparr>rl_method = ACK, rl_uri = rl_uri (oq_line request)\<rparr>, oq_headers = headers, oq_body = [],
         oq_parts = \<lparr>op_transport = op_transport (oq_parts request), op_destination = op_destination (oq_parts request), op_buffer = []\<rparr>\<rparr>)))))"

text \<open>The result of a call, and the ACK that the task it starts repeats.\<close>

definition inv_handle_msg ::
    "Env \<Rightarrow> ClientInvTsx \<Rightarrow> TsxResponse \<Rightarrow> TsxResponse Wake \<Rightarrow> (ClientInvTsx, TsxResponse option) call" where
  "inv_handle_msg env self msg w =
     (case response_kind msg of
        Provisional \<Rightarrow>
          (Ready (Inr (Some msg)), self\<lparr>ci_timeout := wk_at w + T1 * 240, ci_state := InvProceeding\<rparr>, [], NotGiven)
      | CodeSuccess \<Rightarrow>
          (Ready (Inr (Some msg)), self\<lparr>ci_timeout := wk_at w + T1 * 64, ci_state := InvAccepted\<rparr>, [], NotGiven)
      | _ \<Rightarrow>
          (case ci_registration self of
             None \<Rightarrow> (Ready (Inr (Some msg)), self, [], NotGiven)
           | Some registration \<Rightarrow>
               let self = self\<lparr>ci_registration := None\<rparr> in
               (case create_ack (ci_request self) msg of
                  Inl e \<Rightarrow> (Ready (Inl (HeaderFault e)), self, [], GivenUp registration)
                | Inr ack \<Rightarrow>
                    let tr = transmit_request (send_outgoing_request env ack) in
                    if \<not> wk_sent w then (Ready (Inl IoError), self, [tr], GivenUp registration)
                    else if tp_reliable (op_transport (oq_parts (ci_request self)))
                    then (Ready (Inr (Some msg)), self\<lparr>ci_state := InvTerminated\<rparr>, [tr], GivenUp registration)
                    else (Ready (Inr (Some msg)), self\<lparr>ci_state := InvCompleted\<rparr>, [tr], GivenToTask registration))))"

fun inv_init_loop :: "Env \<Rightarrow> ClientInvTsx \<Rightarrow> duration \<Rightarrow> instant \<Rightarrow> TsxResponse Wake list \<Rightarrow> (ClientInvTsx, TsxResponse option) call" where
  "inv_init_loop env self n start [] = (Pending, self, [], NotGiven)"
| "inv_init_loop env self n start (w # wks) =
     (if \<not> wait_ok (Some n) (ci_timeout self) start w then (NotPossible, self, [], NotGiven) else
      case wk_outcome w of
        Got msg \<Rightarrow> inv_handle_msg env self msg w
      | TimerElapsed \<Rightarrow>
          let self = self\<lparr>ci_request := send_outgoing_request env (ci_request self)\<rparr>;
              tr = transmit_request (ci_request self) in
          if wk_sent w
          then (case inv_init_loop env self (n * 2) (wk_done w) wks of (r, self, out, given) \<Rightarrow> (r, self, tr # out, given))
          else (Ready (Inl IoError), self, [tr], NotGiven)
      | DeadlineElapsed \<Rightarrow> (Ready (Inl RequestTimedOut), self, [], NotGiven))"

fun inv_wait :: "Env \<Rightarrow> ClientInvTsx \<Rightarrow> instant \<Rightarrow> TsxResponse Wake list \<Rightarrow> (ClientInvTsx, TsxResponse option) call" where
  "inv_wait env self start [] = (Pending, self, [], NotGiven)"
| "inv_wait env self start (w # _) =
     (if \<not> wait_ok None (ci_timeout self) start w then (NotPossible, self, [], NotGiven) else
      case wk_outcome w of
        Got msg \<Rightarrow> inv_handle_msg env self msg w
      | _ \<Rightarrow> (Ready (Inl RequestTimedOut), self, [], NotGiven))"

fun inv_accepted_wait :: "ClientInvTsx \<Rightarrow> instant \<Rightarrow> TsxResponse Wake list \<Rightarrow> (ClientInvTsx, TsxResponse option) call" where
  "inv_accepted_wait self start [] = (Pending, self, [], NotGiven)"
| "inv_accepted_wait self start (w # _) =
     (if \<not> wait_ok None (ci_timeout self) start w then (NotPossible, self, [], NotGiven) else
      case wk_outcome w of
        Got msg \<Rightarrow> (Ready (Inr (Some msg)), self, [], NotGiven)
      | _ \<Rightarrow> (Ready (Inr None), self\<lparr>ci_state := InvTerminated\<rparr>, [], NotGiven))"

definition inv_receive :: "Env \<Rightarrow> ClientInvTsx \<Rightarrow> instant \<Rightarrow> TsxResponse Wake list \<Rightarrow> (ClientInvTsx, TsxResponse option) call" where
  "inv_receive env self start wks =
     (if ci_registration self = None then (Ready (Inr None), self, [], NotGiven)
      else case ci_state self of
        InvInit \<Rightarrow> if \<not> tp_reliable (op_transport (oq_parts (ci_request self)))
          then inv_init_loop env self T1 start wks else inv_wait env self start wks
      | InvProceeding \<Rightarrow> inv_wait env self start wks
      | InvAccepted \<Rightarrow> inv_accepted_wait self start wks
      | _ \<Rightarrow> (Ready (Inr None), self, [], NotGiven))"

text \<open>
  The tasks that keep the registration alive after a final response: until \<open>T4\<close> has passed,
  messages are tossed; after a failure response to an INVITE, every message within 32 seconds
  is answered with the ACK.
\<close>

fun toss_task :: "instant \<Rightarrow> instant \<Rightarrow> TsxMessage Wake list \<Rightarrow> unit Async" where
  "toss_task timeout start [] = Pending"
| "toss_task timeout start (w # wks) =
     (if \<not> wait_ok None timeout start w then NotPossible else
      case wk_outcome w of Got _ \<Rightarrow> toss_task timeout (wk_done w) wks | _ \<Rightarrow> Ready ())"

fun ack_task :: "Env \<Rightarrow> OutgoingRequest \<Rightarrow> instant \<Rightarrow> instant \<Rightarrow> TsxMessage Wake list \<Rightarrow> unit Async \<times> transmission list" where
  "ack_task env ack timeout start [] = (Pending, [])"
| "ack_task env ack timeout start (w # wks) =
     (if \<not> wait_ok None timeout start w then (NotPossible, []) else
      case wk_outcome w of
        Got _ \<Rightarrow>
          let ack = send_outgoing_request env ack in
          (case ack_task env ack timeout (wk_done w) wks of (r, out) \<Rightarrow> (r, transmit_request ack # out))
      | _ \<Rightarrow> (Ready (), []))"

definition spawn_ack_task :: "Env \<Rightarrow> OutgoingRequest \<Rightarrow> instant \<Rightarrow> TsxMessage Wake list \<Rightarrow> unit Async \<times> transmission list" where
  "spawn_ack_task env ack now wks = ack_task env ack (now + from_secs 32) now wks"

definition spawn_toss_task :: "instant \<Rightarrow> TsxMessage Wake list \<Rightarrow> unit Async" where
  "spawn_toss_task now wks = toss_task (now + T4) now wks"

section \<open>Giving up\<close>

definition outcome :: "('t, 'r) call \<Rightarrow> (CoreError, 'r) result Async \<times> transmission list" where
  "outcome c = (case c of (r, t, out, given) \<Rightarrow> (r, out))"

lemma outcome_simp [simp]: "outcome (r, t, out, given) = (r, out)"
  by (simp add: outcome_def)

lemma transmit_twice:
  "transmit_request (send_outgoing_request env (send_outgoing_request env m)) = transmit_request (send_outgoing_request env m)"
  by (rule send_outgoing_request_buffer)

interpretation inv_rt: retransmission "\<lambda>n. n * 2" T1 "64 * T1" 7
  "\<lambda>t n start wks. outcome (inv_init_loop env t n start wks)" ci_timeout
  "\<lambda>t. t\<lparr>ci_request := send_outgoing_request env (ci_request t)\<rparr>" "\<lambda>t. transmit_request (ci_request t)"
  "Inl RequestTimedOut" "\<lambda>_. True" for env
  by unfold_locales (auto simp: transmit_twice Let_def outcome_def map_prod_def split: prod.splits)

interpretation cl_rt: retransmission "\<lambda>n. n" T2 "64 * T1" 8
  "\<lambda>t n start wks. outcome (client_init_loop env t start wks)" cl_timeout
  "\<lambda>t. t\<lparr>cl_request := send_outgoing_request env (cl_request t)\<rparr>" "\<lambda>t. transmit_request (cl_request t)"
  "Inl RequestTimedOut" "\<lambda>n. n = T2" for env
  by unfold_locales (auto simp: transmit_twice Let_def outcome_def map_prod_def split: prod.splits)

text \<open>The silence of the other side, as wakes: no message arrives, and every transmission succeeds.\<close>

abbreviation silence :: "'m Wake list \<Rightarrow> bool" where
  "silence wks \<equiv> list_all (\<lambda>w. wk_outcome w \<in> {TimerElapsed, DeadlineElapsed} \<and> wk_sent w) wks"

lemma start_request_parts:
  assumes "start_request env tx random m hp request = Some (reg, sent, tx')"
  shows "op_transport (oq_parts sent) = op_transport (oq_parts request)" "op_buffer (oq_parts sent) \<noteq> []"
  using assms send_outgoing_request_buffer(1) by (auto simp: start_request_def Let_def)

text \<open>
  C8: An INVITE that nobody answers over an unreliable transport comes to an end: the call of
  \<^verbatim>\<open>receive\<close> on a new transaction returns \<^verbatim>\<open>RequestTimedOut\<close>, not before the timeout of
  64 T1 after sending, and by then it has sent the INVITE again at most seven times, each
  time the same bytes to the same destination as the first.\<close>

theorem client_inv_gives_up:
  assumes sent: "client_inv_send env tx random via_host_port request True now = Some (Inr t, tx')"
    and "\<not> tp_reliable (op_transport (oq_parts request))" "now \<le> start"
    and run: "inv_receive env t start wks = (r, t', out, given)" "r \<noteq> NotPossible"
    and wks: "silence wks" "7 < length wks"
  shows "r = Ready (Inl RequestTimedOut) \<and> set out \<subseteq> {transmit_request (ci_request t)} \<and> length out \<le> 7
    \<and> now + 64 * T1 \<le> wk_at (wks ! length out)"
proof -
  obtain reg req where t: "t = \<lparr>ci_registration = Some reg, ci_request = req, ci_timeout = now + T1 * 64, ci_state = InvInit\<rparr>"
    and req: "start_request env tx random INVITE via_host_port request = Some (reg, req, tx')"
    using sent by (auto simp: client_inv_send_def split: if_splits)
  have "inv_receive env t start wks = inv_init_loop env t T1 start wks"
    using assms(2) start_request_parts(1) [OF req] by (simp add: inv_receive_def t)
  then have "outcome (inv_init_loop env t T1 start wks) = (r, out)" using run(1) by (metis outcome_simp option.inject)
  from inv_rt.gives_up [OF this run(2) wks(1) _ wks(2)] show ?thesis
    using assms(3) start_request_parts(2) [OF req] send_outgoing_request_same [of req env] by (simp add: t mult.commute)
qed

text \<open>
  The same of any other request: \<^verbatim>\<open>receive\<close> returns \<^verbatim>\<open>RequestTimedOut\<close> after at most
  eight retransmissions.\<close>

theorem client_gives_up:
  assumes sent: "client_send env tx random via_host_port request True now = Some (Inr t, tx')"
    and "\<not> tp_reliable (op_transport (oq_parts request))" "now \<le> start"
    and run: "client_receive env t start wks = Some (r, t', out, given)" "r \<noteq> NotPossible"
    and wks: "silence wks" "8 < length wks"
  shows "r = Ready (Inl RequestTimedOut) \<and> set out \<subseteq> {transmit_request (cl_request t)} \<and> length out \<le> 8
    \<and> now + 64 * T1 \<le> wk_at (wks ! length out)"
proof -
  obtain reg req where t: "t = \<lparr>cl_registration = Some reg, cl_request = req, cl_timeout = now + T1 * 64, cl_state = ClientInit\<rparr>"
    and req: "start_request env tx random (rl_method (oq_line request)) via_host_port request = Some (reg, req, tx')"
    using sent by (auto simp: client_send_def split: if_splits)
  have "client_receive env t start wks = Some (client_init_loop env t start wks)"
    using assms(2) start_request_parts(1) [OF req] by (simp add: client_receive_def t)
  then have "outcome (client_init_loop env t start wks) = (r, out)" using run(1) by (metis outcome_simp option.inject)
  from cl_rt.gives_up [OF this run(2) wks(1) _ wks(2)] show ?thesis
    using assms(3) start_request_parts(2) [OF req] send_outgoing_request_same [of req env] by (simp add: t mult.commute)
qed

section \<open>The ACK\<close>

lemma clone_into_new:
  assumes "clone_into h dest n = Inr dest'" "entry dest n = None" "name_eq n n" "values_of h n \<noteq> []"
  shows "\<exists>x. oom_values x = values_of h n \<and> dest' = dest @ [\<lparr>en_name = n, en_values = x\<rparr>]"
  using assms by (auto simp: clone_into_def values_of_def fold_insert_new split: option.splits)

lemma headers_get_values:
  "headers_get h n d = (if entry h n = None then Inl (Missing n) else ok_or (d (values_of h n)) (Malformed n))"
  by (simp add: headers_get_def headers_try_get_def values_of_def split: option.split)

lemma headers_get_first:
  "headers_get h n (decode_first p) = Inr x \<Longrightarrow> values_of h n \<noteq> []"
  by (auto simp: headers_get_values values_of_def split: option.splits if_splits)

lemma ack_names:
  "name_eq VIA VIA" "\<not> name_eq VIA FROM" "\<not> name_eq VIA TO" "\<not> name_eq VIA CALL_ID" "\<not> name_eq VIA MAX_FORWARDS" "\<not> name_eq VIA CSEQ"
  "\<not> name_eq FROM VIA" "name_eq FROM FROM" "\<not> name_eq FROM TO" "\<not> name_eq FROM CALL_ID" "\<not> name_eq FROM MAX_FORWARDS" "\<not> name_eq FROM CSEQ"
  "\<not> name_eq TO VIA" "\<not> name_eq TO FROM" "name_eq TO TO" "\<not> name_eq TO CALL_ID" "\<not> name_eq TO MAX_FORWARDS" "\<not> name_eq TO CSEQ"
  "\<not> name_eq CALL_ID VIA" "\<not> name_eq CALL_ID FROM" "\<not> name_eq CALL_ID TO" "name_eq CALL_ID CALL_ID" "\<not> name_eq CALL_ID MAX_FORWARDS" "\<not> name_eq CALL_ID CSEQ"
  "\<not> name_eq MAX_FORWARDS VIA" "\<not> name_eq MAX_FORWARDS FROM" "\<not> name_eq MAX_FORWARDS TO" "\<not> name_eq MAX_FORWARDS CALL_ID" "name_eq MAX_FORWARDS MAX_FORWARDS" "\<not> name_eq MAX_FORWARDS CSEQ"
  "\<not> name_eq CSEQ VIA" "\<not> name_eq CSEQ FROM" "\<not> name_eq CSEQ TO" "\<not> name_eq CSEQ CALL_ID" "\<not> name_eq CSEQ MAX_FORWARDS" "name_eq CSEQ CSEQ"
  by code_simp+

lemma extract_from_iff:
  fixes b :: BaseHeaders
  shows "extract_from T h = Inr b \<longleftrightarrow>
    headers_get h VIA (decode_vec (via_parse T)) = Inr (bh_via b)
    \<and> headers_get h FROM (decode_first (from_to_parse T)) = Inr (bh_from b)
    \<and> headers_get h TO (decode_first (from_to_parse T)) = Inr (bh_to b)
    \<and> headers_get h CALL_ID (decode_first call_id_parse) = Inr (bh_call_id b)
    \<and> headers_get h CSEQ (decode_first cseq_parse) = Inr (bh_cseq b)"
  by (cases b) (auto simp: extract_from_def res_iff)

lemma create_ack_headers:
  assumes "create_ack request response = Inr ack"
    and b: "extract_from T (oq_headers request) = Inr b" "bh_via b \<noteq> []"
    and rb: "extract_from T (tr_headers response) = Inr rb"
  shows "extract_from T (oq_headers ack) = Inr (b\<lparr>bh_to := bh_to rb, bh_cseq := (bh_cseq b)\<lparr>cseq_method := ACK\<rparr>\<rparr>)"
proof -
  note s = assms(1) [unfolded create_ack_def Let_def] b(1) [unfolded extract_from_iff] rb [unfolded extract_from_iff]
  from s(1) obtain h1 h2 h3 h4 c where h:
    "clone_into (oq_headers request) [] VIA = Inr h1" "clone_into (oq_headers request) h1 FROM = Inr h2"
    "clone_into (tr_headers response) h2 TO = Inr h3" "clone_into (oq_headers request) h3 CALL_ID = Inr h4"
    "headers_get (oq_headers request) CSEQ (decode_first cseq_parse) = Inr c"
    "oq_headers ack = insert_type (insert_type h4 MAX_FORWARDS (replacing_value (decimal 70))) CSEQ
       (replacing_value (cseq_print \<lparr>cseq_num = cseq_num c, cseq_method = ACK\<rparr>))"
    by (auto simp: res_iff)
  have via: "values_of (oq_headers request) VIA \<noteq> []"
    using s(2) b(2) by (auto simp: res_iff headers_get_values decode_vec_def split: if_splits)
  have vals: "values_of (oq_headers request) FROM \<noteq> []" "values_of (tr_headers response) TO \<noteq> []"
      "values_of (oq_headers request) CALL_ID \<noteq> []"
    by (rule headers_get_first [OF s(2) [THEN conjunct2, THEN conjunct1]],
        rule headers_get_first [OF s(3) [THEN conjunct2, THEN conjunct2, THEN conjunct1]],
        rule headers_get_first [OF s(2) [THEN conjunct2, THEN conjunct2, THEN conjunct2, THEN conjunct1]])
  obtain xv where xv: "oom_values xv = values_of (oq_headers request) VIA" "h1 = [\<lparr>en_name = VIA, en_values = xv\<rparr>]"
    using clone_into_new [OF h(1)] via by (auto simp: entry_def ack_names)
  obtain xf where xf: "oom_values xf = values_of (oq_headers request) FROM" "h2 = h1 @ [\<lparr>en_name = FROM, en_values = xf\<rparr>]"
    using clone_into_new [OF h(2)] vals by (auto simp: entry_def ack_names xv(2))
  obtain xt where xt: "oom_values xt = values_of (tr_headers response) TO" "h3 = h2 @ [\<lparr>en_name = TO, en_values = xt\<rparr>]"
    using clone_into_new [OF h(3)] vals by (auto simp: entry_def ack_names xv(2) xf(2))
  obtain xc where xc: "oom_values xc = values_of (oq_headers request) CALL_ID" "h4 = h3 @ [\<lparr>en_name = CALL_ID, en_values = xc\<rparr>]"
    using clone_into_new [OF h(4)] vals by (auto simp: entry_def ack_names xv(2) xf(2) xt(2))
  let ?ack = "[\<lparr>en_name = VIA, en_values = xv\<rparr>, \<lparr>en_name = FROM, en_values = xf\<rparr>, \<lparr>en_name = TO, en_values = xt\<rparr>,
      \<lparr>en_name = CALL_ID, en_values = xc\<rparr>, \<lparr>en_name = MAX_FORWARDS, en_values = One (decimal 70)\<rparr>,
      \<lparr>en_name = CSEQ, en_values = One (cseq_print \<lparr>cseq_num = cseq_num c, cseq_method = ACK\<rparr>)\<rparr>]"
  have ack: "oq_headers ack = ?ack"
    using h(6) by (simp add: xv(2) xf(2) xt(2) xc(2) ack_names insert_type_def entry_def replacing_value_def)
  have "values_of ?ack VIA = values_of (oq_headers request) VIA" "values_of ?ack FROM = values_of (oq_headers request) FROM"
    "values_of ?ack TO = values_of (tr_headers response) TO" "values_of ?ack CALL_ID = values_of (oq_headers request) CALL_ID"
    "values_of ?ack CSEQ = [cseq_print \<lparr>cseq_num = cseq_num c, cseq_method = ACK\<rparr>]"
    "\<forall>n \<in> {VIA, FROM, TO, CALL_ID, CSEQ}. entry ?ack n \<noteq> None"
    using xv(1) xf(1) xt(1) xc(1) by (simp_all add: ack_names values_of_def [of ?ack] entry_def [of ?ack])
  then show ?thesis
    using s(2,3) h(5) cseq_parse_print [of "\<lparr>cseq_num = cseq_num c, cseq_method = ACK\<rparr>"]
    unfolding ack extract_from_iff headers_get_values by (auto simp: res_iff split: if_splits)
qed

lemma inv_handle_failure:
  assumes "inv_handle_msg env self m w = (Ready (Inr (Some msg)), t', out, given)"
    and "ci_registration self \<noteq> None" "response_kind msg \<notin> {Provisional, CodeSuccess}"
  shows "\<exists>ack. create_ack (ci_request t') msg = Inr ack \<and> out = [transmit_request (send_outgoing_request env ack)]
    \<and> ci_registration t' = None"
  using assms by (auto simp: inv_handle_msg_def Let_def split: CodeKind.splits option.splits sum.splits if_splits)

lemma inv_handle_result:
  "inv_handle_msg env self m w = (Ready (Inr (Some msg)), t', out, given) \<Longrightarrow> m = msg"
  by (auto simp: inv_handle_msg_def Let_def split: CodeKind.splits option.splits sum.splits if_splits)

lemma inv_init_loop_got:
  "inv_init_loop env self n start wks = (Ready (Inr (Some msg)), t', out, given) \<Longrightarrow>
     \<exists>self' w pre post. inv_handle_msg env self' msg w = (Ready (Inr (Some msg)), t', post, given)
       \<and> out = pre @ post \<and> ci_registration self' = ci_registration self"
proof (induction env self n start wks arbitrary: out rule: inv_init_loop.induct)
  case (2 env self n start w wks)
  let ?self = "self\<lparr>ci_request := send_outgoing_request env (ci_request self)\<rparr>"
  show ?case
  proof (cases "wk_outcome w")
    case (Got m)
    then have "inv_handle_msg env self m w = (Ready (Inr (Some msg)), t', out, given)"
      using "2.prems" by (simp split: if_splits)
    then show ?thesis using inv_handle_result [of env self m w] by (intro exI [of _ self] exI [of _ w] exI [of _ "[]"] exI [of _ out]) auto
  next
    case TimerElapsed
    with "2.prems" obtain out' where l: "inv_init_loop env ?self (n * 2) (wk_done w) wks = (Ready (Inr (Some msg)), t', out', given)"
      and out: "out = transmit_request (send_outgoing_request env (ci_request self)) # out'"
      and c: "\<not> \<not> wait_ok (Some n) (ci_timeout self) start w" "wk_sent w"
      by (auto simp: Let_def split: if_splits prod.splits)
    from "2.IH" [OF c(1) TimerElapsed refl refl c(2) l] obtain self' w' pre post where
      "inv_handle_msg env self' msg w' = (Ready (Inr (Some msg)), t', post, given)" "out' = pre @ post"
      "ci_registration self' = ci_registration ?self" by blast
    with out show ?thesis
      by (intro exI [of _ self'] exI [of _ w'] exI [of _ "transmit_request (send_outgoing_request env (ci_request self)) # pre"]
          exI [of _ post]) simp
  qed (use "2.prems" in \<open>simp split: if_splits\<close>)
qed simp

lemma inv_receive_got:
  assumes "inv_receive env t start wks = (Ready (Inr (Some msg)), t', out, given)" "ci_state t \<in> {InvInit, InvProceeding}"
  shows "ci_registration t \<noteq> None \<and>
    (\<exists>self' w pre post. inv_handle_msg env self' msg w = (Ready (Inr (Some msg)), t', post, given)
       \<and> out = pre @ post \<and> ci_registration self' = ci_registration t)"
proof -
  have reg: "ci_registration t \<noteq> None" using assms(1) by (simp add: inv_receive_def split: if_splits)
  have wait: ?thesis if "inv_wait env t start wks = (Ready (Inr (Some msg)), t', out, given)"
  proof (cases wks)
    case (Cons w rest)
    with that obtain m where "inv_handle_msg env t m w = (Ready (Inr (Some msg)), t', out, given)"
      by (auto split: if_splits Wait.splits)
    then show ?thesis
      using reg inv_handle_result [of env t m w] by (intro conjI exI [of _ t] exI [of _ w] exI [of _ "[]"] exI [of _ out]) auto
  qed (use that in simp)
  then show ?thesis
    using assms reg inv_init_loop_got [of env t T1 start wks msg t' out given] by (auto simp: inv_receive_def split: if_splits)
qed

lemma ack_task_same:
  "op_buffer (oq_parts ack) \<noteq> [] \<Longrightarrow> set (snd (ack_task env ack timeout start wks)) \<subseteq> {transmit_request ack}"
proof (induction env ack timeout start wks rule: ack_task.induct)
  case (2 env ack timeout start w wks)
  note same = send_outgoing_request_same [OF "2.prems", of env]
  have "set (snd (ack_task env (send_outgoing_request env ack) timeout (wk_done w) wks)) \<subseteq> {transmit_request ack}"
    if "wait_ok None timeout start w" "wk_outcome w = Got m" for m
    using "2.IH" [OF _ that(2) refl] that(1) same by simp
  then show ?case using same by (auto simp: Let_def split: Wait.splits prod.splits if_splits)
qed simp

lemma same_invite_key:
  fixes b :: BaseHeaders
  assumes "cseq_method (bh_cseq b) = INVITE"
  shows "from_headers (b\<lparr>bh_to := x, bh_cseq := (bh_cseq b)\<lparr>cseq_method := ACK\<rparr>\<rparr>) role = from_headers b role"
  using assms by (simp add: from_headers_def filter_method_def split: list.split)

text \<open>
  C9: A failure response to an INVITE is acknowledged: when \<^verbatim>\<open>receive\<close> returns it, the last
  thing transmitted is an ACK to the URI of the INVITE that has the To header of the response
  and, at the receiver, the same transaction key as the INVITE; every further \<^verbatim>\<open>receive\<close>
  returns \<^verbatim>\<open>None\<close>, and the task that answers retransmitted responses sends nothing but that
  same ACK.\<close>

theorem failure_is_acked:
  assumes "inv_receive env t start wks = (Ready (Inr (Some msg)), t', out, given)" "ci_state t \<in> {InvInit, InvProceeding}"
    and "response_kind msg \<notin> {Provisional, CodeSuccess}"
    and b: "extract_from T (oq_headers (ci_request t')) = Inr b" "bh_via b \<noteq> []" "cseq_method (bh_cseq b) = INVITE"
    and rb: "extract_from T (tr_headers msg) = Inr rb"
  shows "\<exists>ack ackb. out \<noteq> [] \<and> last out = transmit_request (send_outgoing_request env ack)
    \<and> oq_line ack = \<lparr>rl_method = ACK, rl_uri = rl_uri (oq_line (ci_request t'))\<rparr>
    \<and> extract_from T (oq_headers ack) = Inr ackb \<and> bh_to ackb = bh_to rb
    \<and> from_headers ackb ServerRole = from_headers b ServerRole
    \<and> inv_receive env t' start' wks' = (Ready (Inr None), t', [], NotGiven)
    \<and> set (snd (spawn_ack_task env (send_outgoing_request env ack) now wks'')) \<subseteq> {last out}"
proof -
  from inv_receive_got [OF assms(1,2)] obtain self' w pre post where h:
    "inv_handle_msg env self' msg w = (Ready (Inr (Some msg)), t', post, given)" "out = pre @ post" "ci_registration self' \<noteq> None"
    by metis
  from inv_handle_failure [OF h(1,3) assms(3)] obtain ack where ack: "create_ack (ci_request t') msg = Inr ack"
    "post = [transmit_request (send_outgoing_request env ack)]" "ci_registration t' = None" by blast
  have "oq_line ack = \<lparr>rl_method = ACK, rl_uri = rl_uri (oq_line (ci_request t'))\<rparr>"
    using ack(1) by (auto simp: create_ack_def Let_def res_iff)
  moreover have "set (snd (spawn_ack_task env (send_outgoing_request env ack) now wks'')) \<subseteq> {last out}"
    using ack_task_same [OF send_outgoing_request_buffer(1)] h(2) ack(2) by (simp add: spawn_ack_task_def)
  moreover have "inv_receive env t' start' wks' = (Ready (Inr None), t', [], NotGiven)"
    using ack(3) by (simp add: inv_receive_def)
  ultimately show ?thesis
    using create_ack_headers [OF ack(1) b(1,2) rb] same_invite_key [OF b(3)] h(2) ack(2) by auto
qed

section \<open>Examples\<close>

definition sample_outgoing :: "SipMethod \<Rightarrow> OutgoingRequest" where
  "sample_outgoing m =
     \<lparr>oq_line = \<lparr>rl_method = m, rl_uri = na_uri (ft_uri sample_from)\<rparr>, oq_headers = tl (sample_headers []), oq_body = [],
      oq_parts = \<lparr>op_transport = udp, op_destination = SockV4 2 9, op_buffer = []\<rparr>\<rparr>"

definition sample_env :: Env where "sample_env = \<lparr>env_ip6 = decimal_ip6, user_agent = None\<rparr>"

definition doubling_wakes :: "'m Wake list" where
  "doubling_wakes = map (wake_at TimerElapsed) [500, 1500, 3500, 7500, 15500, 31500] @ map (wake_at DeadlineElapsed) [32000, 32000]"

definition steady_wakes :: "'m Wake list" where
  "steady_wakes = map (wake_at TimerElapsed) [4000, 8000, 12000, 16000, 20000, 24000, 28000] @ map (wake_at DeadlineElapsed) [32000, 32000]"

lemma sample_start:
  "\<exists>reg req tx'. start_request sample_env no_transactions (ascii ''x'') m None (sample_outgoing m) = Some (reg, req, tx')
     \<and> op_transport (oq_parts req) = udp"
  by (auto simp: start_request_def registration_create_def no_transactions_def unbounded_channel_def register_transaction_def
      Let_def sample_outgoing_def)

theorem client_inv_gives_up_witness:
  "\<exists>t tx' t' out given. client_inv_send sample_env no_transactions (ascii ''x'') None (sample_outgoing INVITE) True 0 = Some (Inr t, tx')
     \<and> inv_receive sample_env t 0 doubling_wakes = (Ready (Inl RequestTimedOut), t', out, given) \<and> length out \<le> 7"
proof -
  from sample_start [of INVITE] obtain reg req tx' where st:
    "start_request sample_env no_transactions (ascii ''x'') INVITE None (sample_outgoing INVITE) = Some (reg, req, tx')"
    "op_transport (oq_parts req) = udp" by blast
  define t where "t = \<lparr>ci_registration = Some reg, ci_request = req, ci_timeout = T1 * 64, ci_state = InvInit\<rparr>"
  have send: "client_inv_send sample_env no_transactions (ascii ''x'') None (sample_outgoing INVITE) True 0 = Some (Inr t, tx')"
    using st by (simp add: client_inv_send_def t_def sample_outgoing_def)
  obtain r t' out given where run: "inv_receive sample_env t 0 doubling_wakes = (r, t', out, given)" by (metis prod_cases4)
  moreover have "r \<noteq> NotPossible"
    using run st by (auto simp: inv_receive_def t_def udp_def doubling_wakes_def wake_at_def wait_ok_def T1_def from_millis_def Let_def split: prod.splits)
  moreover have "silence (doubling_wakes :: TsxResponse Wake list)" "7 < length (doubling_wakes :: TsxResponse Wake list)"
    by (simp_all add: doubling_wakes_def wake_at_def)
  ultimately have "r = Ready (Inl RequestTimedOut) \<and> length out \<le> 7"
    using client_inv_gives_up [OF send] by (simp add: sample_outgoing_def udp_def)
  then show ?thesis using send run by blast
qed

theorem client_gives_up_witness:
  "\<exists>t tx' t' out given. client_send sample_env no_transactions (ascii ''x'') None (sample_outgoing BYE) True 0 = Some (Inr t, tx')
     \<and> client_receive sample_env t 0 steady_wakes = Some (Ready (Inl RequestTimedOut), t', out, given) \<and> length out \<le> 8"
proof -
  from sample_start [of BYE] obtain reg req tx' where st:
    "start_request sample_env no_transactions (ascii ''x'') BYE None (sample_outgoing BYE) = Some (reg, req, tx')"
    "op_transport (oq_parts req) = udp" by blast
  define t where "t = \<lparr>cl_registration = Some reg, cl_request = req, cl_timeout = T1 * 64, cl_state = ClientInit\<rparr>"
  have send: "client_send sample_env no_transactions (ascii ''x'') None (sample_outgoing BYE) True 0 = Some (Inr t, tx')"
    using st by (simp add: client_send_def t_def sample_outgoing_def)
  obtain r t' out given where run: "client_init_loop sample_env t 0 steady_wakes = (r, t', out, given)" by (metis prod_cases4)
  have rcv: "client_receive sample_env t 0 steady_wakes = Some (r, t', out, given)"
    using run st by (simp add: client_receive_def t_def udp_def)
  moreover have "r \<noteq> NotPossible"
    using run st by (auto simp: t_def udp_def steady_wakes_def wake_at_def wait_ok_def T1_def T2_def from_millis_def Let_def split: prod.splits)
  moreover have "silence (steady_wakes :: TsxResponse Wake list)" "8 < length (steady_wakes :: TsxResponse Wake list)"
    by (simp_all add: steady_wakes_def wake_at_def)
  ultimately have "r = Ready (Inl RequestTimedOut) \<and> length out \<le> 8"
    using client_gives_up [OF send] by (simp add: sample_outgoing_def udp_def)
  then show ?thesis using send rcv by blast
qed

definition sample_invite_headers :: Headers where
  "sample_invite_headers =
     [\<lparr>en_name = VIA, en_values = One (ascii ''SIP/2.0/UDP h;branch=z9hG4bKx1'')\<rparr>,
      \<lparr>en_name = FROM, en_values = One (ascii ''<sip:a>;tag=1'')\<rparr>, \<lparr>en_name = TO, en_values = One (ascii ''<sip:b>;tag=2'')\<rparr>,
      \<lparr>en_name = CALL_ID, en_values = One (ascii ''7'')\<rparr>, \<lparr>en_name = CSEQ, en_values = One (ascii ''1 INVITE'')\<rparr>]"

definition sample_inv_tsx :: ClientInvTsx where
  "sample_inv_tsx =
     \<lparr>ci_registration = Some \<lparr>reg_key = sample_key, reg_channel = 0\<rparr>,
      ci_request = (sample_outgoing INVITE)\<lparr>oq_headers := sample_invite_headers\<rparr>, ci_timeout = T1 * 64, ci_state = InvProceeding\<rparr>"

definition sample_busy :: TsxResponse where
  "sample_busy = \<lparr>tr_tp_info = rm_tp_info (sample_message []), tr_line = \<lparr>sl_code = 486, sl_reason = None\<rparr>,
     tr_base = ir_base (sample_request sample_via), tr_headers = sample_invite_headers, tr_body = []\<rparr>"

lemma sample_invite_base:
  "\<exists>b. extract_from decimal_ip6 sample_invite_headers = Inr b \<and> bh_via b \<noteq> [] \<and> cseq_method (bh_cseq b) = INVITE"
proof -
  have "map_sum (\<lambda>_. ()) (\<lambda>b. (bh_via b \<noteq> [], cseq_method (bh_cseq b))) (extract_from decimal_ip6 sample_invite_headers) = Inr (True, INVITE)"
    by code_simp
  then show ?thesis by (cases "extract_from decimal_ip6 sample_invite_headers") auto
qed

lemma sample_ack_exists: "\<exists>ack. create_ack (ci_request sample_inv_tsx) sample_busy = Inr ack"
proof -
  have "map_sum (\<lambda>_. ()) (\<lambda>ack. rl_method (oq_line ack))
      (create_ack ((sample_outgoing INVITE)\<lparr>oq_headers := sample_invite_headers\<rparr>) sample_busy) = Inr ACK"
    by code_simp
  then show ?thesis by (cases "create_ack (ci_request sample_inv_tsx) sample_busy") (auto simp: sample_inv_tsx_def)
qed

theorem failure_is_acked_witness:
  "\<exists>t' out given ack. inv_receive sample_env sample_inv_tsx 0 [wake_at (Got sample_busy) 1] = (Ready (Inr (Some sample_busy)), t', out, given)
     \<and> last out = transmit_request (send_outgoing_request sample_env ack) \<and> rl_method (oq_line ack) = ACK
     \<and> inv_receive sample_env t' 2 [] = (Ready (Inr None), t', [], NotGiven)"
proof -
  let ?w = "wake_at (Got sample_busy) 1 :: TsxResponse Wake"
  have fail: "response_kind sample_busy = RequestFailure" by code_simp
  from sample_ack_exists obtain ack where ack: "create_ack (ci_request sample_inv_tsx) sample_busy = Inr ack" by blast
  let ?t = "sample_inv_tsx\<lparr>ci_registration := None, ci_state := InvCompleted\<rparr>"
  have run: "inv_receive sample_env sample_inv_tsx 0 [?w] = (Ready (Inr (Some sample_busy)), ?t,
      [transmit_request (send_outgoing_request sample_env ack)], GivenToTask \<lparr>reg_key = sample_key, reg_channel = 0\<rparr>)"
    using ack fail
    by (simp add: inv_receive_def sample_inv_tsx_def wait_ok_def wake_at_def from_millis_def inv_handle_msg_def Let_def
        sample_outgoing_def udp_def)
  have req: "oq_headers (ci_request ?t) = sample_invite_headers" "tr_headers sample_busy = sample_invite_headers"
    by (simp_all add: sample_inv_tsx_def sample_busy_def)
  from sample_invite_base obtain b where b: "extract_from decimal_ip6 sample_invite_headers = Inr b" "bh_via b \<noteq> []"
    "cseq_method (bh_cseq b) = INVITE" by blast
  have st: "ci_state sample_inv_tsx \<in> {InvInit, InvProceeding}" by (simp add: sample_inv_tsx_def)
  have fl: "response_kind sample_busy \<notin> {Provisional, CodeSuccess}" using fail by simp
  have b1: "extract_from decimal_ip6 (oq_headers (ci_request ?t)) = Inr b" unfolding req by (rule b)
  have b2: "extract_from decimal_ip6 (tr_headers sample_busy) = Inr b" unfolding req by (rule b)
  from failure_is_acked [OF run st fl b1 b(2,3) b2, of 2 "[]" 0 "[]"] obtain ack' where
    a: "last [transmit_request (send_outgoing_request sample_env ack)] = transmit_request (send_outgoing_request sample_env ack')"
    "oq_line ack' = \<lparr>rl_method = ACK, rl_uri = rl_uri (oq_line (ci_request ?t))\<rparr>"
    "inv_receive sample_env ?t 2 [] = (Ready (Inr None), ?t, [], NotGiven)"
    by (elim exE conjE) (rule that)
  have m: "rl_method (oq_line ack') = ACK" unfolding a(2) by simp
  show ?thesis by (intro exI conjI, rule run, rule a, rule m, rule a)
qed

end
