(* ===== verification/Sip_Server_Tsx.thy ===== *)
theory Sip_Server_Tsx
  imports Sip_Tsx_Base
begin

text \<open>
  The server transactions (\<^verbatim>\<open>sip/sip-core/src/transaction/server.rs\<close> and
  \<^verbatim>\<open>server_inv.rs\<close>). \<open>sent\<close> and \<open>now\<close> are the result and the end of the first transmission
  of a response; what follows is driven by wakes as in the client transactions. When
  \<^verbatim>\<open>respond_failure\<close> ends, its registration is dropped, which is a step of its own in
  \<^verbatim>\<open>Sip_Dispatch\<close>. Both instants that \<^verbatim>\<open>respond_failure\<close> reads after sending are \<open>now\<close>.
\<close>

section \<open>Server transaction\<close>

record ServerTsx =
  sv_registration :: TsxRegistration

definition server_new :: "IncomingRequest \<Rightarrow> (ServerTsx \<times> IncomingRequest) panics" where
  "server_new request =
     (if rl_method (ir_line request) \<in> {INVITE, ACK} then None
      else map_option (\<lambda>(reg, request). (\<lparr>sv_registration = reg\<rparr>, request)) (take_tsx_registration request))"

abbreviation out_kind :: "OutgoingResponse \<Rightarrow> CodeKind" where
  "out_kind r \<equiv> code_kind (sl_code (or_line r))"

text \<open>The same for both transactions; the caller keeps the response.\<close>

definition respond_provisional ::
    "OutgoingResponse \<Rightarrow> bool \<Rightarrow> ((CoreError, unit) result \<times> OutgoingResponse \<times> transmission list) panics" where
  "respond_provisional response sent =
     (if out_kind response \<noteq> Provisional then None
      else let response = send_outgoing_response response in
           Some (if sent then Inr () else Inl IoError, response, [transmit_response response]))"

text \<open>The task that answers retransmitted requests until the transaction is abandoned.\<close>

fun answer_task :: "OutgoingResponse \<Rightarrow> instant \<Rightarrow> instant \<Rightarrow> TsxMessage Wake list \<Rightarrow> unit Async \<times> transmission list" where
  "answer_task response abandon start [] = (Pending, [])"
| "answer_task response abandon start (w # wks) =
     (if \<not> wait_ok None abandon start w then (NotPossible, []) else
      case wk_outcome w of
        Got msg \<Rightarrow>
          if is_request (tm_line msg)
          then let response = send_outgoing_response response in
               (case answer_task response abandon (wk_done w) wks of (r, out) \<Rightarrow> (r, transmit_response response # out))
          else answer_task response abandon (wk_done w) wks
      | _ \<Rightarrow> (Ready (), []))"

text \<open>The result, what was transmitted, and the task that is left, if any.\<close>

datatype Answering = NoTask | AnswerTask ServerTsx OutgoingResponse instant

definition server_respond ::
    "Transactions \<Rightarrow> ServerTsx \<Rightarrow> OutgoingResponse \<Rightarrow> bool \<Rightarrow> instant
     \<Rightarrow> ((CoreError, unit) result \<times> transmission list \<times> Answering \<times> Transactions) panics" where
  "server_respond tx self response sent now =
     (if out_kind response = Provisional then None
      else let response = send_outgoing_response response; out = [transmit_response response] in
        Some (if \<not> sent then (Inl IoError, out, NoTask, registration_drop tx (sv_registration self))
          else if tp_reliable (op_transport (or_parts response))
          then (Inr (), out, NoTask, registration_drop tx (sv_registration self))
          else (Inr (), out, AnswerTask self response (now + T1 * 64), tx)))"

section \<open>Server INVITE transaction\<close>

record ServerInvTsx =
  si_registration :: TsxRegistration

definition server_inv_new :: "IncomingRequest \<Rightarrow> (ServerInvTsx \<times> IncomingRequest) panics" where
  "server_inv_new request =
     (if rl_method (ir_line request) \<noteq> INVITE then None
      else map_option (\<lambda>(reg, request). (\<lparr>si_registration = reg\<rparr>, request)) (take_tsx_registration request))"

record Accepted =
  ac_registration :: TsxRegistration
  ac_response :: OutgoingResponse

definition respond_success ::
    "Transactions \<Rightarrow> ServerInvTsx \<Rightarrow> OutgoingResponse \<Rightarrow> bool
     \<Rightarrow> ((CoreError, Accepted) result \<times> transmission list \<times> Transactions) panics" where
  "respond_success tx self response sent =
     (if out_kind response \<noteq> CodeSuccess then None
      else map_option (\<lambda>tx.
        let response = send_outgoing_response response; out = [transmit_response response] in
        if \<not> sent then (Inl IoError, out, registration_drop tx (si_registration self))
        else (Inr \<lparr>ac_registration = si_registration self, ac_response = response\<rparr>, out, tx))
      (add_filter tx (si_registration self) ack_filter))"

definition accepted_retransmit :: "Accepted \<Rightarrow> bool \<Rightarrow> (CoreError, unit) result \<times> Accepted \<times> transmission list" where
  "accepted_retransmit self sent =
     (let response = send_outgoing_response (ac_response self) in
      (if sent then Inr () else Inl IoError, self\<lparr>ac_response := response\<rparr>, [transmit_response response]))"

definition slower :: "duration \<Rightarrow> duration" where
  "slower delta = min (delta * 2) T2"

fun failure_loop ::
    "OutgoingResponse \<Rightarrow> instant \<Rightarrow> duration \<Rightarrow> instant \<Rightarrow> instant \<Rightarrow> TsxMessage Wake list
     \<Rightarrow> (CoreError, unit) result Async \<times> transmission list" where
  "failure_loop response abandon delta retransmit start [] = (Pending, [])"
| "failure_loop response abandon delta retransmit start (w # wks) =
     (if \<not> wait_ok None retransmit start w then (NotPossible, []) else
      case wk_outcome w of
        Got msg \<Rightarrow>
          if request_method (tm_line msg) = Some INVITE then
            let response = send_outgoing_response response; tr = transmit_response response in
            if \<not> wk_sent w then (Ready (Inl IoError), [tr])
            else (case failure_loop response abandon delta retransmit (wk_done w) wks of (r, out) \<Rightarrow> (r, tr # out))
          else if request_method (tm_line msg) = Some ACK then (Ready (Inr ()), [])
          else failure_loop response abandon delta retransmit (wk_done w) wks
      | _ \<Rightarrow>
          if abandon < wk_at w then (Ready (Inl RequestTimedOut), [])
          else let response = send_outgoing_response response; tr = transmit_response response in
            if \<not> wk_sent w then (Ready (Inl IoError), [tr])
            else (case failure_loop response abandon (slower delta) (wk_done w + slower delta) (wk_done w) wks of
                (r, out) \<Rightarrow> (r, tr # out)))"

definition respond_failure ::
    "OutgoingResponse \<Rightarrow> bool \<Rightarrow> instant \<Rightarrow> TsxMessage Wake list \<Rightarrow> ((CoreError, unit) result Async \<times> transmission list) panics" where
  "respond_failure response sent now wks =
     (if out_kind response \<in> {Provisional, CodeSuccess} then None
      else let response = send_outgoing_response response; tr = transmit_response response in
        Some (if \<not> sent then (Ready (Inl IoError), [tr])
          else (case failure_loop response (now + T1 * 64) T1 (now + T1) now wks of (r, out) \<Rightarrow> (r, tr # out))))"

section \<open>Retransmitted responses\<close>

lemma transmit_response_twice:
  "send_outgoing_response (send_outgoing_response m) = send_outgoing_response m"
  by (rule send_outgoing_response_same [OF send_outgoing_response_buffer])

text \<open>The requests that arrive before the transaction is abandoned.\<close>

abbreviation requests_got :: "TsxMessage Wake list \<Rightarrow> nat" where
  "requests_got wks \<equiv> length [w \<leftarrow> takeWhile (\<lambda>w. \<exists>m. wk_outcome w = Got m) wks. \<exists>m. wk_outcome w = Got m \<and> is_request (tm_line m)]"

lemma answer_task_out:
  "answer_task (send_outgoing_response response) abandon start wks = (r, out) \<Longrightarrow> r \<noteq> NotPossible \<Longrightarrow>
     out = replicate (requests_got wks) (transmit_response (send_outgoing_response response))"
proof (induction wks arbitrary: start r out)
  case (Cons w wks)
  have ok: "wait_ok None abandon start w" using Cons.prems by (auto split: if_splits)
  show ?case
  proof (cases "wk_outcome w")
    case (Got msg)
    obtain r' out' where l: "answer_task (send_outgoing_response response) abandon (wk_done w) wks = (r', out')" by fastforce
    then have "r' = r" using Cons.prems Got ok by (auto simp: transmit_response_twice Let_def split: if_splits)
    then show ?thesis
      using Cons.IH [OF l] Cons.prems Got ok l by (auto simp: transmit_response_twice Let_def split: if_splits)
  qed (use Cons.prems ok in \<open>auto simp: wait_ok_def\<close>)
qed auto

abbreviation deadlines :: "'m Wake list \<Rightarrow> nat" where
  "deadlines wks \<equiv> length [w \<leftarrow> wks. \<not> (\<exists>m. wk_outcome w = Got m)]"

abbreviation invites :: "TsxMessage Wake list \<Rightarrow> nat" where
  "invites wks \<equiv> length [w \<leftarrow> wks. \<exists>m. wk_outcome w = Got m \<and> request_method (tm_line m) = Some INVITE]"

definition no_ack :: "TsxMessage Wake \<Rightarrow> bool" where
  "no_ack w \<longleftrightarrow> wk_sent w \<and> (case wk_outcome w of Got m \<Rightarrow> request_method (tm_line m) \<noteq> Some ACK | _ \<Rightarrow> True)"

text \<open>
  The timer backs off to \<open>T2\<close>, so as many timers as their delays fill the time until the
  transaction is abandoned end the loop.
\<close>

lemma failure_loop_ends:
  assumes "failure_loop (send_outgoing_response response) abandon delta retransmit start wks = (r, out)" "r \<noteq> NotPossible"
    and "list_all no_ack wks" "k < deadlines wks" "abandon < retransmit + total_delay slower (slower delta) k"
  shows "r = Ready (Inl RequestTimedOut) \<and> length out \<le> k + invites wks
    \<and> set out \<subseteq> {transmit_response (send_outgoing_response response)}"
  using assms
proof (induction wks arbitrary: delta retransmit start r out k)
  case (Cons w wks)
  let ?m = "send_outgoing_response response"
  have ok: "wait_ok None retransmit start w" using Cons.prems by (auto split: if_splits)
  have w': "no_ack w" "list_all no_ack wks" using Cons.prems(3) by simp_all
  note w = w'(1) [unfolded no_ack_def, THEN conjunct1] w'
  show ?case
  proof (cases "wk_outcome w")
    case (Got msg)
    obtain r' out' where l: "failure_loop ?m abandon delta retransmit (wk_done w) wks = (r', out')" by fastforce
    moreover have "r' = r" using Cons.prems(1) Got ok l w
      by (auto simp: transmit_response_twice Let_def no_ack_def split: if_splits)
    ultimately have "r = Ready (Inl RequestTimedOut) \<and> length out' \<le> k + invites wks \<and> set out' \<subseteq> {transmit_response ?m}"
      using Cons.IH [OF l] Cons.prems(2,4,5) Got w(3) by simp
    then show ?thesis
      using Cons.prems(1) Got ok l w by (auto simp: transmit_response_twice Let_def no_ack_def split: if_splits)
  next
    case DeadlineElapsed
    show ?thesis
    proof (cases "abandon < wk_at w")
      case False
      then have "retransmit \<le> abandon" using ok DeadlineElapsed by (auto simp: wait_ok_def)
      then obtain k' where k: "k = Suc k'" using Cons.prems(5) by (cases k) auto
      obtain r' out' where l: "failure_loop ?m abandon (slower delta) (wk_done w + slower delta) (wk_done w) wks = (r', out')"
        by fastforce
      moreover have "r' = r" "out = transmit_response ?m # out'"
        using Cons.prems(1) DeadlineElapsed False ok l w by (auto simp: transmit_response_twice Let_def)
      moreover have "abandon < wk_done w + slower delta + total_delay slower (slower (slower delta)) k'"
        using Cons.prems(5) ok DeadlineElapsed k by (auto simp: wait_ok_def)
      ultimately show ?thesis
        using Cons.IH [OF l _ w(3), of k'] Cons.prems(2,4) DeadlineElapsed k by auto
    qed (use Cons.prems DeadlineElapsed ok in auto)
  qed (use ok in \<open>simp add: wait_ok_def\<close>)
qed simp

text \<open>
  C10: A failure response to an INVITE that is not acknowledged comes to an end: after eleven
  elapsed timers at the latest \<^verbatim>\<open>respond_failure\<close> returns \<^verbatim>\<open>RequestTimedOut\<close>. Until then the
  timers have retransmitted the response at most ten times; apart from that it was sent once
  at first and once for every retransmission of the INVITE, always the same bytes to the
  same destination.\<close>

theorem respond_failure_gives_up:
  assumes "respond_failure response True now wks = Some (r, out)" "r \<noteq> NotPossible"
    and "list_all no_ack wks" "11 \<le> deadlines wks"
  shows "r = Ready (Inl RequestTimedOut) \<and> length out \<le> 11 + invites wks
    \<and> set out \<subseteq> {transmit_response (send_outgoing_response response)}"
proof -
  obtain out' where l: "failure_loop (send_outgoing_response response) (now + T1 * 64) T1 (now + T1) now wks = (r, out')"
    and out: "out = transmit_response (send_outgoing_response response) # out'"
    using assms(1) by (auto simp: respond_failure_def Let_def split: if_splits prod.splits)
  have "now + T1 * 64 < now + T1 + total_delay slower (slower T1) 10"
    by (simp add: T1_def T2_def from_millis_def slower_def)
  from failure_loop_ends [OF l assms(2,3) _ this] assms(4) out show ?thesis by auto
qed

text \<open>The ACK completes the transaction, whatever arrived before it.\<close>

lemma failure_loop_append:
  "failure_loop response abandon delta retransmit start wks = (Pending, out) \<Longrightarrow>
   failure_loop response abandon delta retransmit start (wks @ w # rest) = (r, out') \<Longrightarrow> r \<noteq> NotPossible \<Longrightarrow>
   wk_outcome w = Got msg \<Longrightarrow> request_method (tm_line msg) = Some ACK \<Longrightarrow> r = Ready (Inr ()) \<and> out' = out"
proof (induction wks arbitrary: response delta retransmit start out out')
  case Nil
  then show ?case by (auto split: if_splits)
next
  case (Cons v wks)
  then show ?case by (auto simp: Let_def split: if_splits Wait.splits prod.splits)
qed

text \<open>
  The ACK completes the transaction: whatever arrived while \<^verbatim>\<open>respond_failure\<close> was
  waiting, it returns successfully when it receives an ACK and transmits nothing more.\<close>

theorem respond_failure_acked:
  assumes "respond_failure response True now wks = Some (Pending, out)"
    and "respond_failure response True now (wks @ w # rest) = Some (r, out')" "r \<noteq> NotPossible"
    and "wk_outcome w = Got msg" "request_method (tm_line msg) = Some ACK"
  shows "r = Ready (Inr ()) \<and> out' = out"
proof -
  let ?m = "send_outgoing_response response"
  obtain o1 o2 where "failure_loop ?m (now + T1 * 64) T1 (now + T1) now wks = (Pending, o1)" "out = transmit_response ?m # o1"
    "failure_loop ?m (now + T1 * 64) T1 (now + T1) now (wks @ w # rest) = (r, o2)" "out' = transmit_response ?m # o2"
    using assms(1,2) by (auto simp: respond_failure_def Let_def split: if_splits prod.splits)
  then show ?thesis using failure_loop_append assms(3-5) by metis
qed

text \<open>
  A final response to a request other than INVITE is transmitted once, and over an
  unreliable transport once more for every request that arrives within 64 T1; over a reliable
  transport the transaction ends at once and its registration is dropped.\<close>

theorem server_respond_answers:
  assumes "out_kind response \<noteq> Provisional"
  shows "\<exists>out task tx'. server_respond tx self response True now = Some (Inr (), out, task, tx')
    \<and> out = [transmit_response (send_outgoing_response response)]
    \<and> (case task of
         NoTask \<Rightarrow> tp_reliable (op_transport (or_parts response)) \<and> tx' = registration_drop tx (sv_registration self)
       | AnswerTask self' response' abandon \<Rightarrow> \<not> tp_reliable (op_transport (or_parts response))
           \<and> self' = self \<and> tx' = tx \<and> abandon = now + 64 * T1
           \<and> (\<forall>start wks r out'. answer_task response' abandon start wks = (r, out') \<and> r \<noteq> NotPossible
                \<longrightarrow> out' = replicate (requests_got wks) (hd out)))"
proof -
  have "op_transport (or_parts (send_outgoing_response response)) = op_transport (or_parts response)"
    by (simp add: send_outgoing_response_def Let_def)
  then show ?thesis using assms answer_task_out by (auto simp: server_respond_def Let_def mult.commute)
qed

section \<open>Examples\<close>

definition sample_response :: "StatusCode \<Rightarrow> OutgoingResponse" where
  "sample_response code =
     \<lparr>or_line = \<lparr>sl_code = code, sl_reason = None\<rparr>, or_headers = [], or_body = [],
      or_parts = \<lparr>op_transport = udp, op_destination = SockV4 2 9, op_buffer = []\<rparr>\<rparr>"

definition sample_tsx_request :: "SipMethod \<Rightarrow> TsxMessage" where
  "sample_tsx_request m =
     \<lparr>tm_tp_info = rm_tp_info (sample_message []), tm_line = RequestMsg \<lparr>rl_method = m, rl_uri = na_uri (ft_uri sample_from)\<rparr>,
      tm_base = ir_base (sample_request sample_via), tm_headers = [], tm_body = []\<rparr>"

definition failing_wakes :: "TsxMessage Wake list" where
  "failing_wakes = map (wake_at DeadlineElapsed) [500, 1500, 3500, 7500, 11500, 15500, 19500, 23500, 27500, 31500, 35500]"

lemma sample_busy_kind: "out_kind (sample_response 486) = RequestFailure"
  by (simp add: sample_response_def code_kind_def)

theorem respond_failure_gives_up_witness:
  "\<exists>out. respond_failure (sample_response 486) True 0 failing_wakes = Some (Ready (Inl RequestTimedOut), out) \<and> length out \<le> 11"
proof -
  obtain r out where run: "respond_failure (sample_response 486) True 0 failing_wakes = Some (r, out)"
    using sample_busy_kind by (cases "respond_failure (sample_response 486) True 0 failing_wakes") (auto simp: respond_failure_def Let_def)
  moreover have "r \<noteq> NotPossible"
    using run by (auto simp: respond_failure_def sample_busy_kind failing_wakes_def wake_at_def wait_ok_def T1_def T2_def slower_def
        from_millis_def Let_def split: prod.splits)
  moreover have "list_all no_ack failing_wakes" "deadlines failing_wakes = 11" "invites failing_wakes = 0"
    by (simp_all add: failing_wakes_def wake_at_def no_ack_def)
  ultimately show ?thesis using respond_failure_gives_up [of "sample_response 486" 0 failing_wakes r out] by simp
qed

theorem respond_failure_acked_witness:
  "\<exists>out. respond_failure (sample_response 486) True 0 [wake_at DeadlineElapsed 500, wake_at (Got (sample_tsx_request ACK)) 700]
     = Some (Ready (Inr ()), out)"
proof -
  let ?pre = "[wake_at DeadlineElapsed 500] :: TsxMessage Wake list" and ?w = "wake_at (Got (sample_tsx_request ACK)) 700"
  obtain out where pre: "respond_failure (sample_response 486) True 0 ?pre = Some (Pending, out)"
    by (auto simp: respond_failure_def sample_busy_kind wake_at_def wait_ok_def T1_def from_millis_def Let_def)
  obtain r out' where run: "respond_failure (sample_response 486) True 0 (?pre @ ?w # []) = Some (r, out')"
    using sample_busy_kind
    by (cases "respond_failure (sample_response 486) True 0 (?pre @ ?w # [])") (auto simp: respond_failure_def Let_def)
  have "r \<noteq> NotPossible"
    using run by (auto simp: respond_failure_def sample_busy_kind wake_at_def wait_ok_def T1_def from_millis_def Let_def
        slower_def sample_tsx_request_def split: prod.splits)
  moreover have "wk_outcome ?w = Got (sample_tsx_request ACK)" "request_method (tm_line (sample_tsx_request ACK)) = Some ACK"
    by (simp_all add: wake_at_def sample_tsx_request_def)
  ultimately show ?thesis using respond_failure_acked [OF pre run] run by simp
qed

theorem server_respond_answers_witness:
  "\<exists>out task tx'. server_respond no_transactions \<lparr>sv_registration = \<lparr>reg_key = sample_key, reg_channel = 0\<rparr>\<rparr> (sample_response 486) True 0
     = Some (Inr (), out, task, tx') \<and> out = [transmit_response (send_outgoing_response (sample_response 486))]"
proof -
  have "out_kind (sample_response 486) \<noteq> Provisional" by (simp add: sample_busy_kind)
  from server_respond_answers [OF this, of no_transactions "\<lparr>sv_registration = \<lparr>reg_key = sample_key, reg_channel = 0\<rparr>\<rparr>" 0]
  show ?thesis by blast
qed

end
