(* ===== verification/Sip_Message.thy ===== *)
theory Sip_Message
  imports Sip_Tsx_Base
begin

text \<open>
  The text form of a SIP message (\<^verbatim>\<open>sip/sip-types/src/msg.rs\<close>): the pull parser that finds
  the lines of the message head, the request and status lines, and header lines with the
  table of known header names (\<^verbatim>\<open>header/name.rs\<close>).
\<close>

section \<open>Header names\<close>

text \<open>The names the library defines, in the order of the table.\<close>

definition NAMES :: "Name list" where
  "NAMES = [
     Name (ascii ''Accept'') (Some [ascii ''accept'']),
     Name (ascii ''Accept-Encoding'') (Some [ascii ''accept-encoding'']),
     Name (ascii ''Accept-Language'') (Some [ascii ''accept-language'']),
     Name (ascii ''Alert-Info'') (Some [ascii ''alert-info'']),
     Name (ascii ''Allow'') (Some [ascii ''allow'']),
     Name (ascii ''Allow-Events'') (Some [ascii ''allow-events'', ascii ''u'']),
     Name (ascii ''Authentication-Info'') (Some [ascii ''authentication-info'']),
     Name (ascii ''Authorization'') (Some [ascii ''authorization'']),
     Name (ascii ''Call-ID'') (Some [ascii ''call-id'', ascii ''i'']),
     Name (ascii ''Call-Info'') (Some [ascii ''call-info'']),
     Name (ascii ''Contact'') (Some [ascii ''contact'', ascii ''m'']),
     Name (ascii ''Content-Disposition'') (Some [ascii ''content-disposition'']),
     Name (ascii ''Content-Encoding'') (Some [ascii ''content-encoding'', ascii ''e'']),
     Name (ascii ''Content-Language'') (Some [ascii ''content-language'']),
     Name (ascii ''Content-Length'') (Some [ascii ''content-length'', ascii ''l'']),
     Name (ascii ''Content-Type'') (Some [ascii ''content-type'', ascii ''c'']),
     Name (ascii ''CSeq'') (Some [ascii ''cseq'']),
     Name (ascii ''Date'') (Some [ascii ''date'']),
     Name (ascii ''Error-Info'') (Some [ascii ''error-info'']),
     Name (ascii ''Event'') (Some [ascii ''event'', ascii ''o'']),
     Name (ascii ''Expires'') (Some [ascii ''expires'']),
     Name (ascii ''From'') (Some [ascii ''from'', ascii ''f'']),
     Name (ascii ''In-Reply-To'') (Some [ascii ''in-reply-to'']),
     Name (ascii ''Max-Forwards'') (Some [ascii ''max-forwards'']),
     Name (ascii ''Min-Expires'') (Some [ascii ''min-expires'']),
     Name (ascii ''Min-SE'') (Some [ascii ''min-se'']),
     Name (ascii ''MIME-Version'') (Some [ascii ''mime-version'']),
     Name (ascii ''Organization'') (Some [ascii ''organization'']),
     Name (ascii ''P-Associated-URI'') (Some [ascii ''p-associated-uri'']),
     Name (ascii ''P-Called-Party-ID'') (Some [ascii ''p-called-party-id'']),
     Name (ascii ''P-Visited-Network-ID'') (Some [ascii ''p-visited-network-id'']),
     Name (ascii ''P-Access-Network-Info'') (Some [ascii ''p-access-network-info'']),
     Name (ascii ''P-Charging-Function-Addresses'') (Some [ascii ''p-charging-function-addresses'']),
     Name (ascii ''P-Charging-Vector'') (Some [ascii ''p-charging-vector'']),
     Name (ascii ''Priority'') (Some [ascii ''priority'']),
     Name (ascii ''Proxy-Authenticate'') (Some [ascii ''proxy-authenticate'']),
     Name (ascii ''Proxy-Authorization'') (Some [ascii ''proxy-authorization'']),
     Name (ascii ''Proxy-Require'') (Some [ascii ''proxy-require'']),
     Name (ascii ''RAck'') (Some [ascii ''rack'']),
     Name (ascii ''Record-Route'') (Some [ascii ''record-route'']),
     Name (ascii ''Replaces'') (Some [ascii ''replaces'']),
     Name (ascii ''Reply-To'') (Some [ascii ''reply-to'']),
     Name (ascii ''Require'') (Some [ascii ''require'']),
     Name (ascii ''Retry-After'') (Some [ascii ''retry-after'']),
     Name (ascii ''Route'') (Some [ascii ''route'']),
     Name (ascii ''RSeq'') (Some [ascii ''rseq'']),
     Name (ascii ''Security-Client'') (Some [ascii ''security-client'']),
     Name (ascii ''Security-Server'') (Some [ascii ''security-server'']),
     Name (ascii ''Security-Verify'') (Some [ascii ''security-verify'']),
     Name (ascii ''Server'') (Some [ascii ''server'']),
     Name (ascii ''Session-Expires'') (Some [ascii ''session-expires'', ascii ''x'']),
     Name (ascii ''Subject'') (Some [ascii ''subject'', ascii ''s'']),
     Name (ascii ''Subscription-State'') (Some [ascii ''subscription-state'']),
     Name (ascii ''Supported'') (Some [ascii ''supported'', ascii ''k'']),
     Name (ascii ''Timestamp'') (Some [ascii ''timestamp'']),
     Name (ascii ''To'') (Some [ascii ''to'', ascii ''t'']),
     Name (ascii ''Unsupported'') (Some [ascii ''unsupported'']),
     Name (ascii ''User-Agent'') (Some [ascii ''user-agent'']),
     Name (ascii ''Via'') (Some [ascii ''via'', ascii ''v'']),
     Name (ascii ''Warning'') (Some [ascii ''warning'']),
     Name (ascii ''WWW-Authenticate'') (Some [ascii ''www-authenticate''])]"

text \<open>The table with its strings spelled out, which is what the examples evaluate.\<close>

lemma NAMES_bytes [code]:
  "NAMES = [
     Name [65, 99, 99, 101, 112, 116] (Some [[97, 99, 99, 101, 112, 116]]),
     Name [65, 99, 99, 101, 112, 116, 45, 69, 110, 99, 111, 100, 105, 110, 103] (Some [[97, 99, 99, 101, 112, 116, 45, 101, 110, 99, 111, 100, 105, 110, 103]]),
     Name [65, 99, 99, 101, 112, 116, 45, 76, 97, 110, 103, 117, 97, 103, 101] (Some [[97, 99, 99, 101, 112, 116, 45, 108, 97, 110, 103, 117, 97, 103, 101]]),
     Name [65, 108, 101, 114, 116, 45, 73, 110, 102, 111] (Some [[97, 108, 101, 114, 116, 45, 105, 110, 102, 111]]),
     Name [65, 108, 108, 111, 119] (Some [[97, 108, 108, 111, 119]]),
     Name [65, 108, 108, 111, 119, 45, 69, 118, 101, 110, 116, 115] (Some [[97, 108, 108, 111, 119, 45, 101, 118, 101, 110, 116, 115], [117]]),
     Name [65, 117, 116, 104, 101, 110, 116, 105, 99, 97, 116, 105, 111, 110, 45, 73, 110, 102, 111] (Some [[97, 117, 116, 104, 101, 110, 116, 105, 99, 97, 116, 105, 111, 110, 45, 105, 110, 102, 111]]),
     Name [65, 117, 116, 104, 111, 114, 105, 122, 97, 116, 105, 111, 110] (Some [[97, 117, 116, 104, 111, 114, 105, 122, 97, 116, 105, 111, 110]]),
     Name [67, 97, 108, 108, 45, 73, 68] (Some [[99, 97, 108, 108, 45, 105, 100], [105]]),
     Name [67, 97, 108, 108, 45, 73, 110, 102, 111] (Some [[99, 97, 108, 108, 45, 105, 110, 102, 111]]),
     Name [67, 111, 110, 116, 97, 99, 116] (Some [[99, 111, 110, 116, 97, 99, 116], [109]]),
     Name [67, 111, 110, 116, 101, 110, 116, 45, 68, 105, 115, 112, 111, 115, 105, 116, 105, 111, 110] (Some [[99, 111, 110, 116, 101, 110, 116, 45, 100, 105, 115, 112, 111, 115, 105, 116, 105, 111, 110]]),
     Name [67, 111, 110, 116, 101, 110, 116, 45, 69, 110, 99, 111, 100, 105, 110, 103] (Some [[99, 111, 110, 116, 101, 110, 116, 45, 101, 110, 99, 111, 100, 105, 110, 103], [101]]),
     Name [67, 111, 110, 116, 101, 110, 116, 45, 76, 97, 110, 103, 117, 97, 103, 101] (Some [[99, 111, 110, 116, 101, 110, 116, 45, 108, 97, 110, 103, 117, 97, 103, 101]]),
     Name [67, 111, 110, 116, 101, 110, 116, 45, 76, 101, 110, 103, 116, 104] (Some [[99, 111, 110, 116, 101, 110, 116, 45, 108, 101, 110, 103, 116, 104], [108]]),
     Name [67, 111, 110, 116, 101, 110, 116, 45, 84, 121, 112, 101] (Some [[99, 111, 110, 116, 101, 110, 116, 45, 116, 121, 112, 101], [99]]),
     Name [67, 83, 101, 113] (Some [[99, 115, 101, 113]]),
     Name [68, 97, 116, 101] (Some [[100, 97, 116, 101]]),
     Name [69, 114, 114, 111, 114, 45, 73, 110, 102, 111] (Some [[101, 114, 114, 111, 114, 45, 105, 110, 102, 111]]),
     Name [69, 118, 101, 110, 116] (Some [[101, 118, 101, 110, 116], [111]]),
     Name [69, 120, 112, 105, 114, 101, 115] (Some [[101, 120, 112, 105, 114, 101, 115]]),
     Name [70, 114, 111, 109] (Some [[102, 114, 111, 109], [102]]),
     Name [73, 110, 45, 82, 101, 112, 108, 121, 45, 84, 111] (Some [[105, 110, 45, 114, 101, 112, 108, 121, 45, 116, 111]]),
     Name [77, 97, 120, 45, 70, 111, 114, 119, 97, 114, 100, 115] (Some [[109, 97, 120, 45, 102, 111, 114, 119, 97, 114, 100, 115]]),
     Name [77, 105, 110, 45, 69, 120, 112, 105, 114, 101, 115] (Some [[109, 105, 110, 45, 101, 120, 112, 105, 114, 101, 115]]),
     Name [77, 105, 110, 45, 83, 69] (Some [[109, 105, 110, 45, 115, 101]]),
     Name [77, 73, 77, 69, 45, 86, 101, 114, 115, 105, 111, 110] (Some [[109, 105, 109, 101, 45, 118, 101, 114, 115, 105, 111, 110]]),
     Name [79, 114, 103, 97, 110, 105, 122, 97, 116, 105, 111, 110] (Some [[111, 114, 103, 97, 110, 105, 122, 97, 116, 105, 111, 110]]),
     Name [80, 45, 65, 115, 115, 111, 99, 105, 97, 116, 101, 100, 45, 85, 82, 73] (Some [[112, 45, 97, 115, 115, 111, 99, 105, 97, 116, 101, 100, 45, 117, 114, 105]]),
     Name [80, 45, 67, 97, 108, 108, 101, 100, 45, 80, 97, 114, 116, 121, 45, 73, 68] (Some [[112, 45, 99, 97, 108, 108, 101, 100, 45, 112, 97, 114, 116, 121, 45, 105, 100]]),
     Name [80, 45, 86, 105, 115, 105, 116, 101, 100, 45, 78, 101, 116, 119, 111, 114, 107, 45, 73, 68] (Some [[112, 45, 118, 105, 115, 105, 116, 101, 100, 45, 110, 101, 116, 119, 111, 114, 107, 45, 105, 100]]),
     Name [80, 45, 65, 99, 99, 101, 115, 115, 45, 78, 101, 116, 119, 111, 114, 107, 45, 73, 110, 102, 111] (Some [[112, 45, 97, 99, 99, 101, 115, 115, 45, 110, 101, 116, 119, 111, 114, 107, 45, 105, 110, 102, 111]]),
     Name [80, 45, 67, 104, 97, 114, 103, 105, 110, 103, 45, 70, 117, 110, 99, 116, 105, 111, 110, 45, 65, 100, 100, 114, 101, 115, 115, 101, 115] (Some [[112, 45, 99, 104, 97, 114, 103, 105, 110, 103, 45, 102, 117, 110, 99, 116, 105, 111, 110, 45, 97, 100, 100, 114, 101, 115, 115, 101, 115]]),
     Name [80, 45, 67, 104, 97, 114, 103, 105, 110, 103, 45, 86, 101, 99, 116, 111, 114] (Some [[112, 45, 99, 104, 97, 114, 103, 105, 110, 103, 45, 118, 101, 99, 116, 111, 114]]),
     Name [80, 114, 105, 111, 114, 105, 116, 121] (Some [[112, 114, 105, 111, 114, 105, 116, 121]]),
     Name [80, 114, 111, 120, 121, 45, 65, 117, 116, 104, 101, 110, 116, 105, 99, 97, 116, 101] (Some [[112, 114, 111, 120, 121, 45, 97, 117, 116, 104, 101, 110, 116, 105, 99, 97, 116, 101]]),
     Name [80, 114, 111, 120, 121, 45, 65, 117, 116, 104, 111, 114, 105, 122, 97, 116, 105, 111, 110] (Some [[112, 114, 111, 120, 121, 45, 97, 117, 116, 104, 111, 114, 105, 122, 97, 116, 105, 111, 110]]),
     Name [80, 114, 111, 120, 121, 45, 82, 101, 113, 117, 105, 114, 101] (Some [[112, 114, 111, 120, 121, 45, 114, 101, 113, 117, 105, 114, 101]]),
     Name [82, 65, 99, 107] (Some [[114, 97, 99, 107]]),
     Name [82, 101, 99, 111, 114, 100, 45, 82, 111, 117, 116, 101] (Some [[114, 101, 99, 111, 114, 100, 45, 114, 111, 117, 116, 101]]),
     Name [82, 101, 112, 108, 97, 99, 101, 115] (Some [[114, 101, 112, 108, 97, 99, 101, 115]]),
     Name [82, 101, 112, 108, 121, 45, 84, 111] (Some [[114, 101, 112, 108, 121, 45, 116, 111]]),
     Name [82, 101, 113, 117, 105, 114, 101] (Some [[114, 101, 113, 117, 105, 114, 101]]),
     Name [82, 101, 116, 114, 121, 45, 65, 102, 116, 101, 114] (Some [[114, 101, 116, 114, 121, 45, 97, 102, 116, 101, 114]]),
     Name [82, 111, 117, 116, 101] (Some [[114, 111, 117, 116, 101]]),
     Name [82, 83, 101, 113] (Some [[114, 115, 101, 113]]),
     Name [83, 101, 99, 117, 114, 105, 116, 121, 45, 67, 108, 105, 101, 110, 116] (Some [[115, 101, 99, 117, 114, 105, 116, 121, 45, 99, 108, 105, 101, 110, 116]]),
     Name [83, 101, 99, 117, 114, 105, 116, 121, 45, 83, 101, 114, 118, 101, 114] (Some [[115, 101, 99, 117, 114, 105, 116, 121, 45, 115, 101, 114, 118, 101, 114]]),
     Name [83, 101, 99, 117, 114, 105, 116, 121, 45, 86, 101, 114, 105, 102, 121] (Some [[115, 101, 99, 117, 114, 105, 116, 121, 45, 118, 101, 114, 105, 102, 121]]),
     Name [83, 101, 114, 118, 101, 114] (Some [[115, 101, 114, 118, 101, 114]]),
     Name [83, 101, 115, 115, 105, 111, 110, 45, 69, 120, 112, 105, 114, 101, 115] (Some [[115, 101, 115, 115, 105, 111, 110, 45, 101, 120, 112, 105, 114, 101, 115], [120]]),
     Name [83, 117, 98, 106, 101, 99, 116] (Some [[115, 117, 98, 106, 101, 99, 116], [115]]),
     Name [83, 117, 98, 115, 99, 114, 105, 112, 116, 105, 111, 110, 45, 83, 116, 97, 116, 101] (Some [[115, 117, 98, 115, 99, 114, 105, 112, 116, 105, 111, 110, 45, 115, 116, 97, 116, 101]]),
     Name [83, 117, 112, 112, 111, 114, 116, 101, 100] (Some [[115, 117, 112, 112, 111, 114, 116, 101, 100], [107]]),
     Name [84, 105, 109, 101, 115, 116, 97, 109, 112] (Some [[116, 105, 109, 101, 115, 116, 97, 109, 112]]),
     Name [84, 111] (Some [[116, 111], [116]]),
     Name [85, 110, 115, 117, 112, 112, 111, 114, 116, 101, 100] (Some [[117, 110, 115, 117, 112, 112, 111, 114, 116, 101, 100]]),
     Name [85, 115, 101, 114, 45, 65, 103, 101, 110, 116] (Some [[117, 115, 101, 114, 45, 97, 103, 101, 110, 116]]),
     Name [86, 105, 97] (Some [[118, 105, 97], [118]]),
     Name [87, 97, 114, 110, 105, 110, 103] (Some [[119, 97, 114, 110, 105, 110, 103]]),
     Name [87, 87, 87, 45, 65, 117, 116, 104, 101, 110, 116, 105, 99, 97, 116, 101] (Some [[119, 119, 119, 45, 97, 117, 116, 104, 101, 110, 116, 105, 99, 97, 116, 101]])]"
  by (simp add: NAMES_def ascii_def)

definition name_from_bytes :: "bytes \<Rightarrow> Name" where
  "name_from_bytes s =
     (case find (\<lambda>n. list_ex (\<lambda>p. eq_ignore_ascii_case p s) (case as_parse_strs n of Some ps \<Rightarrow> ps | None \<Rightarrow> [])) NAMES of
        Some n \<Rightarrow> n
      | None \<Rightarrow> Name s None)"

section \<open>Lines\<close>

text \<open>The position of the first byte that is one of two.\<close>

fun memchr2 :: "u8 \<Rightarrow> u8 \<Rightarrow> bytes \<Rightarrow> nat option" where
  "memchr2 a b [] = None"
| "memchr2 a b (c # cs) = (if c = a \<or> c = b then Some 0 else map_option Suc (memchr2 a b cs))"

lemma memchr2_less: "memchr2 a b s = Some n \<Longrightarrow> n < length s"
  by (induction s arbitrary: n) (auto split: if_splits)

datatype Pulled = PullEnd | PullLine bytes nat | PullIncomplete

abbreviation blank :: "u8 \<Rightarrow> bool" where "blank c \<equiv> c = 0x20 \<or> c = 0x09"

text \<open>
  \<^verbatim>\<open>PullParser::next\<close> with the line at \<open>line_begin\<close>: a line together with the progress after
  it, the end of the head, or the news that the input is incomplete. A newline followed by a
  blank continues the line.
\<close>

function pull_next :: "bytes \<Rightarrow> nat \<Rightarrow> nat \<Rightarrow> Pulled" where
  "pull_next input line_begin skip =
     (case memchr2 0x0A 0x0D (drop (line_begin + skip) input) of
        None \<Rightarrow> PullIncomplete
      | Some progress \<Rightarrow>
          let pos = progress + line_begin + skip;
              slice = take (pos - line_begin) (drop line_begin input) in
          (case drop pos input of
             c # b # cs \<Rightarrow>
               if c = 0x0A then
                 if blank b then pull_next input line_begin (skip + progress + 1)
                 else if slice = [] then PullEnd
                 else PullLine slice (if b = 0x0A then pos else pos + 1)
               else if b = 0x0A then
                 (case cs of
                    b1 # ds \<Rightarrow>
                      if blank b1 then pull_next input line_begin (skip + progress + 1)
                      else (case ds of
                        b2 # _ \<Rightarrow>
                          if slice = [] then PullEnd
                          else PullLine slice (if b1 = 0x0D \<and> b2 = 0x0A then pos else pos + 2)
                      | [] \<Rightarrow> PullIncomplete)
                  | [] \<Rightarrow> PullIncomplete)
               else PullIncomplete
           | _ \<Rightarrow> PullIncomplete))"
  by pat_completeness auto

termination
  by (relation "measure (\<lambda>(i, l, s). length i - (l + s))") (auto dest!: memchr2_less)

declare pull_next.simps [simp del]

lemma pull_next_progress: "pull_next input line_begin skip = PullLine l p \<Longrightarrow> line_begin < p \<and> line_begin < length input"
proof (induction input line_begin skip rule: pull_next.induct)
  case (1 input line_begin skip)
  show ?case
  proof (cases "memchr2 0x0A 0x0D (drop (line_begin + skip) input)")
    case None
    then show ?thesis using "1.prems" by (simp add: pull_next.simps)
  next
    case (Some progress)
    let ?pos = "progress + line_begin + skip"
    have len: "line_begin + skip + progress < length input" using memchr2_less [OF Some] by simp
    have "take (?pos - line_begin) (drop line_begin input) \<noteq> [] \<Longrightarrow> line_begin < ?pos" by auto
    then show ?thesis
      using "1.prems" "1.IH" [OF Some refl refl] Some len
      by (subst (asm) pull_next.simps) (auto simp: Let_def split: list.splits if_splits)
  qed
qed

text \<open>
  All lines from a position on, the progress when the parser stops, and whether it stops at
  the end of the head.
\<close>

function pull_lines :: "bytes \<Rightarrow> nat \<Rightarrow> bytes list \<times> nat \<times> bool" where
  "pull_lines input progress =
     (case pull_next input progress 0 of
        PullEnd \<Rightarrow> ([], progress, True)
      | PullIncomplete \<Rightarrow> ([], progress, False)
      | PullLine l p \<Rightarrow> (case pull_lines input p of (ls, q, c) \<Rightarrow> (l # ls, q, c)))"
  by pat_completeness auto

termination
  by (relation "measure (\<lambda>(i, p). length i - p)") (auto dest!: pull_next_progress)

declare pull_lines.simps [simp del]

definition head_end :: "bytes \<Rightarrow> nat \<Rightarrow> nat" where
  "head_end input progress =
     (let rest = drop progress input in
      if take 4 rest = [0x0D, 0x0A, 0x0D, 0x0A] then progress + 4
      else if take 2 rest = [0x0A, 0x0A] then progress + 2
      else progress)"

definition check_complete :: "bytes \<Rightarrow> nat \<Rightarrow> bool" where
  "check_complete input progress = snd (snd (pull_lines input progress))"

section \<open>Request lines, status lines and header lines\<close>

definition not_newline :: "u8 \<Rightarrow> bool" where
  "not_newline c \<longleftrightarrow> c \<noteq> 0x0A \<and> c \<noteq> 0x0D"

definition request_line_parse :: "Ip6Text \<Rightarrow> RequestLine parser" where
  "request_line_parse T i = do {
     (i, meth) \<leftarrow> method_parse i;
     (i, uri) \<leftarrow> uri_parse T (dropWhile whitespace i);
     i \<leftarrow> tag (ascii ''SIP/2.0'') (dropWhile whitespace i);
     Some (i, \<lparr>rl_method = meth, rl_uri = uri\<rparr>) }"

definition status_line_parse :: "StatusLine parser" where
  "status_line_parse i = do {
     i \<leftarrow> tag (ascii ''SIP/2.0'') i;
     let i = dropWhile whitespace i;
     code \<leftarrow> u16_from_digits (takeWhile is_digit i);
     let i = dropWhile whitespace (dropWhile is_digit i);
     let reason = trim (takeWhile not_newline i);
     Some (dropWhile not_newline i, \<lparr>sl_code = code, sl_reason = (if reason = [] then None else Some reason)\<rparr>) }"

definition message_line_parse :: "Ip6Text \<Rightarrow> MessageLine parser" where
  "message_line_parse T i =
     (case status_line_parse i of
        Some (r, l) \<Rightarrow> Some (r, ResponseMsg l)
      | None \<Rightarrow> map_option (\<lambda>(r, l). (r, RequestMsg l)) (request_line_parse T i))"

fun message_line_print :: "Ip6Text \<Rightarrow> MessageLine \<Rightarrow> bytes" where
  "message_line_print T (RequestMsg l) = request_line_print T l"
| "message_line_print T (ResponseMsg l) = status_line_print l"

text \<open>\<^verbatim>\<open>Line::parse\<close>: a name, a colon and the rest, with the blanks before each skipped.\<close>

definition line_parse :: "bytes \<Rightarrow> (Name \<times> bytes) option" where
  "line_parse i = do {
     let i = ws i;
     i' \<leftarrow> tag [0x3A] (ws (dropWhile token i));
     Some (name_from_bytes (takeWhile token i), ws i') }"

section \<open>Reading lines back\<close>

lemma memchr2_append:
  "\<forall>c\<in>set l. c \<noteq> a \<and> c \<noteq> b \<Longrightarrow> x = a \<or> x = b \<Longrightarrow> memchr2 a b (l @ x # r) = Some (length l)"
  by (induction l) auto

lemma pull_next_crlf:
  assumes "\<forall>c\<in>set l. not_newline c" "\<not> blank b1"
  shows "pull_next (pre @ l @ 0x0D # 0x0A # b1 # b2 # rest) (length pre) 0 =
    (if l = [] then PullEnd else PullLine l (length pre + length l + (if b1 = 0x0D \<and> b2 = 0x0A then 0 else 2)))"
proof -
  have "memchr2 0x0A 0x0D (l @ 0x0D # 0x0A # b1 # b2 # rest) = Some (length l)"
    using assms(1) by (intro memchr2_append) (auto simp: not_newline_def)
  then show ?thesis using assms(2) by (subst pull_next.simps) (simp add: Let_def)
qed

text \<open>A line that the pull parser takes for one line.\<close>

definition line_ok :: "bytes \<Rightarrow> bool" where
  "line_ok l \<longleftrightarrow> l \<noteq> [] \<and> list_all not_newline l \<and> \<not> blank (hd l)"

abbreviation lines_text :: "bytes list \<Rightarrow> bytes" where
  "lines_text ls \<equiv> concat (map (\<lambda>l. l @ CRLF) ls)"

definition head_text :: "bytes list \<Rightarrow> bytes" where
  "head_text ls = lines_text ls @ CRLF"

lemma pull_lines_head:
  assumes "list_all line_ok ls" "ls \<noteq> []"
  shows "pull_lines (pre @ head_text ls @ body) (length pre) = (ls, length pre + length (head_text ls) - 4, True)"
  using assms(2,1)
proof (induction ls arbitrary: pre rule: list_nonempty_induct)
  case (single l)
  then have l: "\<forall>c\<in>set l. not_newline c" "l \<noteq> []" by (auto simp: line_ok_def list_all_iff)
  have "pull_next (pre @ l @ 0x0D # 0x0A # 0x0D # 0x0A # body) (length pre) 0 = PullLine l (length (pre @ l))"
    using pull_next_crlf [OF l(1), of "0x0D" pre "0x0A" body] l(2) by simp
  moreover have "pull_next ((pre @ l) @ [] @ 0x0D # 0x0A # 0x0D # 0x0A # body) (length (pre @ l)) 0 = PullEnd"
    by (subst pull_next_crlf) simp_all
  ultimately show ?case
    by (subst pull_lines.simps, simp add: head_text_def, subst pull_lines.simps, simp)
next
  case (cons l ls)
  obtain k ks where ls: "ls = k # ks" using cons by (cases ls) auto
  then obtain b1 r where k: "k = b1 # r" "\<not> blank b1" "not_newline b1" using cons by (cases k) (auto simp: line_ok_def)
  let ?rest = "head_text ls @ body"
  obtain b2 r' where b2: "?rest = b1 # b2 # r'"
    using k by (cases r) (auto simp: head_text_def ls)
  have l: "\<forall>c\<in>set l. not_newline c" "l \<noteq> []" using cons by (auto simp: line_ok_def list_all_iff)
  have "pull_next (pre @ head_text (l # ls) @ body) (length pre) 0 = PullLine l (length (pre @ l @ CRLF))"
    using pull_next_crlf [OF l(1) k(2), of pre b2 r'] l(2) k(3) b2 by (simp add: head_text_def not_newline_def)
  moreover have "pull_lines ((pre @ l @ CRLF) @ ?rest) (length (pre @ l @ CRLF))
      = (ls, length (pre @ l @ CRLF) + length (head_text ls) - 4, True)"
    using cons by (intro cons.IH) auto
  ultimately show ?case by (subst pull_lines.simps) (simp add: head_text_def)
qed

lemma memchr2_None: "\<forall>c\<in>set l. c \<noteq> a \<and> c \<noteq> b \<Longrightarrow> memchr2 a b l = None"
  by (induction l) auto

lemma pull_next_short:
  assumes "\<forall>c\<in>set l. not_newline c" "k < length l + 4" "ends blank rest"
  shows "pull_next (pre @ take k (l @ 0x0D # 0x0A # rest)) (length pre) 0 = PullIncomplete"
proof (cases "k \<le> length l")
  case True
  then have "memchr2 0x0A 0x0D (take k l) = None"
    using assms(1) by (intro memchr2_None) (auto simp: not_newline_def dest: in_set_takeD)
  then show ?thesis using True by (subst pull_next.simps) simp
next
  case False
  define i where "i = k - length l - 1"
  have i: "k = length l + Suc i" "i < 3" using False assms(2) by (simp_all add: i_def)
  have "memchr2 0x0A 0x0D (l @ 0x0D # ys) = Some (length l)" for ys
    using assms(1) by (intro memchr2_append) (auto simp: not_newline_def)
  moreover have "take k (l @ 0x0D # 0x0A # rest) = l @ 0x0D # take i (0x0A # rest)" using i(1) by simp
  moreover have "take i (0x0A # rest) \<in> {[], [0x0A]} \<or> (\<exists>b. take i (0x0A # rest) = [0x0A, b] \<and> \<not> blank b)"
    using i(2) assms(3) by (cases i; cases rest) (auto simp: take_Cons')
  ultimately show ?thesis by (subst pull_next.simps) (auto simp: Let_def)
qed

text \<open>
  What the parser makes of a head that is cut off: it has the lines up to some point, stops
  before the next one, and never sees the last line.
\<close>

lemma pull_lines_cut:
  assumes "ls \<noteq> []" "list_all line_ok ls" "k < length (head_text ls)"
  shows "\<exists>j < length ls. pull_lines (pre @ take k (head_text ls)) (length pre) = (take j ls, length pre + length (lines_text (take j ls)), False)
    \<and> k < length (lines_text (take (Suc j) ls)) + 2 \<and> length (lines_text (take j ls)) \<le> k"
  using assms
proof (induction ls arbitrary: pre k rule: list_nonempty_induct)
  case (single l)
  then have "pull_next (pre @ take k (l @ 0x0D # 0x0A # CRLF)) (length pre) 0 = PullIncomplete"
    by (intro pull_next_short) (auto simp: line_ok_def list_all_iff head_text_def)
  then show ?case using single by (intro exI [of _ 0]) (simp add: head_text_def pull_lines.simps)
next
  case (cons l ls)
  obtain k' ks where ls: "ls = k' # ks" using cons by (cases ls) auto
  then obtain b1 r where b1: "k' = b1 # r" "\<not> blank b1" "not_newline b1" using cons by (cases k') (auto simp: line_ok_def)
  have l: "\<forall>c\<in>set l. not_newline c" "l \<noteq> []" using cons by (auto simp: line_ok_def list_all_iff)
  have ht: "head_text (l # ls) = l @ 0x0D # 0x0A # head_text ls" by (simp add: head_text_def)
  show ?case
  proof (cases "k < length l + 4")
    case True
    then have "pull_next (pre @ take k (l @ 0x0D # 0x0A # head_text ls)) (length pre) 0 = PullIncomplete"
      using b1 by (intro pull_next_short [OF l(1)]) (simp_all add: head_text_def ls)
    then show ?thesis using True by (intro exI [of _ 0]) (simp add: ht pull_lines.simps)
  next
    case False
    define m where "m = k - length l - 2"
    have m: "k = length l + 2 + m" "2 \<le> m" "m < length (head_text ls)"
      using False cons.prems(2) by (simp_all add: m_def ht)
    obtain b2 r' where b2: "take m (head_text ls) = b1 # b2 # r'"
    proof -
      obtain b2 z where "head_text ls = b1 # b2 # z" using b1 by (cases r) (auto simp: head_text_def ls)
      then have "take m (head_text ls) = b1 # b2 # take (m - 2) z" using m(2) by (auto simp: take_Cons' numeral_2_eq_2)
      then show thesis by (rule that)
    qed
    have eq: "take k (head_text (l # ls)) = l @ 0x0D # 0x0A # take m (head_text ls)" by (simp add: ht m(1))
    have "pull_next (pre @ take k (head_text (l # ls))) (length pre) 0 = PullLine l (length (pre @ l @ CRLF))"
      using pull_next_crlf [OF l(1) b1(2), of pre b2 r'] l(2) b1(3) b2 by (simp add: eq not_newline_def)
    moreover obtain j where j: "j < length ls"
      "pull_lines ((pre @ l @ CRLF) @ take m (head_text ls)) (length (pre @ l @ CRLF))
        = (take j ls, length (pre @ l @ CRLF) + length (lines_text (take j ls)), False)"
      "m < length (lines_text (take (Suc j) ls)) + 2" "length (lines_text (take j ls)) \<le> m"
      using cons.IH [OF _ m(3), of "pre @ l @ CRLF"] cons.prems by auto
    ultimately have "pull_lines (pre @ take k (head_text (l # ls))) (length pre)
        = (take (Suc j) (l # ls), length pre + length (lines_text (take (Suc j) (l # ls))), False)"
      by (subst pull_lines.simps) (simp add: eq)
    then show ?thesis using j m(1) by (intro exI [of _ "Suc j"]) simp
  qed
qed

lemma head_end_head:
  assumes "ls \<noteq> []"
  shows "head_end (head_text ls @ body) (length (head_text ls) - 4) = length (head_text ls)"
proof -
  obtain xs l where "ls = xs @ [l]" using assms by (cases ls rule: rev_cases) auto
  then obtain t where t: "head_text ls = t @ [0x0D, 0x0A, 0x0D, 0x0A]" by (simp add: head_text_def)
  then show ?thesis by (simp add: head_end_def Let_def)
qed

section \<open>Reading request and status lines back\<close>

text \<open>
  A parameter list followed by a space and a character that does not belong to it. The last
  parameter takes the space with it if it has no value, so names and values must not be empty.
\<close>

definition solid_param :: "Param \<Rightarrow> bool" where
  "solid_param p \<longleftrightarrow> param_name p \<noteq> [] \<and> param_value p \<noteq> Some []"

definition stops :: "ParamsSpec \<Rightarrow> u8 \<Rightarrow> bool" where
  "stops S x \<longleftrightarrow> \<not> is_ascii_whitespace x \<and> x \<notin> {0x3D, FIRST_DELIMITER S, DELIMITER S}"

context params_spec
begin

lemma encode_nonempty: "s \<noteq> [] \<Longrightarrow> percent_encode (CHAR_SPEC S) s \<noteq> []"
  by (cases s) (auto simp: percent_encode_def)

lemma space_out: "\<not> CHAR_SPEC S 0x20"
  by (rule whitespace_out) (simp add: is_ascii_whitespace_def)

lemma ws_encode_solid:
  assumes "\<forall>b\<in>set s. byte_safe (CHAR_SPEC S) b" "s \<noteq> []"
  shows "ws (percent_encode (CHAR_SPEC S) s @ rest) = percent_encode (CHAR_SPEC S) s @ rest"
  using encode_in [OF assms(1)] encode_nonempty [OF assms(2)] whitespace_out
  by (intro ws_ends) (cases "percent_encode (CHAR_SPEC S) s", auto)

lemma ws_space: "stops S x \<Longrightarrow> ws (0x20 # x # xs) = x # xs" "stops S x \<Longrightarrow> ws (x # xs) = x # xs"
  by (simp_all add: ws_def stops_def is_ascii_whitespace_def)

lemma delimited_none: "stops S x \<Longrightarrow> d \<in> {FIRST_DELIMITER S, DELIMITER S} \<Longrightarrow> r \<in> {0x20 # x # xs, x # xs} \<Longrightarrow> delimited_param S d r = None"
  by (auto simp: delimited_param_def ws_space) (auto simp: stops_def)

lemma param_parse_space:
  assumes p: "param_ok S p" "solid_param p" and x: "stops S x"
  shows "\<exists>r\<in>{0x20 # x # xs, x # xs}. param_parse S (param_write S p @ 0x20 # x # xs) = Some (r, p)"
proof -
  have n: "\<forall>b\<in>set (param_name p). byte_safe (CHAR_SPEC S) b" "utf8_valid (param_name p)" "param_name p \<noteq> []"
    using p by (auto simp: param_ok_def list_all_iff solid_param_def)
  have eq: "ends (CHAR_SPEC S) (0x3D # ys)" "ends is_ascii_whitespace (0x3D # ys)" for ys
    using structure_out [of "0x3D"] by simp_all
  show ?thesis
  proof (cases "param_value p")
    case None
    moreover have "param_value_parse S (x # xs) = None"
      using x by (simp add: param_value_parse_def ws_space) (simp add: stops_def)
    ultimately have "param_parse S (param_write S p @ 0x20 # x # xs) = Some (x # xs, p)"
      using n encode_in [OF n(1)] space_out x
      by (simp add: param_parse_def param_write_def ws_encode_solid while_simps ws_space Let_def
          decode_utf8_def percent_decode_encode)
    then show ?thesis by blast
  next
    case (Some v)
    then have v: "\<forall>b\<in>set v. byte_safe (CHAR_SPEC S) b" "utf8_valid v" "v \<noteq> []"
      using p by (auto simp: param_ok_def list_all_iff solid_param_def)
    have "parse_quoted (percent_encode (CHAR_SPEC S) v @ 0x20 # x # xs) = None"
      using encode_in [OF v(1)] structure_out [of "0x22"] encode_nonempty [OF v(3)]
      by (cases "percent_encode (CHAR_SPEC S) v") auto
    moreover have "ws (0x3D # ys) = 0x3D # ys" for ys using eq(2) by (rule ws_ends)
    ultimately have "param_value_parse S (0x3D # percent_encode (CHAR_SPEC S) v @ 0x20 # x # xs)
        = Some (0x20 # x # xs, percent_encode (CHAR_SPEC S) v)"
      using encode_in [OF v(1)] space_out by (simp add: param_value_parse_def ws_encode_solid v while_simps)
    then have "param_parse S (param_write S p @ 0x20 # x # xs) = Some (0x20 # x # xs, p)"
      using n encode_in [OF n(1)] eq v Some
      by (simp add: param_parse_def param_write_def ws_encode_solid while_simps ws_ends Let_def
          decode_utf8_def percent_decode_encode)
    then show ?thesis by blast
  qed
qed

lemma delimited_param_space:
  assumes p: "param_ok S p" "solid_param p" and x: "stops S x" and d: "d \<in> {FIRST_DELIMITER S, DELIMITER S}"
  shows "\<exists>r\<in>{0x20 # x # xs, x # xs}. delimited_param S d (d # param_write S p @ 0x20 # x # xs) = Some (r, p)"
proof -
  have n: "\<forall>b\<in>set (param_name p). byte_safe (CHAR_SPEC S) b" "param_name p \<noteq> []"
    using p by (auto simp: param_ok_def list_all_iff solid_param_def)
  have "ws (param_write S p @ 0x20 # x # xs) = param_write S p @ 0x20 # x # xs"
    using ws_encode_solid [OF n] by (simp add: param_write_def split: option.split)
  moreover have "ws (d # ys) = d # ys" for ys using d structure_out [of d] by (intro ws_ends) auto
  ultimately show ?thesis using param_parse_space [OF p x, of xs] by (simp add: delimited_param_def)
qed

lemma params_many_space:
  assumes "\<forall>p\<in>set ps. param_ok S p \<and> solid_param p" "stops S x" "length ps < n"
  shows "\<exists>r\<in>{0x20 # x # xs, x # xs}. params_many n S (concat (map (\<lambda>p. DELIMITER S # param_write S p) ps) @ 0x20 # x # xs) = (r, ps)"
  using assms(1,3)
proof (induction ps arbitrary: n)
  case Nil
  have "delimited_param S (DELIMITER S) (0x20 # x # xs) = None" using delimited_none [OF assms(2)] by blast
  then show ?case using Nil by (cases n) auto
next
  case (Cons p ps)
  obtain m where m: "n = Suc m" "length ps < m" using Cons.prems by (cases n) auto
  show ?case
  proof (cases ps)
    case Nil
    from delimited_param_space [of p x "DELIMITER S"] Cons.prems assms(2) obtain r where
      r: "r \<in> {0x20 # x # xs, x # xs}" "delimited_param S (DELIMITER S) (DELIMITER S # param_write S p @ 0x20 # x # xs) = Some (r, p)"
      by auto
    moreover have "params_many m S r = (r, [])" using delimited_none [OF assms(2) _ r(1)] m by (cases m) auto
    ultimately show ?thesis using m Nil by auto
  next
    case (Cons q qs)
    let ?r = "concat (map (\<lambda>p. DELIMITER S # param_write S p) ps) @ 0x20 # x # xs"
    have "ends (\<lambda>c. CHAR_SPEC S c \<or> is_ascii_whitespace c \<or> c \<in> {0x3D, 0x22}) ?r"
      using structure_out [of "DELIMITER S"] delimiters Cons by auto
    then have "delimited_param S (DELIMITER S) (DELIMITER S # param_write S p @ ?r) = Some (?r, p)"
      using Cons.prems by (intro delimited_param_write) auto
    then show ?thesis using Cons.IH [of m] Cons.prems m by auto
  qed
qed

lemma params_parse_space:
  assumes ps: "\<forall>p\<in>set ps. param_ok S p \<and> solid_param p" and x: "stops S x"
  shows "\<exists>r\<in>{0x20 # x # xs, x # xs}. params_parse S (params_print S ps @ 0x20 # x # xs) = (r, ps)"
proof (cases ps)
  case Nil
  have "delimited_param S (FIRST_DELIMITER S) (0x20 # x # xs) = None" using delimited_none [OF x] by blast
  then show ?thesis using Nil by (simp add: params_parse_def params_print_def)
next
  case (Cons p ps')
  let ?r = "concat (map (\<lambda>p. DELIMITER S # param_write S p) ps') @ 0x20 # x # xs"
  show ?thesis
  proof (cases ps')
    case Nil
    from delimited_param_space [of p x "FIRST_DELIMITER S"] ps Cons x obtain r where
      r: "r \<in> {0x20 # x # xs, x # xs}"
        "delimited_param S (FIRST_DELIMITER S) (FIRST_DELIMITER S # param_write S p @ 0x20 # x # xs) = Some (r, p)"
      by auto
    have "ws r = x # xs" using r(1) ws_space [OF x] by auto
    moreover have "delimited_param S (DELIMITER S) (x # xs) = None" using delimited_none [OF x] by blast
    ultimately show ?thesis using Cons Nil r(2) by (simp add: params_parse_def params_print_def)
  next
    case (Cons q qs)
    have e: "ends (\<lambda>c. CHAR_SPEC S c \<or> is_ascii_whitespace c \<or> c \<in> {0x3D, 0x22}) ?r"
      using structure_out [of "DELIMITER S"] delimiters Cons by auto
    then have "delimited_param S (FIRST_DELIMITER S) (FIRST_DELIMITER S # param_write S p @ ?r) = Some (?r, p)"
      using ps \<open>ps = p # ps'\<close> by (intro delimited_param_write) auto
    moreover have "ws ?r = ?r" using e by (intro ws_ends ends_mono [OF e]) auto
    moreover have "length ps' \<le> length ?r" by (induction ps') auto
    then have "\<exists>r\<in>{0x20 # x # xs, x # xs}. params_many (Suc (length ?r)) S ?r = (r, ps')"
      using ps \<open>ps = p # ps'\<close> x by (intro params_many_space) auto
    ultimately show ?thesis using \<open>ps = p # ps'\<close> by (auto simp: params_parse_def params_print_def simp del: params_many.simps)
  qed
qed

end

text \<open>A URI that a request line can show.\<close>

definition request_uri_wf :: "SipUri \<Rightarrow> bool" where
  "request_uri_wf u \<longleftrightarrow> uri_wf u \<and> list_all solid_param (uri_params u) \<and> list_all solid_param (header_params u)"

lemma version_stops: "stops CPS 0x53" "stops HPS 0x53"
  by code_simp+

lemma params_of_uri_space:
  assumes "\<forall>p\<in>set ps. param_ok CPS p \<and> solid_param p" "\<forall>p\<in>set hs. param_ok HPS p \<and> solid_param p"
  shows "\<exists>i r. params_parse CPS (params_print CPS ps @ params_print HPS hs @ 0x20 # 0x53 # xs) = (i, ps)
    \<and> params_parse HPS i = (r, hs) \<and> r \<in> {0x20 # 0x53 # xs, 0x53 # xs}"
proof (cases hs)
  case Nil
  obtain r where r: "r \<in> {0x20 # 0x53 # xs, 0x53 # xs}" "params_parse CPS (params_print CPS ps @ 0x20 # 0x53 # xs) = (r, ps)"
    using cps.params_parse_space [OF assms(1) version_stops(1), of xs] by auto
  have "delimited_param HPS (FIRST_DELIMITER HPS) r = None"
    using hps.delimited_none [OF version_stops(2) _ r(1)] by blast
  then show ?thesis using r Nil by (auto simp: params_parse_def params_print_def)
next
  case (Cons h hs')
  have "\<not> params_cont CPS 0x3F" by code_simp
  then have "ends (params_cont CPS) (params_print HPS hs @ 0x20 # 0x53 # xs)"
    using Cons by (simp add: params_print_def HPS_def)
  then have "params_parse CPS (params_print CPS ps @ params_print HPS hs @ 0x20 # 0x53 # xs) = (params_print HPS hs @ 0x20 # 0x53 # xs, ps)"
    using assms(1) by (intro cps.params_parse_print) auto
  moreover obtain r where "r \<in> {0x20 # 0x53 # xs, 0x53 # xs}" "params_parse HPS (params_print HPS hs @ 0x20 # 0x53 # xs) = (r, hs)"
    using hps.params_parse_space [OF assms(2) version_stops(2), of xs] by auto
  ultimately show ?thesis by blast
qed

lemma uri_parse_print_space:
  assumes T: "ip6_text_ok T" and u: "request_uri_wf u"
  shows "\<exists>r. uri_parse T (uri_print T None meth u @ 0x20 # 0x53 # xs) = Some (r, u) \<and> r \<in> {0x20 # 0x53 # xs, 0x53 # xs}"
proof -
  have wf: "user_wf (user_part u)" "host_wf (hp_host (host_port u))"
    "\<forall>p\<in>set (uri_params u). param_ok CPS p \<and> solid_param p" "\<forall>p\<in>set (header_params u). param_ok HPS p \<and> solid_param p"
    using u by (simp_all add: request_uri_wf_def uri_wf_def list_all_iff)
  let ?hp = "hostport_print T None (host_port u)"
  let ?ps = "params_print CPS (uri_params u)" and ?hs = "params_print HPS (header_params u)"
  have "list_all (\<lambda>c. \<not> c) [param_char 0x40, header_char 0x40]" by code_simp
  then have "0x40 \<notin> set (?hp @ ?ps @ ?hs)"
    using no_at_hostport [OF T wf(2)] no_at_params [of CPS "uri_params u"] no_at_params [of HPS "header_params u"] wf(3,4)
    by (auto simp: CPS_def HPS_def param_char_def header_char_def)
  then obtain x where x: "parse_user_pw (user_print (user_part u) @ (?hp @ ?ps @ ?hs) @ 0x20 # 0x53 # xs)
      = ((?hp @ ?ps @ ?hs) @ 0x20 # 0x53 # xs, x)" "user_part_of x = Some (user_part u)"
    using parse_user_pw_print [OF terminators(2) wf(1)] by blast
  obtain i r where params: "params_parse CPS (?ps @ ?hs @ 0x20 # 0x53 # xs) = (i, uri_params u)"
    "params_parse HPS i = (r, header_params u)" "r \<in> {0x20 # 0x53 # xs, 0x53 # xs}"
    using params_of_uri_space [OF wf(3,4), of xs] by blast
  have "list_all (\<lambda>c. \<not> (host_cont c \<or> c = 0x3A)) [0x20, 0x3B, 0x3F]" by code_simp
  then have "ends (\<lambda>c. host_cont c \<or> c = 0x3A) (?ps @ ?hs @ 0x20 # 0x53 # xs)"
    by (cases "uri_params u"; cases "header_params u") (simp_all add: params_print_def CPS_def HPS_def)
  then have "hostport_parse T (?hp @ ?ps @ ?hs @ 0x20 # 0x53 # xs) = Some (?ps @ ?hs @ 0x20 # 0x53 # xs, host_port u)"
    by (intro hostport_parse_print [OF T wf(2)]) auto
  then have "uri_parse T (uri_print T None meth u @ 0x20 # 0x53 # xs) = Some (r, u)"
    using x params by (simp add: uri_print_def uri_parse_def uri_start del: append_Cons)
  then show ?thesis using params(3) by blast
qed

lemma method_parse_print_space:
  assumes "method_wf m"
  shows "method_parse (method_print m @ 0x20 # xs) = Some (0x20 # xs, m)"
proof -
  have "\<not> token 0x20" by code_simp
  then show ?thesis
    using method_wf_token [OF assms] method_from_print [OF assms] by (simp add: method_parse_def list_all_iff while_simps)
qed

lemma request_line_parse_print:
  assumes T: "ip6_text_ok T" and "method_wf (rl_method l)" "request_uri_wf (rl_uri l)"
  shows "request_line_parse T (request_line_print T l) = Some ([], l)"
proof -
  let ?v = "0x20 # 0x53 # ascii ''IP/2.0''"
  have v: "ascii '' SIP/2.0'' = ?v" "ascii ''SIP/2.0'' = 0x53 # ascii ''IP/2.0''" by (simp_all add: ascii_def)
  obtain r where r: "uri_parse T (uri_print T None (Some (rl_method l)) (rl_uri l) @ ?v) = Some (r, rl_uri l)"
    "r \<in> {?v, 0x53 # ascii ''IP/2.0''}"
    using uri_parse_print_space [OF T assms(3)] by blast
  have sp: "whitespace 0x20" "\<not> whitespace 0x53" "\<not> whitespace 0x73" by code_simp+
  then have "dropWhile whitespace r = 0x53 # ascii ''IP/2.0''" using r(2) by auto
  moreover have "dropWhile whitespace (0x20 # uri_print T None (Some (rl_method l)) (rl_uri l) @ ?v)
      = uri_print T None (Some (rl_method l)) (rl_uri l) @ ?v"
    using sp by (simp add: uri_print_def ascii_def)
  ultimately show ?thesis
    using method_parse_print_space [OF assms(2), of "uri_print T None (Some (rl_method l)) (rl_uri l) @ ?v"] r(1) tag_append [of "0x53 # ascii ''IP/2.0''" "[]"]
    by (simp add: request_line_parse_def request_line_print_def v)
qed

lemma request_no_status:
  assumes "method_wf m"
  shows "status_line_parse (method_print m @ 0x20 # xs) = None"
proof -
  have t: "\<not> token 0x20" "\<not> token 0x2F" "token 0x53" "token 0x49" "token 0x50" by code_simp+
  have "tag (ascii ''SIP/2.0'') (method_print m @ 0x20 # xs) = None"
  proof (rule ccontr)
    assume "tag (ascii ''SIP/2.0'') (method_print m @ 0x20 # xs) \<noteq> None"
    then have "method_print m @ 0x20 # xs = ascii ''SIP/2.0'' @ drop (length (ascii ''SIP/2.0'')) (method_print m @ 0x20 # xs)"
      by (metis append_take_drop_id option.simps(3) tag_def)
    then obtain ys where ys: "method_print m @ 0x20 # xs = [0x53, 0x49, 0x50] @ 0x2F # ys"
      by (auto simp: ascii_def)
    have "takeWhile token (method_print m @ 0x20 # xs) = method_print m"
      using method_wf_token [OF assms] t(1) by (simp add: list_all_iff while_simps)
    moreover have "takeWhile token ([0x53, 0x49, 0x50] @ 0x2F # ys) = [0x53, 0x49, 0x50]" using t by simp
    ultimately have "method_print m = [0x53, 0x49, 0x50]" using ys by simp
    then show False using ys by simp
  qed
  then show ?thesis by (simp add: status_line_parse_def)
qed

text \<open>A reason phrase that a status line can show.\<close>

definition status_line_wf :: "StatusLine \<Rightarrow> bool" where
  "status_line_wf l \<longleftrightarrow> (case sl_reason l of None \<Rightarrow> True | Some r \<Rightarrow> r \<noteq> [] \<and> trim r = r \<and> list_all not_newline r \<and> utf8_valid r)"

lemma trim_hd: "trim r = r \<Longrightarrow> r \<noteq> [] \<Longrightarrow> \<not> is_whitespace (hd r)"
proof
  assume r: "trim r = r" "r \<noteq> []" "is_whitespace (hd r)"
  then have "length (trim_start r) < length r"
    by (cases r) (auto simp: trim_start_def le_imp_less_Suc length_dropWhile_le)
  moreover have "length (trim r) \<le> length (trim_start r)" using trim_start_length [of "rev (trim_start r)"] by (simp add: trim_def)
  ultimately show False using r(1) by simp
qed

lemma status_line_parse_print:
  assumes "status_line_wf l"
  shows "status_line_parse (status_line_print l) = Some ([], l)"
proof -
  have c: "\<not> is_digit 0x20" "whitespace 0x20" by code_simp+
  have ws: "whitespace x \<Longrightarrow> is_whitespace x" for x by (auto simp: whitespace_def is_whitespace_def)
  have d: "dropWhile whitespace (decimal n @ r) = decimal n @ r" for n r
  proof -
    have "\<not> whitespace x" if "is_digit x" for x
      using that by (auto simp: is_digit_def whitespace_def)
    then show ?thesis using decimal_digits [of n] decimal_nonempty [of n] by (cases "decimal n") auto
  qed
  show ?thesis
  proof (cases "sl_reason l")
    case None
    then have "dropWhile whitespace (0x20 # decimal (unat (sl_code l))) = decimal (unat (sl_code l))"
      using d [of _ "[]"] c by simp
    moreover have "trim [] = []" by (simp add: trim_def trim_start_def)
    moreover have "ascii ''SIP/2.0 '' = ascii ''SIP/2.0'' @ [0x20]" by (simp add: ascii_def)
    moreover have dig: "takeWhile is_digit (decimal n) = decimal n" "dropWhile is_digit (decimal n) = []" for n
      using decimal_takeWhile [of "[]" n] by simp_all
    ultimately show ?thesis
      using None u16_from_decimal [of "sl_code l"] by (cases l) (simp add: status_line_parse_def status_line_print_def Let_def dig)
  next
    case (Some r)
    then have r: "r \<noteq> []" "trim r = r" "\<forall>c\<in>set r. not_newline c" using assms by (auto simp: status_line_wf_def list_all_iff)
    have "dropWhile whitespace r = r" using trim_hd [OF r(2,1)] ws r(1) by (cases r) auto
    moreover have nl: "takeWhile not_newline r = r" "dropWhile not_newline r = []" using r(3) by auto
    moreover have "takeWhile is_digit (decimal n @ 0x20 # r) = decimal n" "dropWhile is_digit (decimal n @ 0x20 # r) = 0x20 # r" for n
      using decimal_takeWhile [of "0x20 # r" n] c by simp_all
    moreover have "ascii ''SIP/2.0 '' = ascii ''SIP/2.0'' @ [0x20]" by (simp add: ascii_def)
    ultimately show ?thesis
      using Some r u16_from_decimal [of "sl_code l"] d c
      by (cases l) (simp add: status_line_parse_def status_line_print_def Let_def nl)
  qed
qed

fun message_line_wf :: "MessageLine \<Rightarrow> bool" where
  "message_line_wf (RequestMsg l) \<longleftrightarrow> method_wf (rl_method l) \<and> request_uri_wf (rl_uri l)"
| "message_line_wf (ResponseMsg l) \<longleftrightarrow> status_line_wf l"

lemma message_line_parse_print:
  assumes T: "ip6_text_ok T" and "message_line_wf l"
  shows "message_line_parse T (message_line_print T l) = Some ([], l)"
proof (cases l)
  case (RequestMsg rl)
  then have "status_line_parse (request_line_print T rl) = None"
    using assms(2) request_no_status [of "rl_method rl"] by (simp add: request_line_print_def)
  then show ?thesis using RequestMsg assms request_line_parse_print [OF T, of rl] by (simp add: message_line_parse_def)
next
  case (ResponseMsg sl)
  then show ?thesis using assms(2) status_line_parse_print [of sl] by (simp add: message_line_parse_def)
qed

section \<open>Reading header lines back\<close>

definition header_line :: "Name \<times> bytes \<Rightarrow> bytes" where
  "header_line h = as_print_str (fst h) @ [0x3A, 0x20] @ snd h"

text \<open>
  A header whose line is read as what it was: the name is a token that stands for itself and
  the value neither contains a line break nor starts with a blank.
\<close>

definition header_wf :: "Name \<times> bytes \<Rightarrow> bool" where
  "header_wf h \<longleftrightarrow> as_print_str (fst h) \<noteq> [] \<and> list_all token (as_print_str (fst h)) \<and> name_from_bytes (as_print_str (fst h)) = fst h
     \<and> list_all not_newline (snd h) \<and> ends is_ascii_whitespace (snd h) \<and> utf8_valid (snd h)"

lemma line_parse_print:
  assumes "header_wf h"
  shows "line_parse (header_line h) = Some h"
proof -
  have c: "\<not> token 0x3A" "\<not> is_ascii_whitespace 0x3A" "is_ascii_whitespace 0x20" by code_simp+
  have tw: "\<not> is_ascii_whitespace x" if "token x" for x
    using that token_not_whitespace [of x] by (auto simp: token_def is_alphanumeric_def is_digit_def is_ascii_whitespace_def ascii_def)
  have n: "\<forall>x\<in>set (as_print_str (fst h)). token x" "as_print_str (fst h) \<noteq> []" using assms by (auto simp: header_wf_def list_all_iff)
  have "ws (header_line h) = header_line h"
    using n tw by (intro ws_ends) (cases "as_print_str (fst h)", auto simp: header_line_def)
  moreover have "ws (0x3A # r) = 0x3A # r" for r using c by (intro ws_ends) simp
  moreover have "ws (0x20 # snd h) = snd h" using assms c ws_ends [of "snd h"] by (simp add: header_wf_def ws_def)
  ultimately show ?thesis
    using n c assms by (simp add: line_parse_def header_line_def while_simps header_wf_def Let_def)
qed

lemma header_line_ok: "header_wf h \<Longrightarrow> line_ok (header_line h)"
proof -
  assume h: "header_wf h"
  have "\<not> token 0x20" "\<not> token 0x09" "\<not> token 0x0A" "\<not> token 0x0D" "not_newline 0x3A" "not_newline 0x20" by code_simp+
  then show ?thesis
    using h by (cases "as_print_str (fst h)") (auto simp: header_wf_def line_ok_def header_line_def list_all_iff not_newline_def)
qed

end
