(* ===== verification/Sip_Framing.thy ===== *)
theory Sip_Framing
  imports Sip_Message Stun_Message
begin

text \<open>
  How SIP messages are found in what a transport delivers: a whole datagram
  (\<^verbatim>\<open>sip/sip-core/src/transport/parse.rs\<close>) or a stream that is cut into messages
  (\<^verbatim>\<open>transport/streaming/decode.rs\<close>). A \<open>usize\<close> has 64 bits; an addition that overflows it is
  a panic, which is what happens with and without overflow checks here, because the slice
  that follows a wrapped addition ends before it begins.
\<close>

section \<open>Content-Length\<close>

abbreviation usize_max :: int where "usize_max \<equiv> 2 ^ 64 - 1"

definition usize_from_str :: "bytes \<Rightarrow> nat option" where
  "usize_from_str s =
     (let ds = (case s of c # cs \<Rightarrow> if c = 0x2B then cs else s | [] \<Rightarrow> s) in
      if ds \<noteq> [] \<and> list_all is_digit ds \<and> int (digits_value ds) \<le> usize_max then Some (digits_value ds) else None)"

definition content_length_parse :: "nat parser" where
  "content_length_parse i = map_option (Pair []) (usize_from_str (trim i))"

section \<open>Lines of the head\<close>

text \<open>
  The first line is the message line, the others are headers. A header line that cannot be
  parsed is an error in a datagram and left out in a stream.
\<close>

fun read_lines :: "Ip6Text \<Rightarrow> bool \<Rightarrow> MessageLine option \<Rightarrow> Headers \<Rightarrow> bytes list \<Rightarrow> (MessageLine option \<times> Headers) option" where
  "read_lines T strict message_line headers [] = Some (message_line, headers)"
| "read_lines T strict message_line headers (l # ls) =
     (if \<not> utf8_valid l then None
      else if message_line = None then
        (case message_line_parse T l of
           Some (_, line) \<Rightarrow> read_lines T strict (Some line) headers ls
         | None \<Rightarrow> None)
      else (case line_parse l of
          Some (name, v) \<Rightarrow> read_lines T strict message_line (headers_insert headers name v) ls
        | None \<Rightarrow> if strict then None else read_lines T strict message_line headers ls))"

section \<open>Datagrams\<close>

datatype ParseError = FailedToParse

datatype CompleteItem =
    KeepAliveRequest
  | KeepAliveResponse
  | StunItem Message
  | SipItem MessageLine Headers bytes bytes

definition parse_complete_stun :: "bytes \<Rightarrow> (ParseError, CompleteItem) result" where
  "parse_complete_stun bs = (case message_parse bs of Inl _ \<Rightarrow> Inl FailedToParse | Inr msg \<Rightarrow> Inr (StunItem msg))"

definition datagram_body :: "bytes \<Rightarrow> nat \<Rightarrow> Headers \<Rightarrow> (ParseError, bytes) result panics" where
  "datagram_body buffer he headers =
     (case headers_get headers CONTENT_LENGTH (decode_first content_length_parse) of
        Inr len \<Rightarrow>
          if len = 0 then Some (Inr [])
          else if usize_max < int (he + len) then None
          else if he + len \<le> length buffer then Some (Inr (take len (drop he buffer)))
          else Some (Inl FailedToParse)
      | Inl _ \<Rightarrow> Some (Inr (drop he buffer)))"

definition parse_complete_sip :: "Ip6Text \<Rightarrow> bytes \<Rightarrow> (ParseError, CompleteItem) result panics" where
  "parse_complete_sip T buffer =
     (case pull_lines buffer 0 of (lines, progress, complete) \<Rightarrow>
       (case read_lines T True None [] lines of
          None \<Rightarrow> Some (Inl FailedToParse)
        | Some (message_line, headers) \<Rightarrow>
            if \<not> complete then Some (Inl FailedToParse)
            else map_option (\<lambda>body. bind_res body (\<lambda>body.
                bind_res (ok_or message_line FailedToParse) (\<lambda>line. Inr (SipItem line headers body buffer))))
              (datagram_body buffer (head_end buffer progress) headers)))"

definition parse_complete :: "Ip6Text \<Rightarrow> bytes \<Rightarrow> (ParseError, CompleteItem) result panics" where
  "parse_complete T bs =
     (if bs = [0x0D, 0x0A, 0x0D, 0x0A] then Some (Inr KeepAliveRequest)
      else if bs = [0x0D, 0x0A] then Some (Inr KeepAliveResponse)
      else (case is_stun_message bs of
          TooShort \<Rightarrow> Some (Inl FailedToParse)
        | YesIncomplete _ \<Rightarrow> Some (Inl FailedToParse)
        | Yes len \<Rightarrow> Some (parse_complete_stun (take len bs))
        | No \<Rightarrow> parse_complete_sip T bs))"

section \<open>Streams\<close>

datatype DecodeError = MessageTooLarge | MalformedMessage

record DecodedMessage =
  dm_line :: MessageLine
  dm_headers :: Headers
  dm_body :: bytes
  dm_buffer :: bytes

datatype Item = Decoded DecodedMessage | StreamKeepAliveRequest | StreamKeepAliveResponse

record StreamingDecoder =
  head_progress :: nat

text \<open>The content length of the lines seen, the last one counts.\<close>

fun scan_content_length :: "nat \<Rightarrow> bytes list \<Rightarrow> (DecodeError, nat) result" where
  "scan_content_length content_len [] = Inr content_len"
| "scan_content_length content_len (l # ls) =
     (let name = takeWhile (\<lambda>c. c \<noteq> 0x3A) l; rest = dropWhile (\<lambda>c. c \<noteq> 0x3A) l in
      if list_ex (\<lambda>s. eq_ignore_ascii_case name s) (case as_parse_strs CONTENT_LENGTH of Some ps \<Rightarrow> ps | None \<Rightarrow> [])
      then (case rest of
          [] \<Rightarrow> Inl MalformedMessage
        | _ # v \<Rightarrow>
            if \<not> utf8_valid v then Inl MalformedMessage
            else (case usize_from_str (trim v) of
                None \<Rightarrow> Inl MalformedMessage
              | Some n \<Rightarrow> if int n > 65535 then Inl MessageTooLarge else scan_content_length n ls))
      else scan_content_length content_len ls)"

text \<open>Cutting a complete message out of the buffer and parsing it.\<close>

definition decode_message :: "Ip6Text \<Rightarrow> nat \<Rightarrow> bytes \<Rightarrow> (DecodeError, Item option) result panics" where
  "decode_message T content_len src_bytes =
     (case pull_lines src_bytes 0 of (lines, progress, complete) \<Rightarrow>
       (case read_lines T False None [] lines of
          None \<Rightarrow> Some (Inl MalformedMessage)
        | Some (message_line, headers) \<Rightarrow>
            if \<not> complete then None
            else let he = head_end src_bytes progress in
              if length src_bytes < he + content_len then None
              else Some (case message_line of
                  None \<Rightarrow> Inl MalformedMessage
                | Some line \<Rightarrow> Inr (Some (Decoded \<lparr>dm_line = line, dm_headers = headers,
                    dm_body = take content_len (drop he src_bytes), dm_buffer = src_bytes\<rparr>)))))"

definition stream_decode ::
    "Ip6Text \<Rightarrow> StreamingDecoder \<Rightarrow> bytes \<Rightarrow> ((DecodeError, Item option) result \<times> StreamingDecoder \<times> bytes) panics" where
  "stream_decode T self src =
     (let whitespace_count = length (takeWhile is_ascii_whitespace src); rest = drop whitespace_count src in
      if whitespace_count > 0 \<and> take 4 src = [0x0D, 0x0A, 0x0D, 0x0A] then Some (Inr (Some StreamKeepAliveRequest), self, rest)
      else if whitespace_count > 0 \<and> take 2 src = [0x0D, 0x0A] then Some (Inr (Some StreamKeepAliveResponse), self, rest)
      else if int (length rest) > 65535 then Some (Inl MessageTooLarge, self, [])
      else if length rest < head_progress self then None
      else (case pull_lines rest (head_progress self) of (lines, progress, complete) \<Rightarrow>
        (case scan_content_length 0 lines of
           Inl e \<Rightarrow> Some (Inl e, self, rest)
         | Inr content_len \<Rightarrow>
             if \<not> complete then Some (Inr None, self\<lparr>head_progress := progress\<rparr>, rest)
             else let expected = head_end rest progress + content_len in
               if length rest < expected then Some (Inr None, self, rest)
               else map_option (\<lambda>r. (r, self\<lparr>head_progress := 0\<rparr>, drop expected rest))
                 (decode_message T content_len (take expected rest)))))"

end
