(* ===== verification/Sip_Wire.thy ===== *)
theory Sip_Wire
  imports Sip_Framing
begin

text \<open>
  What one side sends is what the other side receives: a printed message is found and read
  back by the datagram parser and by the stream decoder, and where the framing of streams
  goes wrong.
\<close>

section \<open>Characters\<close>

definition visible :: "u8 \<Rightarrow> bool" where
  "visible c \<longleftrightarrow> 0x21 \<le> c \<and> c \<le> 0x7E"

lemma alphanumeric_visible: "is_alphanumeric c \<Longrightarrow> visible c"
  by (auto simp: is_alphanumeric_def is_digit_def visible_def word_le_nat_alt)

lemma visible_chars:
  "token c \<Longrightarrow> visible c" "user_char c \<Longrightarrow> visible c" "password_char c \<Longrightarrow> visible c" "param_char c \<Longrightarrow> visible c"
  "header_char c \<Longrightarrow> visible c" "host_cont c \<Longrightarrow> visible c" "is_digit c \<Longrightarrow> visible c" "is_ip6_char c \<Longrightarrow> visible c"
proof -
  have lit: "list_all visible (ascii ''-.!%*_~+()&=+$,;?/[]:'' @ [0x27, 0x60])" by code_simp
  show "token c \<Longrightarrow> visible c" "user_char c \<Longrightarrow> visible c" "password_char c \<Longrightarrow> visible c" "param_char c \<Longrightarrow> visible c"
    "header_char c \<Longrightarrow> visible c" "host_cont c \<Longrightarrow> visible c"
    using lit alphanumeric_visible
    by (auto simp: token_def user_char_def password_char_def param_char_def header_char_def host_cont_def label_char_def ascii_def)
  show "is_digit c \<Longrightarrow> visible c" "is_ip6_char c \<Longrightarrow> visible c"
    by (auto simp: is_digit_def is_ip6_char_def hex_val_def visible_def word_le_nat_alt split: if_splits)
qed

lemma visible_text:
  "visible c \<Longrightarrow> not_newline c" "visible c \<Longrightarrow> \<not> blank c" "visible c \<Longrightarrow> c \<le> 0x7F" "visible c \<Longrightarrow> \<not> is_ascii_whitespace c"
  by (auto simp: visible_def not_newline_def is_ascii_whitespace_def word_le_nat_alt)

lemma utf8_append: "\<forall>c\<in>set s. c \<le> 0x7F \<Longrightarrow> utf8_valid (s @ t) \<longleftrightarrow> utf8_valid t"
  by (induction s) auto

lemma decimal_visible: "list_all visible (decimal n)"
  using decimal_digits [of n] visible_chars(7) by (auto simp: list_all_iff)

lemma params_print_visible:
  assumes "\<forall>p\<in>set ps. param_ok S p" "\<forall>c. CHAR_SPEC S c \<longrightarrow> visible c" "\<forall>c. is_alphanumeric c \<longrightarrow> CHAR_SPEC S c"
    "visible (FIRST_DELIMITER S)" "visible (DELIMITER S)"
  shows "list_all visible (params_print S ps)"
proof -
  have "list_all visible (percent_encode (CHAR_SPEC S) s)" if "\<forall>b\<in>set s. byte_safe (CHAR_SPEC S) b" for s
    using encode_set_in [OF _ that] assms(2,3) by (auto simp: list_all_iff)
  moreover have "visible 0x3D" by code_simp
  ultimately have "list_all visible (param_write S p)" if "param_ok S p" for p
    using that by (auto simp: param_write_def param_ok_def list_all_iff split: option.splits)
  then have "\<forall>p\<in>set ps. \<forall>c\<in>set (param_write S p). visible c" using assms(1) by (auto simp: list_all_iff)
  then show ?thesis using assms(4,5) by (cases ps) (auto simp: params_print_def list_all_iff)
qed

lemma uri_print_visible:
  assumes T: "ip6_text_ok T" and u: "uri_wf u"
  shows "list_all visible (uri_print T None meth u)"
proof -
  have lit: "list_all visible (ascii ''sips:'' @ ascii ''sip:'' @ [0x40, 0x3A, 0x5B, 0x5D, 0x2E])" by code_simp
  have "list_all visible (user_print (user_part u))"
    using u encode_user_in visible_chars(2,3) lit
    by (cases "user_part u") (auto simp: uri_wf_def list_all_iff)
  moreover have "list_all visible (hostport_print T None (host_port u))"
  proof -
    have "list_all visible (host_print T (hp_host (host_port u)))"
    proof (cases "hp_host (host_port u)")
      case (HostName s)
      then show ?thesis using u visible_chars(6) by (auto simp: uri_wf_def list_all_iff)
    next
      case (IP4 a)
      then show ?thesis using decimal_visible lit by (auto simp: ip4_print_def to_be_4)
    next
      case (IP6 a)
      then show ?thesis using T visible_chars(8) lit by (auto simp: ip6_text_ok_def list_all_iff)
    qed
    then show ?thesis using decimal_visible lit by (auto simp: hostport_print_def split: option.split)
  qed
  moreover have "list_all visible (params_print CPS (uri_params u))" "list_all visible (params_print HPS (header_params u))"
  proof -
    have v: "visible 0x3B" "visible 0x3F" "visible 0x26" by code_simp+
    have ok: "\<forall>p\<in>set (uri_params u). param_ok CPS p" "\<forall>p\<in>set (header_params u). param_ok HPS p"
      using u by (auto simp: uri_wf_def list_all_iff)
    show "list_all visible (params_print CPS (uri_params u))"
      using v visible_chars(4) cps.alphanumeric_in by (intro params_print_visible [OF ok(1)]) (auto simp: CPS_def)
    show "list_all visible (params_print HPS (header_params u))"
      using v visible_chars(5) hps.alphanumeric_in by (intro params_print_visible [OF ok(2)]) (auto simp: HPS_def)
  qed
  ultimately show ?thesis using lit by (auto simp: uri_print_def)
qed

lemma message_line_text:
  assumes T: "ip6_text_ok T" and l: "message_line_wf l"
  shows "line_ok (message_line_print T l)" "utf8_valid (message_line_print T l)" "visible (hd (message_line_print T l))"
proof -
  have "line_ok (message_line_print T l) \<and> utf8_valid (message_line_print T l) \<and> visible (hd (message_line_print T l))"
  proof (cases l)
    case (RequestMsg rl)
    then have m: "list_all visible (method_print (rl_method rl))" "method_print (rl_method rl) \<noteq> []"
      and u: "list_all visible (uri_print T None (Some (rl_method rl)) (rl_uri rl))"
      using l method_wf_token [of "rl_method rl"] visible_chars(1) uri_print_visible [OF T]
      by (auto simp: list_all_iff request_uri_wf_def)
    have "list_all (\<lambda>c. not_newline c \<and> c \<le> 0x7F) (0x20 # ascii '' SIP/2.0'')" by code_simp
    then have "list_all (\<lambda>c. not_newline c \<and> c \<le> 0x7F) (request_line_print T rl)"
      using m u visible_text by (auto simp: request_line_print_def list_all_iff)
    then show ?thesis
      using RequestMsg m visible_text utf8_ascii
      by (cases "method_print (rl_method rl)") (auto simp: line_ok_def list_all_iff request_line_print_def)
  next
    case (ResponseMsg sl)
    let ?s = "ascii ''SIP/2.0 '' @ decimal (unat (sl_code sl))"
    have "list_all (\<lambda>c. not_newline c \<and> c \<le> 0x7F) (0x20 # ascii ''SIP/2.0 '')" by code_simp
    then have s: "\<forall>c\<in>set ?s. not_newline c \<and> c \<le> 0x7F" "not_newline 0x20"
      using decimal_visible visible_text by (auto simp: list_all_iff)
    have "hd ?s = 0x53" "visible 0x53" by (simp_all add: ascii_def visible_def)
    then show ?thesis
      using ResponseMsg l s utf8_append [of ?s] utf8_append [of ?s "[]"] visible_text(2)
      by (auto simp: status_line_print_def status_line_wf_def line_ok_def list_all_iff ascii_def split: option.splits)
  qed
  then show "line_ok (message_line_print T l)" "utf8_valid (message_line_print T l)" "visible (hd (message_line_print T l))" by auto
qed

section \<open>Headers\<close>

lemma name_eq_refl [simp]: "name_eq n n"
  by (simp add: name_eq_def name_eq_str_def eq_ignore_ascii_case_def)

text \<open>
  A header map whose lines are read back: every name is there once, with its values as
  inserting them leaves them.
\<close>

definition headers_wf :: "Headers \<Rightarrow> bool" where
  "headers_wf h \<longleftrightarrow> list_all header_wf (headers_iter h) \<and> sorted_wrt (\<lambda>a b. \<not> name_eq (en_name a) (en_name b)) h
     \<and> list_all (\<lambda>e. oom_values (en_values e) \<noteq> [] \<and> en_values e = oom_of (oom_values (en_values e))) h"

definition insert_all :: "(Name \<times> bytes) list \<Rightarrow> Headers \<Rightarrow> Headers" where
  "insert_all hs acc = fold (\<lambda>(n, v) d. headers_insert d n v) hs acc"

lemma insert_all_iter:
  assumes "sorted_wrt (\<lambda>a b. \<not> name_eq (en_name a) (en_name b)) h"
    and "list_all (\<lambda>e. oom_values (en_values e) \<noteq> [] \<and> en_values e = oom_of (oom_values (en_values e))) h"
    and "\<forall>e\<in>set h. entry acc (en_name e) = None"
  shows "insert_all (headers_iter h) acc = acc @ h"
  using assms
proof (induction h arbitrary: acc)
  case (Cons e h)
  have "fold (\<lambda>(n, v) d. headers_insert d n v) (map (Pair n) vs) d = fold (\<lambda>v d. headers_insert d n v) vs d" for n vs d
    by (induction vs arbitrary: d) auto
  moreover have "fold (\<lambda>v d. headers_insert d (en_name e) v) (oom_values (en_values e)) acc = acc @ [e]"
    using Cons.prems fold_insert_new [of acc "en_name e" "oom_values (en_values e)"] by (cases e) auto
  moreover have "insert_all (headers_iter h) (acc @ [e]) = (acc @ [e]) @ h"
    using Cons.prems by (intro Cons.IH) (auto simp: entry_append entry_Cons entry_def [of "[]"])
  ultimately show ?case by (simp add: insert_all_def headers_iter_def)
qed (simp add: insert_all_def headers_iter_def)

lemma headers_display_lines: "headers_display h = concat (map (\<lambda>l. l @ CRLF) (map header_line (headers_iter h)))"
  by (simp add: headers_display_def header_line_def comp_def case_prod_unfold)

lemma header_line_utf8: "header_wf h \<Longrightarrow> utf8_valid (header_line h)"
proof -
  assume h: "header_wf h"
  have "\<forall>c\<in>set (as_print_str (fst h) @ [0x3A, 0x20]). c \<le> 0x7F"
    using h visible_chars(1) visible_text(3) by (auto simp: header_wf_def list_all_iff word_le_nat_alt)
  then show ?thesis using h utf8_append [of "as_print_str (fst h) @ [0x3A, 0x20]" "snd h"] by (simp add: header_line_def header_wf_def)
qed

lemma read_lines_headers:
  "list_all header_wf hs \<Longrightarrow> read_lines T strict (Some line) acc (map header_line hs) = Some (Some line, insert_all hs acc)"
  by (induction hs arbitrary: acc) (auto simp: line_parse_print header_line_utf8 insert_all_def)

section \<open>A printed message\<close>

definition message_text :: "Ip6Text \<Rightarrow> MessageLine \<Rightarrow> Headers \<Rightarrow> bytes \<Rightarrow> bytes" where
  "message_text T line h body = message_line_print T line @ CRLF @ headers_display h @ CRLF @ body"

abbreviation message_lines :: "Ip6Text \<Rightarrow> MessageLine \<Rightarrow> Headers \<Rightarrow> bytes list" where
  "message_lines T line h \<equiv> message_line_print T line # map header_line (headers_iter h)"

lemma message_text_head: "message_text T line h body = head_text (message_lines T line h) @ body"
  by (simp add: message_text_def head_text_def headers_display_lines)

lemma message_lines_ok:
  assumes "ip6_text_ok T" "message_line_wf line" "headers_wf h"
  shows "list_all line_ok (message_lines T line h)"
  using message_line_text(1) [OF assms(1,2)] assms(3) header_line_ok by (auto simp: headers_wf_def list_all_iff)

lemma pull_message:
  assumes "ip6_text_ok T" "message_line_wf line" "headers_wf h"
  shows "pull_lines (message_text T line h body) 0 = (message_lines T line h, length (head_text (message_lines T line h)) - 4, True)"
    "head_end (message_text T line h body) (length (head_text (message_lines T line h)) - 4) = length (head_text (message_lines T line h))"
  using pull_lines_head [OF message_lines_ok [OF assms], of "[]" body] head_end_head [of "message_lines T line h" body]
  by (simp_all add: message_text_head)

lemma read_message:
  assumes "ip6_text_ok T" "message_line_wf line" "headers_wf h"
  shows "read_lines T strict None [] (message_lines T line h) = Some (Some line, h)"
proof -
  have "insert_all (headers_iter h) [] = h" using assms(3) insert_all_iter [of h "[]"] by (simp add: headers_wf_def entry_def)
  then show ?thesis
    using assms message_line_text(2) [OF assms(1,2)] message_line_parse_print [OF assms(1,2)] read_lines_headers [of "headers_iter h"]
    by (simp add: headers_wf_def)
qed

section \<open>The content length\<close>

lemma trim_solid: "\<forall>c\<in>set s. \<not> is_whitespace c \<Longrightarrow> trim s = s"
proof -
  assume s: "\<forall>c\<in>set s. \<not> is_whitespace c"
  then have "dropWhile is_whitespace s = s" "dropWhile is_whitespace (rev s) = rev s"
    by (auto simp: dropWhile_eq_self_iff hd_rev)
  then show ?thesis by (simp add: trim_def trim_start_def)
qed

lemma content_length_decimal:
  assumes "int n \<le> usize_max"
  shows "usize_from_str (trim (decimal n)) = Some n" "usize_from_str (trim (0x20 # decimal n)) = Some n"
proof -
  have d: "\<forall>c\<in>set (decimal n). is_digit c \<and> \<not> is_whitespace c"
    using decimal_digits [of n] by (auto simp: is_digit_def is_whitespace_def)
  have t: "trim (decimal n) = decimal n" using d by (intro trim_solid) auto
  have "\<not> is_digit 0x2B" by code_simp
  then have hd: "decimal n = c # cs \<Longrightarrow> c \<noteq> 0x2B" for c cs using d by auto
  show "usize_from_str (trim (decimal n)) = Some n"
    using t hd d assms digits_value_decimal [of n] decimal_nonempty [of n]
    by (cases "decimal n") (auto simp: usize_from_str_def Let_def list_all_iff)
  moreover have "trim_start (0x20 # decimal n) = trim_start (decimal n)" by (simp add: trim_start_def is_whitespace_def)
  then have "trim (0x20 # decimal n) = trim (decimal n)" by (simp add: trim_def)
  ultimately show "usize_from_str (trim (0x20 # decimal n)) = Some n" by simp
qed

definition content_length_name :: "bytes \<Rightarrow> bool" where
  "content_length_name s \<longleftrightarrow> list_ex (\<lambda>p. eq_ignore_ascii_case s p) (case as_parse_strs CONTENT_LENGTH of Some ps \<Rightarrow> ps | None \<Rightarrow> [])"

lemma content_length_name_alt:
  "content_length_name s \<longleftrightarrow> eq_ignore_ascii_case s (ascii ''content-length'') \<or> eq_ignore_ascii_case s (ascii ''l'')"
  by (simp add: content_length_name_def CONTENT_LENGTH_def)

lemma content_length_recognised:
  assumes "content_length_name s"
  shows "name_from_bytes s = CONTENT_LENGTH"
proof -
  have "name_from_bytes s = CONTENT_LENGTH" if "eq_ignore_ascii_case s t" "find (\<lambda>n. list_ex (\<lambda>p. eq_ignore_ascii_case p t)
      (case as_parse_strs n of Some ps \<Rightarrow> ps | None \<Rightarrow> [])) NAMES = Some CONTENT_LENGTH" for t
    using that by (auto simp: name_from_bytes_def eq_ignore_ascii_case_def)
  moreover have "find (\<lambda>n. list_ex (\<lambda>p. eq_ignore_ascii_case p (ascii ''content-length''))
      (case as_parse_strs n of Some ps \<Rightarrow> ps | None \<Rightarrow> [])) NAMES = Some CONTENT_LENGTH"
    "find (\<lambda>n. list_ex (\<lambda>p. eq_ignore_ascii_case p (ascii ''l''))
      (case as_parse_strs n of Some ps \<Rightarrow> ps | None \<Rightarrow> [])) NAMES = Some CONTENT_LENGTH" by code_simp+
  ultimately show ?thesis using assms unfolding content_length_name_alt by metis
qed

lemma scan_other:
  "\<not> content_length_name (takeWhile (\<lambda>c. c \<noteq> 0x3A) l) \<Longrightarrow> scan_content_length n (l # ls) = scan_content_length n ls"
  by (simp add: content_length_name_def Let_def)

lemma name_before_colon:
  assumes "header_wf h"
  shows "takeWhile (\<lambda>c. c \<noteq> 0x3A) (header_line h) = as_print_str (fst h)"
    "dropWhile (\<lambda>c. c \<noteq> 0x3A) (header_line h) = 0x3A # 0x20 # snd h"
proof -
  have "\<not> token 0x3A" by code_simp
  then have "\<forall>c\<in>set (as_print_str (fst h)). c \<noteq> 0x3A" using assms by (auto simp: header_wf_def list_all_iff)
  then show "takeWhile (\<lambda>c. c \<noteq> 0x3A) (header_line h) = as_print_str (fst h)"
    "dropWhile (\<lambda>c. c \<noteq> 0x3A) (header_line h) = 0x3A # 0x20 # snd h"
    by (simp_all add: header_line_def while_simps)
qed

lemma scan_headers:
  assumes "list_all header_wf hs" "\<forall>x\<in>set hs. fst x = CONTENT_LENGTH \<longrightarrow> snd x = decimal k" "k \<le> 65535"
  shows "scan_content_length n (map header_line hs) = Inr (if CONTENT_LENGTH \<in> fst ` set hs then k else n)"
  using assms(1,2)
proof (induction hs arbitrary: n)
  case (Cons x hs)
  then have x: "header_wf x" by simp
  show ?case
  proof (cases "content_length_name (as_print_str (fst x))")
    case True
    then have cl: "fst x = CONTENT_LENGTH" using content_length_recognised x by (simp add: header_wf_def)
    then have v: "snd x = decimal k" using Cons.prems by simp
    have "utf8_valid (0x20 # decimal k)"
      using decimal_visible [of k] visible_text(3) utf8_ascii [of "0x20 # decimal k"] by (simp add: list_all_iff)
    moreover have "usize_from_str (trim (0x20 # decimal k)) = Some k" using assms(3) by (intro content_length_decimal) simp
    ultimately have "scan_content_length n (header_line x # map header_line hs) = scan_content_length k (map header_line hs)"
      using True v assms(3) name_before_colon [OF x] by (simp add: content_length_name_def Let_def)
    then show ?thesis using Cons cl by simp
  next
    case False
    have "content_length_name (as_print_str CONTENT_LENGTH)" by code_simp
    then have "fst x \<noteq> CONTENT_LENGTH" using False by auto
    then show ?thesis using Cons False name_before_colon [OF x] by (auto simp: scan_other simp del: scan_content_length.simps)
  qed
qed simp

lemma message_line_no_length:
  assumes "message_line_wf line"
  shows "\<not> content_length_name (takeWhile (\<lambda>c. c \<noteq> 0x3A) (message_line_print T line))"
proof -
  have sp: "0x20 \<in> set (takeWhile (\<lambda>c. c \<noteq> 0x3A) (s @ 0x20 # r))" if "0x3A \<notin> set s" for s r :: bytes
    using that by (induction s) auto
  have "0x20 \<in> set (takeWhile (\<lambda>c. c \<noteq> 0x3A) (message_line_print T line))"
  proof (cases line)
    case (RequestMsg rl)
    have "\<not> token 0x3A" by code_simp
    then have "0x3A \<notin> set (method_print (rl_method rl))"
      using assms RequestMsg method_wf_token [of "rl_method rl"] by (auto simp: list_all_iff)
    then show ?thesis using sp RequestMsg by (simp add: request_line_print_def)
  next
    case (ResponseMsg sl)
    have "ascii ''SIP/2.0 '' = ascii ''SIP/2.0'' @ [0x20]" "0x3A \<notin> set (ascii ''SIP/2.0'')" by (simp_all add: ascii_def)
    then show ?thesis using sp ResponseMsg by (simp add: status_line_print_def)
  qed
  moreover have "0x20 \<notin> set s" if "content_length_name s" for s
  proof
    assume "0x20 \<in> set s"
    then have "ascii_lower_byte 0x20 \<in> set (map ascii_lower_byte s)" by simp
    then show False using that by (auto simp: content_length_name_alt eq_ignore_ascii_case_def ascii_lower_byte_def ascii_def)
  qed
  ultimately show ?thesis by blast
qed

section \<open>Sent and received\<close>

text \<open>No message starts like a STUN message: the sixth byte of the magic cookie is a control character.\<close>

lemma message_line_sixth:
  assumes T: "ip6_text_ok T" and l: "message_line_wf line"
  shows "5 < length (message_line_print T line)" "message_line_print T line ! 5 \<noteq> 0x12"
proof -
  have "5 < length (message_line_print T line) \<and> message_line_print T line ! 5 \<noteq> 0x12"
  proof (cases line)
    case (RequestMsg rl)
    then have m: "list_all visible (method_print (rl_method rl))"
      and u: "list_all visible (uri_print T None (Some (rl_method rl)) (rl_uri rl))"
      using l method_wf_token [of "rl_method rl"] visible_chars(1) uri_print_visible [OF T]
      by (auto simp: list_all_iff request_uri_wf_def)
    have "list_all (\<lambda>c. c \<noteq> 0x12) (0x20 # ascii '' SIP/2.0'')" "\<not> visible 0x12" by code_simp+
    then have "0x12 \<notin> set (message_line_print T line)"
      using m u RequestMsg by (auto simp: request_line_print_def list_all_iff)
    moreover have len: "5 < length (message_line_print T line)" using RequestMsg by (simp add: request_line_print_def ascii_def)
    ultimately show ?thesis using nth_mem [OF len] by metis
  next
    case (ResponseMsg sl)
    then show ?thesis by (simp add: status_line_print_def ascii_def)
  qed
  then show "5 < length (message_line_print T line)" "message_line_print T line ! 5 \<noteq> 0x12" by auto
qed

lemma not_stun:
  assumes "20 \<le> length i" "i ! 5 \<noteq> 0x12"
  shows "is_stun_message i = No"
proof -
  have "from_be (take 4 (drop 4 i)) \<noteq> COOKIE"
  proof
    assume c: "from_be (take 4 (drop 4 i)) = COOKIE"
    have "to_be 4 (from_be (take 4 (drop 4 i)) :: u32) = take 4 (drop 4 i)"
      using to_be_from_be [of "take 4 (drop 4 i)", where 'a = 32] assms(1) by simp
    then have "to_be 4 COOKIE = take 4 (drop 4 i)" unfolding c .
    moreover have "to_be 4 COOKIE = [0x21, 0x12, 0xA4, 0x42]" by code_simp
    ultimately have "take 4 (drop 4 i) = [0x21, 0x12, 0xA4, 0x42]" by metis
    then have "take 4 (drop 4 i) ! 1 = [0x21, 0x12, 0xA4, 0x42] ! 1" by (rule arg_cong)
    then show False using assms by simp
  qed
  then show ?thesis using assms(1) by (simp add: is_stun_message_def Let_def)
qed

text \<open>The headers of a message as it is sent: the content length comes last.\<close>

definition with_length :: "Headers \<Rightarrow> nat \<Rightarrow> Headers" where
  "with_length h n = h @ [\<lparr>en_name = CONTENT_LENGTH, en_values = One (decimal n)\<rparr>]"

lemma with_length_insert: "entry h CONTENT_LENGTH = None \<Longrightarrow> headers_insert h CONTENT_LENGTH (decimal n) = with_length h n"
  by (simp add: headers_insert_def with_length_def)

lemma parse_complete_message:
  assumes "ip6_text_ok T" "message_line_wf line" "headers_wf (with_length h n)" "entry h CONTENT_LENGTH = None" "int n \<le> usize_max"
    and t: "t = message_text T line (with_length h n) body"
  shows "parse_complete T t = map_option (\<lambda>b. bind_res b (\<lambda>b. Inr (SipItem line (with_length h n) b t)))
      (datagram_body t (length (head_text (message_lines T line (with_length h n)))) (with_length h n))"
    "headers_get (with_length h n) CONTENT_LENGTH (decode_first content_length_parse) = Inr n"
proof -
  let ?h = "with_length h n"
  have line: "5 < length (message_line_print T line)" "message_line_print T line ! 5 \<noteq> 0x12"
    using message_line_sixth [OF assms(1,2)] by auto
  have "length (headers_display ?h) \<ge> 17"
    by (simp add: headers_display_def headers_iter_def with_length_def CONTENT_LENGTH_def ascii_def)
  then have "20 \<le> length t" "t ! 5 \<noteq> 0x12" using line by (simp_all add: t message_text_def nth_append)
  then have "is_stun_message t = No" "t \<noteq> [0x0D, 0x0A, 0x0D, 0x0A]" "t \<noteq> [0x0D, 0x0A]" using not_stun by auto
  then show "parse_complete T t = map_option (\<lambda>b. bind_res b (\<lambda>b. Inr (SipItem line ?h b t)))
      (datagram_body t (length (head_text (message_lines T line ?h))) ?h)"
    using pull_message [OF assms(1-3), of body] read_message [OF assms(1-3)]
    by (simp add: parse_complete_def parse_complete_sip_def t)
  have "values_of ?h CONTENT_LENGTH = [decimal n]" "entry ?h CONTENT_LENGTH \<noteq> None"
    using assms(4) by (simp_all add: values_of_def with_length_def entry_append entry_Cons)
  then show "headers_get ?h CONTENT_LENGTH (decode_first content_length_parse) = Inr n"
    using content_length_decimal(1) [OF assms(5)]
    by (simp add: headers_get_def headers_try_get_def values_of_def content_length_parse_def split: option.splits)
qed

lemma datagram_message:
  assumes "ip6_text_ok T" "message_line_wf line" "headers_wf (with_length h (length body))" "entry h CONTENT_LENGTH = None"
    and "int (length t) \<le> usize_max" and t: "t = message_text T line (with_length h (length body)) body"
  shows "parse_complete T t = Some (Inr (SipItem line (with_length h (length body)) body t))"
proof -
  have b: "int (length body) \<le> usize_max" using assms(5) by (simp add: t message_text_def)
  have "datagram_body t (length (head_text (message_lines T line (with_length h (length body))))) (with_length h (length body)) = Some (Inr body)"
    using parse_complete_message(2) [OF assms(1-4) b t] assms(5) by (auto simp: datagram_body_def t message_text_head)
  then show ?thesis using parse_complete_message(1) [OF assms(1-4) b t] by simp
qed

subsection \<open>Streams in pieces\<close>

lemma scan_others:
  "\<forall>l\<in>set ls. \<not> content_length_name (takeWhile (\<lambda>c. c \<noteq> 0x3A) l) \<Longrightarrow> scan_content_length n (ls @ ms) = scan_content_length n ms"
  by (induction ls) (auto simp: scan_other simp del: scan_content_length.simps)

lemma message_lines_snoc:
  assumes "message_line_wf line" "headers_wf (with_length h n)" "entry h CONTENT_LENGTH = None" "n \<le> 65535"
  shows "\<exists>xs. message_lines T line (with_length h n) = xs @ [header_line (CONTENT_LENGTH, decimal n)]
    \<and> (\<forall>l\<in>set xs. \<not> content_length_name (takeWhile (\<lambda>c. c \<noteq> 0x3A) l))
    \<and> scan_content_length 0 [header_line (CONTENT_LENGTH, decimal n)] = Inr n"
proof -
  let ?xs = "message_line_print T line # map header_line (headers_iter h)"
  have wf: "list_all header_wf (headers_iter h)" "header_wf (CONTENT_LENGTH, decimal n)"
    using assms(2) by (auto simp: headers_wf_def headers_iter_def with_length_def)
  have "fst x \<noteq> CONTENT_LENGTH" if "x \<in> set (headers_iter h)" for x
    using that assms(3) by (auto simp: entry_def find_None_iff headers_iter_def)
  then have "\<not> content_length_name (takeWhile (\<lambda>c. c \<noteq> 0x3A) (header_line x))" if "x \<in> set (headers_iter h)" for x
    using that wf(1) name_before_colon [of x] content_length_recognised [of "as_print_str (fst x)"]
    by (auto simp: list_all_iff header_wf_def)
  moreover have "message_lines T line (with_length h n) = ?xs @ [header_line (CONTENT_LENGTH, decimal n)]"
    by (simp add: headers_iter_def with_length_def)
  moreover have "scan_content_length 0 [header_line (CONTENT_LENGTH, decimal n)] = Inr n"
    using scan_headers [of "[(CONTENT_LENGTH, decimal n)]" n 0] wf(2) assms(4) by simp
  ultimately show ?thesis using message_line_no_length [OF assms(1)] by (intro exI [of _ ?xs]) auto
qed

text \<open>Where the decoder has stopped between two lines of the message.\<close>

definition at_line :: "bytes list \<Rightarrow> nat \<Rightarrow> bool" where
  "at_line ls p \<longleftrightarrow> (\<exists>j < length ls. p = length (lines_text (take j ls)))"

lemma head_text_split: "head_text ls = lines_text (take j ls) @ head_text (drop j ls)"
proof -
  have "lines_text ls = lines_text (take j ls) @ lines_text (drop j ls)"
    by (metis append_take_drop_id concat_append map_append)
  then show ?thesis by (simp add: head_text_def)
qed

lemma stream_start:
  assumes "ip6_text_ok T" "message_line_wf line"
  shows "takeWhile is_ascii_whitespace (take k (message_text T line h body @ rest)) = []"
proof -
  have "message_line_print T line \<noteq> []" using message_line_text(1) [OF assms] by (simp add: line_ok_def)
  then show ?thesis
    using visible_text(4) [OF message_line_text(3) [OF assms]]
    by (cases k; cases "message_line_print T line") (simp_all add: message_text_def)
qed

lemma decode_cut:
  assumes wf: "ip6_text_ok T" "message_line_wf line" "headers_wf (with_length h (length body))" "entry h CONTENT_LENGTH = None"
    and p: "at_line (message_lines T line (with_length h (length body))) p" "p \<le> k"
    and k: "k < length (message_text T line (with_length h (length body)) body)" "k \<le> 65535"
    and body: "length body \<le> 65535"
  shows "\<exists>p'. stream_decode T \<lparr>head_progress = p\<rparr> (take k (message_text T line (with_length h (length body)) body))
      = Some (Inr None, \<lparr>head_progress = p'\<rparr>, take k (message_text T line (with_length h (length body)) body))
    \<and> at_line (message_lines T line (with_length h (length body))) p' \<and> p' \<le> k"
proof -
  define ls where "ls = message_lines T line (with_length h (length body))"
  define t where "t = message_text T line (with_length h (length body)) body"
  obtain xs c where xs: "ls = xs @ [c]" "\<forall>l\<in>set xs. \<not> content_length_name (takeWhile (\<lambda>c. c \<noteq> 0x3A) l)"
    "scan_content_length 0 [c] = Inr (length body)"
    using message_lines_snoc [OF wf(2-4) body] unfolding ls_def by blast
  obtain j where j: "j < length ls" "p = length (lines_text (take j ls))" using p(1) by (auto simp: at_line_def ls_def)
  have ok: "list_all line_ok ls" using message_lines_ok [OF wf(1-3)] by (simp add: ls_def)
  have d: "drop j ls \<noteq> []" "list_all line_ok (drop j ls)" using j(1) ok by (auto simp: list_all_iff dest: in_set_dropD)
  have t: "t = head_text ls @ body" by (simp add: t_def ls_def message_text_head)
  have ws: "takeWhile is_ascii_whitespace (take k t) = []"
    using stream_start [OF wf(1,2), of k _ body "[]"] by (simp add: t_def)
  have len: "length (take k t) = k" "\<not> 65535 < int k" using k by (simp_all add: t_def)
  have "\<exists>p'. stream_decode T \<lparr>head_progress = p\<rparr> (take k t) = Some (Inr None, \<lparr>head_progress = p'\<rparr>, take k t) \<and> at_line ls p' \<and> p' \<le> k"
  proof (cases "k < length (head_text ls)")
    case True
    then have cut: "take k t = lines_text (take j ls) @ take (k - p) (head_text (drop j ls))"
      using p(2) j(2) by (simp add: t head_text_split [of ls j])
    have kp: "k - p < length (head_text (drop j ls))" using True p(2) j(2) by (simp add: head_text_split [of ls j])
    from pull_lines_cut [OF d kp, of "lines_text (take j ls)"] obtain i where i: "i < length (drop j ls)"
      "pull_lines (take k t) p = (take i (drop j ls), p + length (lines_text (take i (drop j ls))), False)"
      "length (lines_text (take i (drop j ls))) \<le> k - p"
      unfolding cut j(2) by auto
    have "set (take i (drop j ls)) \<subseteq> set xs"
      using i(1) xs(1) by (auto dest: in_set_takeD in_set_dropD)
    then have "scan_content_length 0 (take i (drop j ls)) = Inr 0"
      using scan_others [of "take i (drop j ls)" 0 "[]"] xs(2) by auto
    moreover have "p + length (lines_text (take i (drop j ls))) = length (lines_text (take (j + i) ls))"
      using j(2) by (simp add: take_add)
    moreover have "at_line ls (length (lines_text (take (j + i) ls)))"
      unfolding at_line_def using i(1) by (intro exI [of _ "j + i"]) auto
    ultimately show ?thesis
      using i ws len p(2) by (intro exI [of _ "p + length (lines_text (take i (drop j ls)))"])
        (auto simp: stream_decode_def Let_def)
  next
    case False
    define m where "m = k - length (head_text ls)"
    have cut: "take k t = lines_text (take j ls) @ head_text (drop j ls) @ take m body"
      using False by (simp add: t m_def head_text_split [of ls j])
    have "pull_lines (take k t) p = (drop j ls, length (head_text ls) - 4, True)"
      using pull_lines_head [OF d(2,1), of "lines_text (take j ls)" "take m body"] j(2) unfolding cut
      by (simp add: head_text_split [of ls j])
    moreover have "head_end (take k t) (length (head_text ls) - 4) = length (head_text ls)"
      using head_end_head [of ls "take m body"] xs(1) False by (simp add: t m_def)
    moreover have "drop j ls = drop j xs @ [c]" using j(1) xs(1) by simp
    then have "scan_content_length 0 (drop j ls) = Inr (length body)"
      using scan_others [of "drop j xs" 0 "[c]"] xs(2,3) by (auto dest: in_set_dropD)
    moreover have "k < length (head_text ls) + length body" using k(1) by (simp add: t_def [symmetric] t)
    ultimately show ?thesis
      using ws len p j by (intro exI [of _ p]) (auto simp: stream_decode_def Let_def at_line_def)
  qed
  then show ?thesis by (simp add: ls_def t_def)
qed

text \<open>A complete head, read from one of its lines on: the content length is what the rest of the lines say.\<close>

lemma decode_at_line:
  assumes wf: "ip6_text_ok T" "message_line_wf line" "headers_wf h" and ls: "ls = message_lines T line h"
    and j: "j < length ls" and scan: "scan_content_length 0 (drop j ls) = Inr n" "n \<le> length b"
    and t: "t = message_text T line h b" "length t \<le> 65535"
  shows "stream_decode T \<lparr>head_progress = length (lines_text (take j ls))\<rparr> t
    = Some (Inr (Some (Decoded \<lparr>dm_line = line, dm_headers = h, dm_body = take n b, dm_buffer = message_text T line h (take n b)\<rparr>)),
        \<lparr>head_progress = 0\<rparr>, drop n b)"
proof -
  let ?p = "length (lines_text (take j ls))"
  have d: "drop j ls \<noteq> []" "list_all line_ok (drop j ls)"
    using j message_lines_ok [OF wf, folded ls] by (auto simp: list_all_iff dest: in_set_dropD)
  have ht: "t = head_text ls @ b" by (simp add: t ls message_text_head)
  have cut: "t = lines_text (take j ls) @ head_text (drop j ls) @ b" by (simp add: ht head_text_split [of ls j])
  have "pull_lines t ?p = (drop j ls, length (head_text ls) - 4, True)"
    using pull_lines_head [OF d(2,1), of "lines_text (take j ls)" b] unfolding cut by (simp add: head_text_split [of ls j])
  moreover have "head_end t (length (head_text ls) - 4) = length (head_text ls)"
    using head_end_head [of ls b] by (simp add: ht ls)
  moreover have "decode_message T n (head_text ls @ take n b)
      = Some (Inr (Some (Decoded \<lparr>dm_line = line, dm_headers = h, dm_body = take n b, dm_buffer = message_text T line h (take n b)\<rparr>)))"
    using pull_message [OF wf, of "take n b"] read_message [OF wf, of False] scan(2)
    by (simp add: decode_message_def Let_def message_text_head ls)
  moreover have "?p \<le> length t" by (simp add: cut)
  moreover have "takeWhile is_ascii_whitespace t = []"
    using stream_start [OF wf(1,2), of "length t" h b "[]"] by (simp add: t)
  ultimately show ?thesis using scan t(2) by (simp add: stream_decode_def Let_def) (simp add: ht)
qed

lemma decode_full:
  assumes wf: "ip6_text_ok T" "message_line_wf line" "headers_wf (with_length h (length body))" "entry h CONTENT_LENGTH = None"
    and p: "at_line (message_lines T line (with_length h (length body))) p"
    and len: "length (message_text T line (with_length h (length body)) body @ rest) \<le> 65535"
  shows "stream_decode T \<lparr>head_progress = p\<rparr> (message_text T line (with_length h (length body)) body @ rest)
    = Some (Inr (Some (Decoded \<lparr>dm_line = line, dm_headers = with_length h (length body), dm_body = body,
        dm_buffer = message_text T line (with_length h (length body)) body\<rparr>)), \<lparr>head_progress = 0\<rparr>, rest)"
proof -
  define ls where "ls = message_lines T line (with_length h (length body))"
  have body: "length body \<le> 65535" using len by (simp add: message_text_def)
  obtain xs c where xs: "ls = xs @ [c]" "\<forall>l\<in>set xs. \<not> content_length_name (takeWhile (\<lambda>c. c \<noteq> 0x3A) l)"
    "scan_content_length 0 [c] = Inr (length body)"
    using message_lines_snoc [OF wf(2-4) body] unfolding ls_def by blast
  obtain j where j: "j < length ls" "p = length (lines_text (take j ls))" using p by (auto simp: at_line_def ls_def)
  have "drop j ls = drop j xs @ [c]" using j(1) xs(1) by simp
  then have "scan_content_length 0 (drop j ls) = Inr (length body)"
    using scan_others [of "drop j xs" 0 "[c]"] xs(2,3) by (auto dest: in_set_dropD)
  from decode_at_line [OF wf(1-3) ls_def j(1) this, of "body @ rest"] show ?thesis
    using j(2) len by (simp add: message_text_def)
qed

text \<open>
  Feeding the decoder as \<^verbatim>\<open>FramedRead\<close> documents it: what is read is appended to the buffer
  and decoded again as long as there is no item.
\<close>

fun feed :: "Ip6Text \<Rightarrow> StreamingDecoder \<Rightarrow> bytes \<Rightarrow> bytes list \<Rightarrow> ((DecodeError, Item option) result \<times> StreamingDecoder \<times> bytes) panics" where
  "feed T self src [] = Some (Inr None, self, src)"
| "feed T self src (chunk # chunks) =
     (case stream_decode T self (src @ chunk) of
        Some (Inr None, self, src) \<Rightarrow> feed T self src chunks
      | Some (Inr (Some item), self, src) \<Rightarrow> Some (Inr (Some item), self, src @ concat chunks)
      | r \<Rightarrow> r)"

lemma feed_message:
  assumes wf: "ip6_text_ok T" "message_line_wf line" "headers_wf (with_length h (length body))" "entry h CONTENT_LENGTH = None"
    and t: "t = message_text T line (with_length h (length body)) body"
    and p: "at_line (message_lines T line (with_length h (length body))) p" "p \<le> k" "k < length t"
    and chunks: "take k t @ concat chunks = t @ rest" "length (t @ rest) \<le> 65535"
  shows "feed T \<lparr>head_progress = p\<rparr> (take k t) chunks
    = Some (Inr (Some (Decoded \<lparr>dm_line = line, dm_headers = with_length h (length body), dm_body = body, dm_buffer = t\<rparr>)),
        \<lparr>head_progress = 0\<rparr>, rest)"
  using p chunks(1)
proof (induction chunks arbitrary: p k)
  case Nil
  then have "length (take k t) = length (t @ rest)" by simp
  then show ?case using Nil by simp
next
  case (Cons chunk chunks)
  let ?k = "k + length chunk"
  have body: "length body \<le> 65535" using chunks(2) by (simp add: t message_text_def)
  have pre: "take k t @ chunk = take ?k (t @ rest)"
  proof -
    have "length (take k t @ chunk) = ?k" using Cons.prems(3) by simp
    then have "take ?k ((take k t @ chunk) @ concat chunks) = take k t @ chunk" by (metis append_eq_conv_conj)
    moreover have "(take k t @ chunk) @ concat chunks = t @ rest" using Cons.prems(4) by simp
    ultimately show ?thesis by metis
  qed
  show ?case
  proof (cases "?k < length t")
    case True
    then have ck: "take k t @ chunk = take ?k t" using pre by simp
    from decode_cut [OF wf Cons.prems(1) _ _ _ body, of ?k] obtain p' where d:
      "stream_decode T \<lparr>head_progress = p\<rparr> (take ?k t) = Some (Inr None, \<lparr>head_progress = p'\<rparr>, take ?k t)"
      "at_line (message_lines T line (with_length h (length body))) p'" "p' \<le> ?k"
      using True Cons.prems(2) chunks(2) unfolding t by auto
    then have "feed T \<lparr>head_progress = p\<rparr> (take k t) (chunk # chunks) = feed T \<lparr>head_progress = p'\<rparr> (take ?k t) chunks"
      by (simp add: ck)
    moreover have "take ?k t @ concat chunks = t @ rest" using Cons.prems(4) ck by (metis append.assoc concat.simps(2))
    ultimately show ?thesis using Cons.IH [OF d(2,3) True] by simp
  next
    case False
    define rest' where "rest' = take (?k - length t) rest"
    have r1: "take k t @ chunk = t @ rest'" using False pre by (simp add: rest'_def)
    moreover have "(take k t @ chunk) @ concat chunks = t @ rest" using Cons.prems(4) by simp
    ultimately have "rest = rest' @ concat chunks" by simp
    note r = r1 this
    have "length (t @ rest') \<le> 65535" using chunks(2) r(2) by simp
    from decode_full [OF wf Cons.prems(1) this [unfolded t]] show ?thesis using r by (simp add: t)
  qed
qed

section \<open>Properties\<close>

lemma sent_headers:
  assumes "entry h CONTENT_LENGTH = None"
  shows "entry (case ua of Some ua \<Rightarrow> if headers_contains h USER_AGENT then h else headers_insert h USER_AGENT ua | None \<Rightarrow> h) CONTENT_LENGTH = None"
proof -
  have "\<not> name_eq USER_AGENT CONTENT_LENGTH" by code_simp
  moreover have "entry h USER_AGENT = None" if "\<not> headers_contains h USER_AGENT"
    using that by (auto simp: headers_contains_def entry_def find_None_iff)
  ultimately show ?thesis
    using assms by (auto simp: headers_insert_def entry_append entry_Cons entry_def [of "[]"] split: option.split)
qed

lemma sent_request_text:
  assumes "op_buffer (oq_parts m) = []" "entry (oq_headers m) CONTENT_LENGTH = None" "m' = send_outgoing_request env m"
  shows "\<exists>h. entry h CONTENT_LENGTH = None \<and> oq_headers m' = with_length h (length (oq_body m))
    \<and> op_buffer (oq_parts m') = message_text (env_ip6 env) (RequestMsg (oq_line m)) (oq_headers m') (oq_body m)"
  using assms sent_headers [OF assms(2), of "user_agent env"]
  by (auto simp: send_outgoing_request_def Let_def message_text_def with_length_insert)

lemma start_at_line: "at_line (message_lines T line h) 0"
  by (auto simp: at_line_def intro!: exI [of _ 0])

text \<open>
  C3: A request that is sent is received: as a datagram it is parsed into the same request
  line, headers and body; in a stream, however it is cut into pieces, the decoder waits for
  the whole message, delivers it and keeps what follows. The request must be well-formed: its
  URI and headers can be printed unambiguously, and it has no Content-Length of its own.\<close>

theorem sent_request_received:
  assumes T: "ip6_text_ok (env_ip6 env)" and m: "op_buffer (oq_parts m) = []" "entry (oq_headers m) CONTENT_LENGTH = None"
    and wf: "message_line_wf (RequestMsg (oq_line m))" and m': "m' = send_outgoing_request env m" and h: "headers_wf (oq_headers m')"
    and chunks: "concat chunks = op_buffer (oq_parts m') @ rest" "length (concat chunks) \<le> 65535"
  shows "parse_complete (env_ip6 env) (op_buffer (oq_parts m'))
      = Some (Inr (SipItem (RequestMsg (oq_line m)) (oq_headers m') (oq_body m) (op_buffer (oq_parts m'))))
    \<and> feed (env_ip6 env) \<lparr>head_progress = 0\<rparr> [] chunks
      = Some (Inr (Some (Decoded \<lparr>dm_line = RequestMsg (oq_line m), dm_headers = oq_headers m', dm_body = oq_body m,
          dm_buffer = op_buffer (oq_parts m')\<rparr>)), \<lparr>head_progress = 0\<rparr>, rest)"
proof -
  obtain h' where t: "entry h' CONTENT_LENGTH = None" "oq_headers m' = with_length h' (length (oq_body m))"
    "op_buffer (oq_parts m') = message_text (env_ip6 env) (RequestMsg (oq_line m)) (oq_headers m') (oq_body m)"
    using sent_request_text [OF m m'] by blast
  note msg = T wf h [unfolded t(2)] t(1)
  have "op_buffer (oq_parts m') \<noteq> []" by (simp add: t(3) message_text_def)
  then show ?thesis
    using datagram_message [OF msg _ t(3) [unfolded t(2)]] feed_message [OF msg t(3) [unfolded t(2)] start_at_line, of 0 chunks rest] chunks
    by (simp add: t(2))
qed

lemma sent_response_text:
  assumes "op_buffer (or_parts m) = []" "entry (or_headers m) CONTENT_LENGTH = None" "m' = send_outgoing_response m"
  shows "or_headers m' = with_length (or_headers m) (length (or_body m))
    \<and> op_buffer (or_parts m') = message_text T (ResponseMsg (or_line m)) (or_headers m') (or_body m)"
  using assms by (simp add: send_outgoing_response_def Let_def message_text_def with_length_insert)

text \<open>C13: The same of a response.\<close>

theorem sent_response_received:
  assumes T: "ip6_text_ok T" and m: "op_buffer (or_parts m) = []" "entry (or_headers m) CONTENT_LENGTH = None"
    and wf: "message_line_wf (ResponseMsg (or_line m))" and m': "m' = send_outgoing_response m" and h: "headers_wf (or_headers m')"
    and chunks: "concat chunks = op_buffer (or_parts m') @ rest" "length (concat chunks) \<le> 65535"
  shows "parse_complete T (op_buffer (or_parts m'))
      = Some (Inr (SipItem (ResponseMsg (or_line m)) (or_headers m') (or_body m) (op_buffer (or_parts m'))))
    \<and> feed T \<lparr>head_progress = 0\<rparr> [] chunks
      = Some (Inr (Some (Decoded \<lparr>dm_line = ResponseMsg (or_line m), dm_headers = or_headers m', dm_body = or_body m,
          dm_buffer = op_buffer (or_parts m')\<rparr>)), \<lparr>head_progress = 0\<rparr>, rest)"
proof -
  have t: "or_headers m' = with_length (or_headers m) (length (or_body m))"
    "op_buffer (or_parts m') = message_text T (ResponseMsg (or_line m)) (or_headers m') (or_body m)"
    using sent_response_text [OF m m', of T] by blast+
  note msg = T wf h [unfolded t(1)] m(2)
  have "op_buffer (or_parts m') \<noteq> []" by (simp add: t(2) message_text_def)
  then show ?thesis
    using datagram_message [OF msg _ t(2) [unfolded t(1)]] feed_message [OF msg t(2) [unfolded t(1)] start_at_line, of 0 chunks rest] chunks
    by (simp add: t(1))
qed

text \<open>
  A datagram whose content length is so large that the end of the body is no valid
  \<^verbatim>\<open>usize\<close> makes the parser panic, whatever else it contains.\<close>

theorem huge_content_length_panics:
  assumes "ip6_text_ok T" "message_line_wf line" "headers_wf (with_length h n)" "entry h CONTENT_LENGTH = None"
    and "int n \<le> usize_max" "0 < n" "usize_max < int (length (message_text T line (with_length h n) []) + n)"
  shows "parse_complete T (message_text T line (with_length h n) body) = None"
proof -
  let ?t = "message_text T line (with_length h n) body"
  have "length (message_text T line (with_length h n) []) = length (head_text (message_lines T line (with_length h n)))"
    by (simp add: message_text_head)
  then have "datagram_body ?t (length (head_text (message_lines T line (with_length h n)))) (with_length h n) = None"
    using assms(6,7) parse_complete_message(2) [OF assms(1-5) refl] by (simp add: datagram_body_def)
  then show ?thesis using parse_complete_message(1) [OF assms(1-5) refl, of body] by simp
qed

text \<open>
  A line that ends with carriage return and newline, directly followed by another newline
  that starts no line of blanks, makes the stream decoder panic: it takes the head to be
  complete, cuts it off before the second newline, and the second pass finds it incomplete.\<close>

theorem mixed_newline_panics:
  assumes "l \<noteq> []" "list_all not_newline l" "\<not> is_ascii_whitespace (hd l)" "\<not> content_length_name (takeWhile (\<lambda>c. c \<noteq> 0x3A) l)"
    and "x \<noteq> 0x0A" "\<not> blank x" "length l + 4 + length rest \<le> 65535"
  shows "stream_decode T \<lparr>head_progress = 0\<rparr> (l @ [0x0D, 0x0A, 0x0A, x] @ rest) = None"
proof -
  let ?s = "l @ 0x0D # 0x0A # 0x0A # x # rest"
  have l: "\<forall>c\<in>set l. not_newline c" using assms(2) by (simp add: list_all_iff)
  have "pull_next ?s 0 0 = PullLine l (length (l @ CRLF))"
    using pull_next_crlf [OF l, of "0x0A" "[]" x rest] assms(1) by simp
  moreover have "pull_next ?s (length (l @ CRLF)) 0 = PullEnd" using assms(6) by (subst pull_next.simps) simp
  ultimately have "pull_lines ?s 0 = ([l], length (l @ CRLF), True)"
    by (subst pull_lines.simps, simp, subst pull_lines.simps, simp)
  moreover have "head_end ?s (length (l @ CRLF)) = length (l @ CRLF)" using assms(5) by (simp add: head_end_def Let_def)
  moreover have "scan_content_length 0 [l] = Inr 0" using scan_other [OF assms(4), of 0 "[]"] by simp
  moreover have "pull_next (l @ CRLF) 0 0 = PullIncomplete"
    using pull_next_short [OF l, of "length l + 2" "[]" "[]"] by simp
  then have "decode_message T 0 (l @ CRLF) = None"
    by (simp add: decode_message_def pull_lines.simps [of "l @ CRLF"])
  moreover have "takeWhile is_ascii_whitespace ?s = []" using assms(1,3) by (cases l) auto
  ultimately show ?thesis using assms(7) by (simp add: stream_decode_def Let_def)
qed

lemma cut_after_line:
  assumes "list_all line_ok ls" "length (lines_text (take i ls)) + 2 \<le> k" "k < length (head_text ls)"
  shows "\<exists>j. i \<le> j \<and> j < length ls
    \<and> pull_lines (take k (head_text ls)) 0 = (take j ls, length (lines_text (take j ls)), False)"
proof -
  have "ls \<noteq> []" using assms(2,3) by (auto simp: head_text_def)
  from pull_lines_cut [OF this assms(1,3), of "[]"] obtain j where j: "j < length ls"
    "pull_lines (take k (head_text ls)) 0 = (take j ls, length (lines_text (take j ls)), False)"
    "k < length (lines_text (take (Suc j) ls)) + 2" by auto
  have "i \<le> j"
  proof (rule ccontr)
    assume "\<not> i \<le> j"
    then have "take i ls = take (Suc j) ls @ drop (Suc j) (take i ls)" by (metis append_take_drop_id min.absorb1 not_less_eq_eq take_take)
    then have "lines_text (take i ls) = lines_text (take (Suc j) ls) @ lines_text (drop (Suc j) (take i ls))"
      by (metis concat_append map_append)
    then show False using j(3) assms(2) by simp
  qed
  then show ?thesis using j by blast
qed

lemma scan_around_length:
  assumes "message_line_wf line" "headers_wf h" "h = with_length h1 n @ h2" "entry (h1 @ h2) CONTENT_LENGTH = None" "n \<le> 65535"
    and j: "Suc (Suc (length (headers_iter h1))) \<le> j" and ls: "ls = message_lines T line h"
  shows "\<exists>m. scan_content_length 0 (take j ls) = Inr m" "scan_content_length 0 (drop j ls) = Inr 0"
proof -
  let ?hs = "headers_iter h" and ?hs1 = "headers_iter h1" and ?hs2 = "headers_iter h2"
  have iter: "?hs = ?hs1 @ (CONTENT_LENGTH, decimal n) # ?hs2" by (simp add: assms(3) headers_iter_def with_length_def)
  have hwf: "list_all header_wf ?hs" using assms(2) by (simp add: headers_wf_def)
  have "en_name e \<noteq> CONTENT_LENGTH" if "e \<in> set (h1 @ h2)" for e
    using that assms(4) by (auto simp: entry_def find_None_iff)
  then have no: "fst x \<noteq> CONTENT_LENGTH" if "x \<in> set (?hs1 @ ?hs2)" for x
    using that by (auto simp: headers_iter_def)
  have dj: "take j ls = message_line_print T line # map header_line (take (j - 1) ?hs)" "drop j ls = map header_line (drop (j - 1) ?hs)"
    using j by (cases j; simp add: ls take_map drop_map)+
  have cl: "\<forall>x\<in>set ?hs. fst x = CONTENT_LENGTH \<longrightarrow> snd x = decimal n" using no by (auto simp: iter)
  show "\<exists>m. scan_content_length 0 (take j ls) = Inr m"
    using scan_headers [of "take (j - 1) ?hs" n 0] hwf cl assms(5) scan_other [OF message_line_no_length [OF assms(1)]]
    by (auto simp: dj list_all_iff dest: in_set_takeD simp del: scan_content_length.simps)
  have "drop (j - 1) ?hs = drop (j - 1 - Suc (length ?hs1)) ?hs2" using j by (simp add: iter drop_Cons')
  then have "set (drop (j - 1) ?hs) \<subseteq> set ?hs2" by (simp add: set_drop_subset)
  then have "CONTENT_LENGTH \<notin> fst ` set (drop (j - 1) ?hs)" using no by fastforce
  then show "scan_content_length 0 (drop j ls) = Inr 0"
    using scan_headers [of "drop (j - 1) ?hs" n 0] hwf cl assms(5) by (auto simp: dj list_all_iff dest: in_set_dropD)
qed

text \<open>
  C14: The content length that the decoder has read is forgotten when the head arrives in two
  pieces and the second begins after the Content-Length line. If further headers follow
  Content-Length, and the first piece ends anywhere in them, at least two bytes after the
  Content-Length line and before the end of the head, then the decoder delivers the message
  with an empty body and takes its body for the next message.\<close>

theorem split_after_length_loses_body:
  assumes wf: "ip6_text_ok T" "message_line_wf line" "headers_wf h"
    and h: "h = with_length h1 (length body) @ h2" "entry (h1 @ h2) CONTENT_LENGTH = None"
    and len: "length (message_text T line h body) \<le> 65535"
    and k: "length (message_text T line (with_length h1 (length body)) []) \<le> k" "k < length (message_text T line h [])"
  shows "\<exists>s. stream_decode T \<lparr>head_progress = 0\<rparr> (take k (message_text T line h body))
      = Some (Inr None, s, take k (message_text T line h body))
    \<and> stream_decode T s (message_text T line h body)
      = Some (Inr (Some (Decoded \<lparr>dm_line = line, dm_headers = h, dm_body = [], dm_buffer = message_text T line h []\<rparr>)),
          \<lparr>head_progress = 0\<rparr>, body)"
proof -
  define ls where "ls = message_lines T line h"
  define t where "t = message_text T line h body"
  have "message_lines T line (with_length h1 (length body)) = take (Suc (Suc (length (headers_iter h1)))) ls"
    by (simp add: ls_def h(1) headers_iter_def with_length_def)
  then have "length (lines_text (take (Suc (Suc (length (headers_iter h1)))) ls)) + 2 \<le> k" "k < length (head_text ls)"
    using k by (simp_all add: message_text_head ls_def head_text_def)
  from cut_after_line [OF message_lines_ok [OF wf, folded ls_def] this] obtain j where j: "Suc (Suc (length (headers_iter h1))) \<le> j"
    "j < length ls" "pull_lines (take k (head_text ls)) 0 = (take j ls, length (lines_text (take j ls)), False)"
    by blast
  have body: "length body \<le> 65535" using len by (simp add: message_text_def)
  note scan = scan_around_length [OF wf(2,3) h body j(1) ls_def]
  obtain n where n: "scan_content_length 0 (take j ls) = Inr n" using scan(1) by blast
  have tk: "take k t = take k (head_text ls)" using k(2) by (simp add: t_def ls_def message_text_head)
  have "takeWhile is_ascii_whitespace (take k t) = []" using stream_start [OF wf(1,2), of k h body "[]"] by (simp add: t_def)
  then have "stream_decode T \<lparr>head_progress = 0\<rparr> (take k t)
      = Some (Inr None, \<lparr>head_progress = length (lines_text (take j ls))\<rparr>, take k t)"
    using j(3) n len unfolding tk by (simp add: stream_decode_def Let_def t_def) (simp add: ls_def message_text_head)
  then show ?thesis using decode_at_line [OF wf ls_def j(2) scan(2) _ refl len] unfolding t_def by auto
qed

section \<open>Examples\<close>

definition sample_bye :: OutgoingRequest where
  "sample_bye =
     \<lparr>oq_line = \<lparr>rl_method = BYE, rl_uri = uri_new \<lparr>hp_host = HostName (ascii ''b''), hp_port = None\<rparr>\<rparr>,
      oq_headers = [\<lparr>en_name = CALL_ID, en_values = One (ascii ''7'')\<rparr>], oq_body = ascii ''hi'',
      oq_parts = \<lparr>op_transport = udp, op_destination = SockV4 2 9, op_buffer = []\<rparr>\<rparr>"

definition wire_env :: Env where "wire_env = \<lparr>env_ip6 = decimal_ip6, user_agent = None\<rparr>"

lemma headers_wf_with_length:
  assumes "headers_wf h" "entry h CONTENT_LENGTH = None"
  shows "headers_wf (with_length h n)"
proof -
  have "content_length_name (as_print_str CONTENT_LENGTH)" by code_simp
  then have "name_from_bytes (as_print_str CONTENT_LENGTH) = CONTENT_LENGTH" by (rule content_length_recognised)
  moreover have "as_print_str CONTENT_LENGTH \<noteq> [] \<and> list_all token (as_print_str CONTENT_LENGTH)" by code_simp
  moreover have "list_all not_newline (decimal n) \<and> ends is_ascii_whitespace (decimal n) \<and> utf8_valid (decimal n)"
    using decimal_visible [of n] visible_text utf8_ascii [of "decimal n"] by (cases "decimal n") (auto simp: list_all_iff)
  ultimately have "header_wf (CONTENT_LENGTH, decimal n)" by (simp add: header_wf_def)
  moreover have "\<not> name_eq (en_name e) CONTENT_LENGTH" if "e \<in> set h" for e
    using that assms(2) by (auto simp: entry_def find_None_iff)
  ultimately show ?thesis
    using assms(1) by (auto simp: headers_wf_def with_length_def headers_iter_def sorted_wrt_append oom_of_def)
qed

lemma sample_bye_line: "message_line_wf (RequestMsg (oq_line sample_bye))"
  by code_simp

lemma sample_bye_headers: "headers_wf (oq_headers sample_bye)"
  by code_simp

lemma sample_bye_no_length: "entry (oq_headers sample_bye) CONTENT_LENGTH = None"
  by code_simp

lemma sample_bye_sent: "headers_wf (oq_headers (send_outgoing_request wire_env sample_bye))"
  using headers_wf_with_length [OF sample_bye_headers sample_bye_no_length] sample_bye_no_length
  by (simp add: send_outgoing_request_def Let_def wire_env_def with_length_insert) (simp add: sample_bye_def)

lemma sample_bye_length: "length (op_buffer (oq_parts (send_outgoing_request wire_env sample_bye))) = 54"
  by code_simp

lemma sample_bye_buffer: "op_buffer (oq_parts sample_bye) = []"
  by (simp add: sample_bye_def)

lemmas sample_bye_ok = sample_bye_line sample_bye_sent sample_bye_no_length sample_bye_buffer sample_bye_length sample_bye_headers

theorem sent_request_received_witness:
  "feed decimal_ip6 \<lparr>head_progress = 0\<rparr> []
      [take 30 (op_buffer (oq_parts (send_outgoing_request wire_env sample_bye))),
       drop 30 (op_buffer (oq_parts (send_outgoing_request wire_env sample_bye))) @ ascii ''X'']
    = Some (Inr (Some (Decoded \<lparr>dm_line = RequestMsg (oq_line sample_bye), dm_headers = oq_headers (send_outgoing_request wire_env sample_bye),
        dm_body = ascii ''hi'', dm_buffer = op_buffer (oq_parts (send_outgoing_request wire_env sample_bye))\<rparr>)), \<lparr>head_progress = 0\<rparr>, ascii ''X'')"
proof -
  let ?b = "op_buffer (oq_parts (send_outgoing_request wire_env sample_bye))"
  have "ip6_text_ok (env_ip6 wire_env)" using decimal_ip6_ok by (simp add: wire_env_def)
  moreover have "concat [take 30 ?b, drop 30 ?b @ ascii ''X''] = ?b @ ascii ''X''" by simp
  moreover have "length (concat [take 30 ?b, drop 30 ?b @ ascii ''X'']) \<le> 65535" using sample_bye_ok(5) by (simp add: ascii_def)
  ultimately show ?thesis
    using sent_request_received [OF _ sample_bye_ok(4,3,1) refl sample_bye_ok(2), of "[take 30 ?b, drop 30 ?b @ ascii ''X'']" "ascii ''X''"]
    by (simp add: wire_env_def sample_bye_def)
qed

definition sample_reply :: OutgoingResponse where
  "sample_reply =
     \<lparr>or_line = \<lparr>sl_code = 200, sl_reason = Some (ascii ''OK'')\<rparr>, or_headers = oq_headers sample_bye, or_body = [],
      or_parts = \<lparr>op_transport = udp, op_destination = SockV4 2 9, op_buffer = []\<rparr>\<rparr>"

lemma sample_reply_line: "message_line_wf (ResponseMsg (or_line sample_reply))"
  by code_simp

lemma sample_reply_headers: "or_headers sample_reply = oq_headers sample_bye" "op_buffer (or_parts sample_reply) = []"
  by (simp_all add: sample_reply_def)

lemma sample_reply_sent: "headers_wf (or_headers (send_outgoing_response sample_reply))"
  using headers_wf_with_length [OF sample_bye_headers sample_bye_no_length] sample_bye_no_length
  by (simp add: send_outgoing_response_def Let_def sample_reply_headers with_length_insert)

lemma sample_reply_length: "length (op_buffer (or_parts (send_outgoing_response sample_reply))) = 49"
  by code_simp

lemmas sample_reply_ok = sample_reply_line sample_reply_sent sample_bye_no_length [folded sample_reply_headers(1)]
  sample_reply_headers(2) sample_reply_length

theorem sent_response_received_witness:
  "parse_complete decimal_ip6 (op_buffer (or_parts (send_outgoing_response sample_reply)))
    = Some (Inr (SipItem (ResponseMsg (or_line sample_reply)) (or_headers (send_outgoing_response sample_reply)) []
        (op_buffer (or_parts (send_outgoing_response sample_reply)))))"
proof -
  let ?b = "op_buffer (or_parts (send_outgoing_response sample_reply))"
  have "concat [?b] = ?b @ []" "length (concat [?b]) \<le> 65535" using sample_reply_ok(5) by simp_all
  then show ?thesis
    using sent_response_received [OF decimal_ip6_ok sample_reply_ok(4,3,1) refl sample_reply_ok(2), of "[?b]" "[]"]
    by (simp add: sample_reply_def)
qed

theorem huge_content_length_panics_witness:
  "parse_complete decimal_ip6 (message_text decimal_ip6 (RequestMsg (oq_line sample_bye)) (with_length (oq_headers sample_bye) 18446744073709551615) []) = None"
proof -
  have "0 < length (message_text decimal_ip6 (RequestMsg (oq_line sample_bye)) (with_length (oq_headers sample_bye) 18446744073709551615) [])"
    by (simp add: message_text_def)
  then show ?thesis
    using huge_content_length_panics [OF decimal_ip6_ok sample_bye_ok(1) headers_wf_with_length [OF sample_bye_ok(6,3)] sample_bye_ok(3),
        of 18446744073709551615 "[]"] by simp
qed

theorem mixed_newline_panics_witness:
  "stream_decode decimal_ip6 \<lparr>head_progress = 0\<rparr> (ascii ''A'' @ [0x0D, 0x0A, 0x0A, 0x58] @ []) = None"
proof -
  have "list_all not_newline (ascii ''A'')" "\<not> is_ascii_whitespace (hd (ascii ''A''))"
    "\<not> content_length_name (takeWhile (\<lambda>c. c \<noteq> 0x3A) (ascii ''A''))" "ascii ''A'' \<noteq> []" by code_simp+
  then show ?thesis by (intro mixed_newline_panics) (simp_all add: ascii_def)
qed

definition expires_header :: Entry where "expires_header = \<lparr>en_name = Name (ascii ''X-Last'') None, en_values = One (ascii ''1'')\<rparr>"

theorem split_after_length_loses_body_witness:
  "\<exists>s r. stream_decode decimal_ip6 \<lparr>head_progress = 0\<rparr>
        (take 43 (message_text decimal_ip6 (RequestMsg (oq_line sample_bye)) (with_length [] 2 @ [expires_header]) (ascii ''hi'')))
      = Some (Inr None, s, r)
    \<and> stream_decode decimal_ip6 s (message_text decimal_ip6 (RequestMsg (oq_line sample_bye)) (with_length [] 2 @ [expires_header]) (ascii ''hi''))
      = Some (Inr (Some (Decoded \<lparr>dm_line = RequestMsg (oq_line sample_bye), dm_headers = with_length [] 2 @ [expires_header], dm_body = [],
          dm_buffer = message_text decimal_ip6 (RequestMsg (oq_line sample_bye)) (with_length [] 2 @ [expires_header]) []\<rparr>)),
          \<lparr>head_progress = 0\<rparr>, ascii ''hi'')"
proof -
  have wf: "headers_wf (with_length [] 2 @ [expires_header])" "entry ([] @ [expires_header]) CONTENT_LENGTH = None"
    "length (message_text decimal_ip6 (RequestMsg (oq_line sample_bye)) (with_length [] 2 @ [expires_header]) (ascii ''hi'')) = 53"
    "length (message_text decimal_ip6 (RequestMsg (oq_line sample_bye)) (with_length [] 2) []) = 40"
    "length (message_text decimal_ip6 (RequestMsg (oq_line sample_bye)) (with_length [] 2 @ [expires_header]) []) = 51" by code_simp+
  have two: "length (ascii ''hi'') = 2" by code_simp
  then have "with_length [] 2 @ [expires_header] = with_length [] (length (ascii ''hi'')) @ [expires_header]" by simp
  from split_after_length_loses_body [OF decimal_ip6_ok sample_bye_ok(1) wf(1) this wf(2), of 43] wf(3-5) two show ?thesis by auto
qed

end
