(* ===== verification/Ua_Dialog.thy ===== *)
theory Ua_Dialog
  imports Sip_Client_Tsx Sip_Server_Tsx
begin

text \<open>
  Dialogs (\<^verbatim>\<open>sip/sip-ua/src/dialog/\<close>): the dialog and what it creates (\<^verbatim>\<open>mod.rs\<close>), its key
  (\<^verbatim>\<open>key.rs\<close>), the builder of dialogs by a client (\<^verbatim>\<open>client_builder.rs\<close>) and the layer that
  brings requests into the order of their CSeq numbers and hands them to the usages of a
  dialog (\<^verbatim>\<open>layer.rs\<close>).

  The layer is a record that the state of an application extends. The random tags, call ids
  and sequence numbers are arguments, and so are the behaviour of a usage, which is a trait of
  the program, the insertion into a slot map, and the transport that is found for a URI. An
  addition that overflows is a panic, as it is when overflow checks are compiled in.
\<close>

section \<open>Requests\<close>

record Request =
  rq_line :: RequestLine
  rq_headers :: Headers
  rq_body :: bytes

definition request_new :: "SipMethod \<Rightarrow> SipUri \<Rightarrow> Request" where
  "request_new m uri = \<lparr>rq_line = \<lparr>rl_method = m, rl_uri = uri\<rparr>, rq_headers = [], rq_body = []\<rparr>"

record TargetTransportInfo =
  tt_via_host_port :: "HostPort option"
  tt_transport :: "(TpHandle \<times> SocketAddr) option"

definition create_outgoing ::
    "(SipUri \<Rightarrow> (CoreError, TpHandle \<times> SocketAddr) result) \<Rightarrow> Request \<Rightarrow> TargetTransportInfo
     \<Rightarrow> (CoreError, OutgoingRequest \<times> TargetTransportInfo) result" where
  "create_outgoing select_transport request target =
     bind_res (case tt_transport target of Some t \<Rightarrow> Inr t | None \<Rightarrow> select_transport (rl_uri (rq_line request)))
       (\<lambda>(transport, destination). Inr
         (\<lparr>oq_line = rq_line request, oq_headers = rq_headers request, oq_body = rq_body request,
           oq_parts = \<lparr>op_transport = transport, op_destination = destination, op_buffer = []\<rparr>\<rparr>,
          target\<lparr>tt_transport := Some (transport, destination)\<rparr>))"

definition CONTACT :: Name where "CONTACT = Name (ascii ''Contact'') (Some [ascii ''contact'', ascii ''m''])"
definition RECORD_ROUTE :: Name where "RECORD_ROUTE = Name (ascii ''Record-Route'') (Some [ascii ''record-route''])"
definition ROUTE :: Name where "ROUTE = Name (ascii ''Route'') (Some [ascii ''route''])"
definition ALLOW :: Name where "ALLOW = Name (ascii ''Allow'') (Some [ascii ''allow''])"
definition SUPPORTED :: Name where "SUPPORTED = Name (ascii ''Supported'') (Some [ascii ''supported'', ascii ''k''])"
definition NOT_FOUND :: StatusCode where "NOT_FOUND = 404"

text \<open>Several values of a header whose values are joined with commas.\<close>

fun comma_values :: "bytes list \<Rightarrow> Extend panics" where
  "comma_values [] = None"
| "comma_values (v # vs) = Some
     \<lparr>extend_values = (\<lambda>x. fold (\<lambda>v x. extend_values (comma_value v) x) (v # vs) x),
      create_values = fold (\<lambda>v x. extend_values (comma_value v) x) vs (create_values (comma_value v))\<rparr>"

section \<open>Keys\<close>

record DialogKey =
  dk_call_id :: bytes
  dk_peer_tag :: "bytes option"
  dk_local_tag :: bytes

definition key_from_incoming :: "IncomingRequest \<Rightarrow> DialogKey option" where
  "key_from_incoming request =
     (let base = ir_base request in
      map_option (\<lambda>t. \<lparr>dk_call_id = bh_call_id base, dk_peer_tag = ft_tag (bh_from base), dk_local_tag = t\<rparr>)
        (ft_tag (bh_to base)))"

section \<open>The table of dialogs\<close>

record 'u DialogEntry =
  backlog :: "(u32 \<times> IncomingRequest) list"
  next_peer_cseq :: "u32 option"
  usages :: "(nat \<times> 'u) list"

definition checked_succ :: "u32 \<Rightarrow> u32 panics" where
  "checked_succ n = (if n = - 1 then None else Some (n + 1))"

definition entry_new :: "u32 option \<Rightarrow> 'u DialogEntry panics" where
  "entry_new peer_cseq =
     (case peer_cseq of
        None \<Rightarrow> Some \<lparr>backlog = [], next_peer_cseq = None, usages = []\<rparr>
      | Some c \<Rightarrow> map_option (\<lambda>n. \<lparr>backlog = [], next_peer_cseq = Some n, usages = []\<rparr>) (checked_succ c))"

record 'u DialogLayer =
  dialogs :: "DialogKey \<Rightarrow> 'u DialogEntry option"

abbreviation request_cseq :: "IncomingRequest \<Rightarrow> u32" where
  "request_cseq r \<equiv> cseq_num (bh_cseq (ir_base r))"

lemma length_delete_less: "map_of bl k = Some v \<Longrightarrow> length (AList.delete k bl) < length bl"
  by (induction bl) (auto simp: AList.delete_eq le_imp_less_Suc)

text \<open>
  The loop over \<^verbatim>\<open>request_cseq..\<close>: asking the range for its next number computes the one
  after it.
\<close>

function drain_backlog :: "(u32 \<times> IncomingRequest) list \<Rightarrow> u32 \<Rightarrow> (IncomingRequest list \<times> (u32 \<times> IncomingRequest) list) panics" where
  "drain_backlog bl next_cseq =
     Option.bind (checked_succ next_cseq) (\<lambda>following.
       case map_of bl next_cseq of
         None \<Rightarrow> Some ([], bl)
       | Some message \<Rightarrow> map_option (\<lambda>(ms, bl). (message # ms, bl)) (drain_backlog (AList.delete next_cseq bl) following))"
  by pat_completeness auto

termination
  by (relation "measure (\<lambda>(bl, _). length bl)") (auto dest: length_delete_less)

declare drain_backlog.simps [simp del]

text \<open>What becomes of a request: a stored one may replace an earlier one, which is dropped.\<close>

datatype 'u Routed = NotInDialog | Stored "IncomingRequest option" | Deliver "(nat \<times> 'u) list" "IncomingRequest list"

definition entry_receive :: "'u DialogEntry \<Rightarrow> IncomingRequest \<Rightarrow> ('u Routed \<times> 'u DialogEntry) panics" where
  "entry_receive e request =
     (let c = request_cseq request;
          expected = (case next_peer_cseq e of Some n \<Rightarrow> n | None \<Rightarrow> c);
          e = e\<lparr>next_peer_cseq := Some expected\<rparr> in
      if c < expected then Some (Deliver (usages e) [request], e)
      else if c = expected then
        Option.bind (drain_backlog (backlog e) c) (\<lambda>(ms, bl).
          map_option (\<lambda>n. (Deliver (usages e) (request # ms), e\<lparr>backlog := bl, next_peer_cseq := Some n\<rparr>))
            (checked_succ (request_cseq (last (request # ms)))))
      else Some (Stored (map_of (backlog e) c), e\<lparr>backlog := AList.update c request (backlog e)\<rparr>))"

definition dialog_route ::
    "('u, 'z) DialogLayer_scheme \<Rightarrow> IncomingRequest \<Rightarrow> ('u Routed \<times> ('u, 'z) DialogLayer_scheme) panics" where
  "dialog_route self request =
     (case key_from_incoming request of
        None \<Rightarrow> Some (NotInDialog, self)
      | Some key \<Rightarrow>
          (case dialogs self key of
             None \<Rightarrow> Some (NotInDialog, self)
           | Some e \<Rightarrow> map_option (\<lambda>(r, e). (r, self\<lparr>dialogs := (dialogs self)(key \<mapsto> e)\<rparr>)) (entry_receive e request)))"

text \<open>
  Requests are offered to the usages in turn until one takes it; what no usage takes is left
  to the layer.
\<close>

fun offer_usages :: "('u \<Rightarrow> IncomingRequest \<Rightarrow> 's \<Rightarrow> IncomingRequest option \<times> 's) \<Rightarrow> (nat \<times> 'u) list \<Rightarrow> IncomingRequest \<Rightarrow> 's
    \<Rightarrow> IncomingRequest option \<times> 's" where
  "offer_usages receive [] request s = (Some request, s)"
| "offer_usages receive ((_, u) # us) request s =
     (case receive u request s of
        (None, s) \<Rightarrow> (None, s)
      | (Some request, s) \<Rightarrow> offer_usages receive us request s)"

fun distribute :: "('u \<Rightarrow> IncomingRequest \<Rightarrow> 's \<Rightarrow> IncomingRequest option \<times> 's) \<Rightarrow> (IncomingRequest \<Rightarrow> 's \<Rightarrow> 's) \<Rightarrow> (nat \<times> 'u) list
    \<Rightarrow> IncomingRequest list \<Rightarrow> 's \<Rightarrow> 's" where
  "distribute receive unwanted us [] s = s"
| "distribute receive unwanted us (request # requests) s =
     (case offer_usages receive us request s of
        (None, s) \<Rightarrow> distribute receive unwanted us requests s
      | (Some request, s) \<Rightarrow> distribute receive unwanted us requests (unwanted request s))"

text \<open>\<^verbatim>\<open>DialogLayer::receive\<close>: the request if the layer leaves it, and the state after it.\<close>

definition dialog_layer_receive ::
    "('u \<Rightarrow> IncomingRequest \<Rightarrow> ('u, 'z) DialogLayer_scheme \<Rightarrow> IncomingRequest option \<times> ('u, 'z) DialogLayer_scheme)
     \<Rightarrow> (IncomingRequest \<Rightarrow> ('u, 'z) DialogLayer_scheme \<Rightarrow> ('u, 'z) DialogLayer_scheme)
     \<Rightarrow> (IncomingRequest \<Rightarrow> ('u, 'z) DialogLayer_scheme \<Rightarrow> ('u, 'z) DialogLayer_scheme)
     \<Rightarrow> ('u, 'z) DialogLayer_scheme \<Rightarrow> IncomingRequest \<Rightarrow> (IncomingRequest option \<times> ('u, 'z) DialogLayer_scheme) panics" where
  "dialog_layer_receive receive unwanted dropped self request =
     map_option (\<lambda>(r, self).
       case r of
         NotInDialog \<Rightarrow> (Some request, self)
       | Stored None \<Rightarrow> (None, self)
       | Stored (Some old) \<Rightarrow> (None, dropped old self)
       | Deliver us requests \<Rightarrow> (None, distribute receive unwanted us requests self))
     (dialog_route self request)"

text \<open>
  \<^verbatim>\<open>handle_unwanted_request\<close>: the request is answered with 404 and the transaction is driven
  to its end. \<open>sent\<close>, \<open>now\<close> and the wakes are what its transmission and its timers do.
\<close>

datatype Rejection =
    AckDropped
  | InviteRejected "(CoreError, unit) result Async" "transmission list" TsxRegistration
  | RequestRejected "(CoreError, unit) result" "transmission list" Answering

definition dialog_unwanted ::
    "Ip6Text \<Rightarrow> Transactions \<Rightarrow> IncomingRequest \<Rightarrow> bool \<Rightarrow> instant \<Rightarrow> TsxMessage Wake list
     \<Rightarrow> (Rejection \<times> Transactions) panics" where
  "dialog_unwanted T tx request sent now wks =
     (if rl_method (ir_line request) = ACK then Some (AckDropped, drop_request tx request)
      else Option.bind (create_response T request NOT_FOUND None) (\<lambda>response.
        if rl_method (ir_line request) = INVITE then
          Option.bind (server_inv_new request) (\<lambda>(tsx, request).
            map_option (\<lambda>(r, out). (InviteRejected r out (si_registration tsx),
                case r of Ready _ \<Rightarrow> registration_drop tx (si_registration tsx) | _ \<Rightarrow> tx))
              (respond_failure response sent now wks))
        else
          Option.bind (server_new request) (\<lambda>(tsx, request).
            map_option (\<lambda>(r, out, task, tx). (RequestRejected r out task, tx))
              (server_respond tx tsx response sent now))))"

section \<open>Usages\<close>

record UsageGuard =
  ug_dialog_key :: DialogKey
  ug_usage_key :: nat

type_synonym 'u slots = "(nat \<times> 'u) list"

definition register_usage ::
    "('u slots \<Rightarrow> 'u \<Rightarrow> nat \<times> 'u slots) \<Rightarrow> ('u, 'z) DialogLayer_scheme \<Rightarrow> DialogKey \<Rightarrow> 'u
     \<Rightarrow> (UsageGuard \<times> ('u, 'z) DialogLayer_scheme) option" where
  "register_usage slot_insert self key usage =
     map_option (\<lambda>e. case slot_insert (usages e) usage of (k, us) \<Rightarrow>
         (\<lparr>ug_dialog_key = key, ug_usage_key = k\<rparr>, self\<lparr>dialogs := (dialogs self)(key \<mapsto> e\<lparr>usages := us\<rparr>)\<rparr>))
       (dialogs self key)"

definition guard_drop :: "('u, 'z) DialogLayer_scheme \<Rightarrow> UsageGuard \<Rightarrow> ('u, 'z) DialogLayer_scheme" where
  "guard_drop self g =
     (case dialogs self (ug_dialog_key g) of
        None \<Rightarrow> self
      | Some e \<Rightarrow> self\<lparr>dialogs := (dialogs self)(ug_dialog_key g \<mapsto> e\<lparr>usages := AList.delete (ug_usage_key g) (usages e)\<rparr>)\<rparr>)"

section \<open>Dialogs\<close>

record Dialog =
  local_cseq :: u32
  local_fromto :: FromTo
  peer_fromto :: FromTo
  local_contact :: Contact
  peer_contact :: Contact
  dg_call_id :: bytes
  route_set :: "Contact list"
  dg_secure :: bool
  target_tp_info :: TargetTransportInfo

definition dialog_key :: "Dialog \<Rightarrow> DialogKey panics" where
  "dialog_key self =
     map_option (\<lambda>t. \<lparr>dk_call_id = dg_call_id self, dk_peer_tag = ft_tag (peer_fromto self), dk_local_tag = t\<rparr>)
       (ft_tag (local_fromto self))"

definition route_values :: "Ip6Text \<Rightarrow> Headers \<Rightarrow> Contact list" where
  "route_values T headers =
     (case headers_get headers RECORD_ROUTE (decode_vec (contact_parse T)) of Inr rs \<Rightarrow> rs | Inl _ \<Rightarrow> [])"

definition no_target :: TargetTransportInfo where
  "no_target = \<lparr>tt_via_host_port = None, tt_transport = None\<rparr>"

definition new_server ::
    "Ip6Text \<Rightarrow> u32 \<Rightarrow> bytes \<Rightarrow> ('u, 'z) DialogLayer_scheme \<Rightarrow> IncomingRequest \<Rightarrow> Contact
     \<Rightarrow> (HeaderError, Dialog \<times> ('u, 'z) DialogLayer_scheme) result panics" where
  "new_server T random_number random_tag layer request contact =
     (if ft_tag (bh_from (ir_base request)) = None then Some (Inl (Malformed FROM))
      else case headers_get (ir_headers request) CONTACT (decode_first (contact_parse T)) of
        Inl e \<Rightarrow> Some (Inl e)
      | Inr peer \<Rightarrow>
          let dialog = \<lparr>local_cseq = random_number, local_fromto = (bh_to (ir_base request))\<lparr>ft_tag := Some random_tag\<rparr>,
              peer_fromto = bh_from (ir_base request), local_contact = contact, peer_contact = peer,
              dg_call_id = bh_call_id (ir_base request), route_set = route_values T (ir_headers request),
              dg_secure = sips (rl_uri (ir_line request)), target_tp_info = no_target\<rparr> in
          Option.bind (entry_new (Some (request_cseq request))) (\<lambda>e.
            map_option (\<lambda>key. Inr (dialog, layer\<lparr>dialogs := (dialogs layer)(key \<mapsto> e)\<rparr>)) (dialog_key dialog)))"

definition dialog_register_usage ::
    "('u slots \<Rightarrow> 'u \<Rightarrow> nat \<times> 'u slots) \<Rightarrow> ('u, 'z) DialogLayer_scheme \<Rightarrow> Dialog \<Rightarrow> 'u
     \<Rightarrow> (UsageGuard \<times> ('u, 'z) DialogLayer_scheme) panics" where
  "dialog_register_usage slot_insert layer self usage =
     Option.bind (dialog_key self) (\<lambda>key. register_usage slot_insert layer key usage)"

definition dialog_create_request :: "Ip6Text \<Rightarrow> Dialog \<Rightarrow> SipMethod \<Rightarrow> Request \<times> Dialog" where
  "dialog_create_request T self m =
     (let request = request_new m (na_uri (ct_uri (peer_contact self)));
          cseq = \<lparr>cseq_num = local_cseq self, cseq_method = m\<rparr>;
          headers = insert_type (rq_headers request) FROM (replacing_value (from_to_print T None (local_fromto self)));
          headers = insert_type headers TO (replacing_value (from_to_print T None (peer_fromto self)));
          headers = insert_type headers MAX_FORWARDS (replacing_value (decimal 70));
          headers = insert_type headers CALL_ID (replacing_value (dg_call_id self));
          headers = insert_type headers CSEQ (replacing_value (cseq_print cseq));
          headers = (if m = INVITE then insert_type headers CONTACT (comma_value (contact_print T None (local_contact self)))
            else headers);
          headers = (case comma_values (map (routing_print T None) (route_set self)) of
            None \<Rightarrow> headers | Some routes \<Rightarrow> insert_type headers ROUTE routes) in
      (request\<lparr>rq_headers := headers\<rparr>, self\<lparr>local_cseq := local_cseq self + 1\<rparr>))"

record Capabilities =
  allowed :: "SipMethod list"
  supported :: "bytes list"

text \<open>
  The headers that a response to INVITE or SUBSCRIBE gets in a dialog. A list of capabilities
  that is empty cannot be inserted.
\<close>

definition dialog_response_headers ::
    "Ip6Text \<Rightarrow> Capabilities \<Rightarrow> Dialog \<Rightarrow> IncomingRequest \<Rightarrow> StatusCode \<Rightarrow> Headers \<Rightarrow> (HeaderError, Headers) result panics" where
  "dialog_response_headers T caps self request code headers =
     (let headers = (case clone_into (ir_headers request) headers RECORD_ROUTE of Inl _ \<Rightarrow> headers | Inr h \<Rightarrow> h);
          headers = (if (101 \<le> code \<and> code \<le> 399 \<or> code = 485) \<and> \<not> headers_contains headers CONTACT
            then insert_type headers CONTACT (comma_value (contact_print T None (local_contact self))) else headers) in
      Option.bind
        (if 180 \<le> code \<and> code \<le> 189 \<or> 200 \<le> code \<and> code \<le> 299 \<or> code = 405
         then map_option (insert_type headers ALLOW) (comma_values (map method_print (allowed caps)))
         else Some headers)
        (\<lambda>headers.
          if 200 \<le> code \<and> code \<le> 299 then
            (case (if ft_tag (bh_to (ir_base request)) = None
                 then headers_edit headers TO (decode_first (from_to_parse T)) (\<lambda>t. One (from_to_print T None t))
                   (\<lambda>t. t\<lparr>ft_tag := ft_tag (local_fromto self)\<rparr>)
                 else Inr headers) of
               Inl e \<Rightarrow> Some (Inl e)
             | Inr headers \<Rightarrow> map_option (\<lambda>x. Inr (insert_type headers SUPPORTED x)) (comma_values (supported caps)))
          else Some (Inr headers)))"

definition dialog_create_response ::
    "Ip6Text \<Rightarrow> Capabilities \<Rightarrow> Dialog \<Rightarrow> IncomingRequest \<Rightarrow> StatusCode \<Rightarrow> bytes option
     \<Rightarrow> (HeaderError, OutgoingResponse) result panics" where
  "dialog_create_response T caps self request code reason =
     Option.bind (create_response T request code reason) (\<lambda>response.
       if rl_method (ir_line request) \<in> {INVITE, SUBSCRIBE}
       then map_option (\<lambda>r. bind_res r (\<lambda>headers. Inr (response\<lparr>or_headers := headers\<rparr>)))
         (dialog_response_headers T caps self request code (or_headers response))
       else Some (Inr response))"

definition dialog_drop :: "('u, 'z) DialogLayer_scheme \<Rightarrow> Dialog \<Rightarrow> ('u, 'z) DialogLayer_scheme panics" where
  "dialog_drop layer self = map_option (\<lambda>key. layer\<lparr>dialogs := (dialogs layer)(key := None)\<rparr>) (dialog_key self)"

section \<open>Dialogs of a client\<close>

record ClientDialogBuilder =
  cb_local_cseq :: u32
  cb_local_fromto :: FromTo
  cb_peer_fromto :: FromTo
  cb_local_contact :: Contact
  cb_call_id :: bytes
  cb_target :: SipUri
  cb_secure :: bool
  cb_target_tp_info :: TargetTransportInfo

definition builder_new :: "u32 \<Rightarrow> bytes \<Rightarrow> bytes \<Rightarrow> NameAddr \<Rightarrow> Contact \<Rightarrow> SipUri \<Rightarrow> ClientDialogBuilder" where
  "builder_new random_number random_tag random_id local_addr contact target =
     \<lparr>cb_local_cseq = random_number, cb_local_fromto = \<lparr>ft_uri = local_addr, ft_tag = Some random_tag, ft_params = []\<rparr>,
      cb_peer_fromto = \<lparr>ft_uri = \<lparr>na_name = None, na_uri = target\<rparr>, ft_tag = None, ft_params = []\<rparr>,
      cb_local_contact = contact, cb_call_id = random_id, cb_target = target, cb_secure = sips target, cb_target_tp_info = no_target\<rparr>"

definition builder_create_request :: "Ip6Text \<Rightarrow> ClientDialogBuilder \<Rightarrow> SipMethod \<Rightarrow> Request" where
  "builder_create_request T self m =
     (let headers = insert_type [] MAX_FORWARDS (replacing_value (decimal 70));
          headers = insert_type headers FROM (replacing_value (from_to_print T None (cb_local_fromto self)));
          headers = insert_type headers TO (replacing_value (from_to_print T None (cb_peer_fromto self)));
          headers = insert_type headers CALL_ID (replacing_value (cb_call_id self));
          headers = insert_type headers CSEQ (replacing_value (cseq_print \<lparr>cseq_num = cb_local_cseq self, cseq_method = m\<rparr>));
          headers = insert_type headers CONTACT (comma_value (contact_print T None (cb_local_contact self))) in
      \<lparr>rq_line = \<lparr>rl_method = m, rl_uri = cb_target self\<rparr>, rq_headers = headers, rq_body = []\<rparr>)"

definition create_dialog_from_response ::
    "Ip6Text \<Rightarrow> ('u, 'z) DialogLayer_scheme \<Rightarrow> ClientDialogBuilder \<Rightarrow> TsxResponse
     \<Rightarrow> (HeaderError, Dialog \<times> ('u, 'z) DialogLayer_scheme) result panics" where
  "create_dialog_from_response T layer self response =
     (if ft_tag (bh_to (tr_base response)) = None then None
      else case headers_get (tr_headers response) CONTACT (decode_first (contact_parse T)) of
        Inl e \<Rightarrow> Some (Inl e)
      | Inr peer \<Rightarrow>
          let dialog = \<lparr>local_cseq = cb_local_cseq self, local_fromto = cb_local_fromto self,
              peer_fromto = bh_to (tr_base response), local_contact = cb_local_contact self, peer_contact = peer,
              dg_call_id = cb_call_id self, route_set = route_values T (tr_headers response),
              dg_secure = cb_secure self, target_tp_info = cb_target_tp_info self\<rparr> in
          Option.bind (entry_new None) (\<lambda>e.
            map_option (\<lambda>key. Inr (dialog, layer\<lparr>dialogs := (dialogs layer)(key \<mapsto> e)\<rparr>)) (dialog_key dialog)))"

section \<open>Order of requests\<close>

fun route_all :: "('u, 'z) DialogLayer_scheme \<Rightarrow> IncomingRequest list \<Rightarrow> ('u Routed list \<times> ('u, 'z) DialogLayer_scheme) panics" where
  "route_all self [] = Some ([], self)"
| "route_all self (r # rs) =
     Option.bind (dialog_route self r) (\<lambda>(x, self). map_option (\<lambda>(xs, self). (x # xs, self)) (route_all self rs))"

lemma checked_succ_Some: "n \<noteq> - 1 \<Longrightarrow> checked_succ n = Some (n + 1)"
  by (simp add: checked_succ_def)

lemma drain_absent: "map_of bl c = None \<Longrightarrow> c \<noteq> - 1 \<Longrightarrow> drain_backlog bl c = Some ([], bl)"
  by (simp add: drain_backlog.simps checked_succ_Some)

text \<open>A request whose number is not in the backlog is delivered alone or stored.\<close>

definition expected_cseq :: "'u DialogEntry \<Rightarrow> IncomingRequest \<Rightarrow> u32" where
  "expected_cseq e r = (case next_peer_cseq e of Some n \<Rightarrow> n | None \<Rightarrow> request_cseq r)"

lemma entry_receive_absent:
  assumes "map_of (backlog e) (request_cseq r) = None" "request_cseq r \<noteq> - 1"
  shows "entry_receive e r = Some
    (if request_cseq r \<le> expected_cseq e r
     then (Deliver (usages e) [r], e\<lparr>next_peer_cseq := Some (if request_cseq r = expected_cseq e r then request_cseq r + 1 else expected_cseq e r)\<rparr>)
     else (Stored None, e\<lparr>next_peer_cseq := Some (expected_cseq e r), backlog := AList.update (request_cseq r) r (backlog e)\<rparr>))"
  using assms
  by (simp add: entry_receive_def Let_def flip: expected_cseq_def) (auto simp: drain_absent checked_succ_Some)

text \<open>
  Which requests are in turn, given the number that is expected next: the expected one and
  those below it. Only the expected one moves the expectation on.
\<close>

fun in_turn :: "u32 option \<Rightarrow> u32 list \<Rightarrow> bool list" where
  "in_turn n [] = []"
| "in_turn n (c # cs) =
     (let expected = (case n of Some m \<Rightarrow> m | None \<Rightarrow> c) in
      (c \<le> expected) # in_turn (Some (if c = expected then c + 1 else expected)) cs)"

lemma in_turn_length [simp]: "length (in_turn n cs) = length cs"
  by (induction n cs rule: in_turn.induct) (simp_all add: Let_def)

abbreviation routed_as :: "(nat \<times> 'u) list \<Rightarrow> IncomingRequest \<Rightarrow> bool \<Rightarrow> 'u Routed" where
  "routed_as us r b \<equiv> (if b then Deliver us [r] else Stored None)"

lemma entry_receive_turn:
  assumes "map_of (backlog e) (request_cseq r) = None" "request_cseq r \<noteq> - 1"
  shows "\<exists>e1. entry_receive e r = Some (routed_as (usages e) r (request_cseq r \<le> expected_cseq e r), e1) \<and> usages e1 = usages e
    \<and> next_peer_cseq e1 = Some (if request_cseq r = expected_cseq e r then request_cseq r + 1 else expected_cseq e r)
    \<and> map_of (backlog e1) = (if request_cseq r \<le> expected_cseq e r then map_of (backlog e) else (map_of (backlog e))(request_cseq r \<mapsto> r))"
  using entry_receive_absent [OF assms] by (auto simp: update_conv')

lemma route_all_distinct:
  assumes "dialogs self k = Some e" "\<forall>r\<in>set rs. key_from_incoming r = Some k \<and> request_cseq r \<noteq> - 1"
    and "distinct (map request_cseq rs)" "\<forall>r\<in>set rs. map_of (backlog e) (request_cseq r) = None"
  shows "\<exists>self' e'. route_all self rs = Some (map2 (routed_as (usages e)) rs (in_turn (next_peer_cseq e) (map request_cseq rs)), self')
    \<and> dialogs self' k = Some e'
    \<and> list_all2 (\<lambda>r b. b \<or> map_of (backlog e') (request_cseq r) = Some r) rs (in_turn (next_peer_cseq e) (map request_cseq rs))
    \<and> (\<forall>c. c \<notin> request_cseq ` set rs \<longrightarrow> map_of (backlog e') c = map_of (backlog e) c)"
  using assms
proof (induction rs arbitrary: self e)
  case Nil
  then show ?case by simp
next
  case (Cons r rs)
  let ?b = "request_cseq r \<le> expected_cseq e r"
  from entry_receive_turn [of e r] Cons.prems(2,4) obtain e1 where e1: "entry_receive e r = Some (routed_as (usages e) r ?b, e1)" "usages e1 = usages e"
    "next_peer_cseq e1 = Some (if request_cseq r = expected_cseq e r then request_cseq r + 1 else expected_cseq e r)"
    "map_of (backlog e1) = (if ?b then map_of (backlog e) else (map_of (backlog e))(request_cseq r \<mapsto> r))" by auto
  let ?s = "self\<lparr>dialogs := (dialogs self)(k \<mapsto> e1)\<rparr>"
  have step: "dialog_route self r = Some (routed_as (usages e) r ?b, ?s)" using e1(1) Cons.prems(1,2) by (simp add: dialog_route_def)
  have turn: "in_turn (next_peer_cseq e) (map request_cseq (r # rs)) = ?b # in_turn (next_peer_cseq e1) (map request_cseq rs)"
    by (simp add: e1(3) expected_cseq_def Let_def)
  have fresh: "request_cseq r \<notin> request_cseq ` set rs" using Cons.prems(3) by simp
  then have "\<forall>r'\<in>set rs. map_of (backlog e1) (request_cseq r') = None" using Cons.prems(4) by (auto simp: e1(4) image_iff)
  then have "\<exists>self' e'. route_all ?s rs = Some (map2 (routed_as (usages e1)) rs (in_turn (next_peer_cseq e1) (map request_cseq rs)), self')
    \<and> dialogs self' k = Some e'
    \<and> list_all2 (\<lambda>r b. b \<or> map_of (backlog e') (request_cseq r) = Some r) rs (in_turn (next_peer_cseq e1) (map request_cseq rs))
    \<and> (\<forall>c. c \<notin> request_cseq ` set rs \<longrightarrow> map_of (backlog e') c = map_of (backlog e1) c)"
    by (intro Cons.IH) (use Cons.prems(2,3) in auto)
  then obtain self' e' where IH:
    "route_all ?s rs = Some (map2 (routed_as (usages e)) rs (in_turn (next_peer_cseq e1) (map request_cseq rs)), self')" "dialogs self' k = Some e'"
    "list_all2 (\<lambda>r b. b \<or> map_of (backlog e') (request_cseq r) = Some r) rs (in_turn (next_peer_cseq e1) (map request_cseq rs))"
    "\<forall>c. c \<notin> request_cseq ` set rs \<longrightarrow> map_of (backlog e') c = map_of (backlog e1) c"
    unfolding e1(2) by blast
  have "?b \<or> map_of (backlog e') (request_cseq r) = Some r" using IH(4) fresh by (simp add: e1(4))
  moreover have "\<forall>c. c \<notin> request_cseq ` set (r # rs) \<longrightarrow> map_of (backlog e') c = map_of (backlog e) c" using IH(4) by (auto simp: e1(4))
  ultimately show ?case unfolding turn using IH(1-3) step by simp
qed

fun consecutive :: "u32 \<Rightarrow> IncomingRequest list \<Rightarrow> bool" where
  "consecutive n [] \<longleftrightarrow> True"
| "consecutive n (r # rs) \<longleftrightarrow> request_cseq r = n \<and> n \<noteq> - 1 \<and> consecutive (n + 1) rs"

text \<open>
  C21: Requests of a dialog whose CSeq numbers arrive one after the other are delivered to its
  usages at once, each by itself and in the order they arrive.\<close>

theorem consecutive_requests_delivered:
  assumes "dialogs self k = Some e" "backlog e = []" "next_peer_cseq e \<in> {None, Some n}"
    and "\<forall>r\<in>set rs. key_from_incoming r = Some k" "consecutive n rs"
  shows "\<exists>self'. route_all self rs = Some (map (\<lambda>r. Deliver (usages e) [r]) rs, self')"
  using assms
proof (induction rs arbitrary: self e n)
  case Nil
  then show ?case by simp
next
  case (Cons r rs)
  then have step: "entry_receive e r = Some (Deliver (usages e) [r], e\<lparr>next_peer_cseq := Some (n + 1)\<rparr>)" (is "_ = Some (_, ?e)")
    using entry_receive_absent [of e r] by (auto simp: expected_cseq_def)
  have "\<exists>self'. route_all (self\<lparr>dialogs := (dialogs self)(k \<mapsto> ?e)\<rparr>) rs = Some (map (\<lambda>r. Deliver (usages ?e) [r]) rs, self')"
    using Cons.prems by (intro Cons.IH [where n = "n + 1"]) auto
  then show ?case using step Cons.prems(1,4) by (auto simp: dialog_route_def)
qed

text \<open>
  C16: A request that arrives before its turn is never delivered. When requests of a dialog
  arrive with pairwise different CSeq numbers, exactly those that do not exceed the expected
  number are delivered, each by itself when it arrives; every other one is stored and is still
  in the backlog at the end, whatever arrives after it. The loop that empties the backlog starts
  with the number of the request that has just arrived instead of the one after it.\<close>

theorem early_request_never_delivered:
  assumes "dialogs self k = Some e" "backlog e = []"
    and "\<forall>r\<in>set rs. key_from_incoming r = Some k \<and> request_cseq r \<noteq> - 1" "distinct (map request_cseq rs)"
  shows "\<exists>self' e'. route_all self rs = Some (map2 (\<lambda>r b. if b then Deliver (usages e) [r] else Stored None) rs
        (in_turn (next_peer_cseq e) (map request_cseq rs)), self')
    \<and> dialogs self' k = Some e'
    \<and> list_all2 (\<lambda>r b. b \<or> map_of (backlog e') (request_cseq r) = Some r) rs (in_turn (next_peer_cseq e) (map request_cseq rs))"
  using route_all_distinct [OF assms(1,3,4)] assms(2) by fastforce

section \<open>Examples\<close>

definition numbered :: "u32 \<Rightarrow> IncomingRequest" where
  "numbered n = (sample_request sample_via)\<lparr>ir_base := (ir_base (sample_request sample_via))\<lparr>bh_cseq := \<lparr>cseq_num = n, cseq_method = BYE\<rparr>\<rparr>\<rparr>"

definition sample_dialog_key :: DialogKey where
  "sample_dialog_key = \<lparr>dk_call_id = [], dk_peer_tag = Some (ascii ''77''), dk_local_tag = ascii ''77''\<rparr>"

definition sample_layer :: "nat DialogLayer" where
  "sample_layer = \<lparr>dialogs = [sample_dialog_key \<mapsto> \<lparr>backlog = [], next_peer_cseq = Some 2, usages = [(0, 0)]\<rparr>]\<rparr>"

lemma numbered_key: "key_from_incoming (numbered n) = Some sample_dialog_key" "request_cseq (numbered n) = n"
  by (simp_all add: numbered_def sample_request_def key_from_incoming_def sample_from_def sample_dialog_key_def)

theorem consecutive_requests_delivered_witness:
  "\<exists>self'. route_all sample_layer [numbered 2, numbered 3] = Some ([Deliver [(0, 0)] [numbered 2], Deliver [(0, 0)] [numbered 3]], self')"
  using consecutive_requests_delivered [of sample_layer sample_dialog_key "\<lparr>backlog = [], next_peer_cseq = Some 2, usages = [(0, 0)]\<rparr>" 2 "[numbered 2, numbered 3]"]
  by (simp add: numbered_key sample_layer_def)

theorem early_request_never_delivered_witness:
  "\<exists>self' e'. route_all sample_layer [numbered 3, numbered 2, numbered 4] = Some ([Stored None, Deliver [(0, 0)] [numbered 2], Stored None], self')
    \<and> dialogs self' sample_dialog_key = Some e' \<and> map_of (backlog e') 3 = Some (numbered 3) \<and> map_of (backlog e') 4 = Some (numbered 4)"
proof -
  let ?rs = "[numbered 3, numbered 2, numbered 4]" and ?e = "\<lparr>backlog = [], next_peer_cseq = Some 2, usages = [(0, 0)]\<rparr> :: nat DialogEntry"
  have turn: "in_turn (Some 2) (map request_cseq ?rs) = [False, True, False]" by (simp add: numbered_key)
  have "dialogs sample_layer sample_dialog_key = Some ?e" "\<forall>r\<in>set ?rs. key_from_incoming r = Some sample_dialog_key \<and> request_cseq r \<noteq> - 1"
    "distinct (map request_cseq ?rs)" by (simp_all add: sample_layer_def numbered_key)
  from early_request_never_delivered [OF this(1) _ this(2,3)] turn show ?thesis by (simp add: numbered_key)
qed

end
