(* ===== verification/Ua_Timer.thy ===== *)
theory Ua_Timer
  imports Ua_Dialog
begin

text \<open>
  The \<^verbatim>\<open>timer\<close> extension: the headers \<^verbatim>\<open>Session-Expires\<close> and \<^verbatim>\<open>Min-SE\<close>
  (\<^verbatim>\<open>sip/sip-types/src/header/typed/timer.rs\<close>) and the session timer of a user agent
  (\<^verbatim>\<open>sip/sip-ua/src/invite/timer.rs\<close>), with the decision a session takes when its timer
  elapses (\<^verbatim>\<open>invite/session.rs\<close>). A sleep is the instant at which it ends.
\<close>

section \<open>Headers\<close>

definition SESSION_EXPIRES :: Name where
  "SESSION_EXPIRES = Name (ascii ''Session-Expires'') (Some [ascii ''session-expires'', ascii ''x''])"
definition MIN_SE :: Name where "MIN_SE = Name (ascii ''Min-SE'') (Some [ascii ''min-se''])"
definition REQUIRE :: Name where "REQUIRE = Name (ascii ''Require'') (Some [ascii ''require''])"

definition u32_from_str :: "bytes \<Rightarrow> u32 option" where
  "u32_from_str s =
     (let ds = (case s of c # cs \<Rightarrow> if c = 0x2B then cs else s | [] \<Rightarrow> s) in
      if ds \<noteq> [] \<and> list_all is_digit ds then u32_from_digits ds else None)"

text \<open>A header that holds one number (\<^verbatim>\<open>from_str_header\<close>).\<close>

definition number_header_parse :: "u32 parser" where
  "number_header_parse i = map_option (Pair []) (u32_from_str (trim i))"

definition number_header_print :: "u32 \<Rightarrow> bytes" where
  "number_header_print n = decimal (unat n)"

datatype Refresher = RefresherUnspecified | RefresherUas | RefresherUac

record SessionExpires =
  se_delta_secs :: u32
  se_refresher :: Refresher

definition refresher_of :: "bytes option \<Rightarrow> Refresher" where
  "refresher_of v =
     (if v = Some (ascii ''uas'') then RefresherUas
      else if v = Some (ascii ''uac'') then RefresherUac
      else RefresherUnspecified)"

definition session_expires_parse :: "SessionExpires parser" where
  "session_expires_parse i =
     (let i = ws i; n = takeWhile is_alphanumeric i in
      if n = [] then None
      else case u32_from_str n of
        None \<Rightarrow> None
      | Some delta_secs \<Rightarrow>
          (case params_parse CPS (ws (dropWhile is_alphanumeric i)) of (rest, params) \<Rightarrow>
            Some (rest, \<lparr>se_delta_secs = delta_secs, se_refresher = refresher_of (fst (params_take params (ascii ''refresher'')))\<rparr>)))"

fun refresher_print :: "Refresher \<Rightarrow> bytes" where
  "refresher_print RefresherUnspecified = []"
| "refresher_print RefresherUas = ascii '';refresher=uas''"
| "refresher_print RefresherUac = ascii '';refresher=uac''"

definition session_expires_print :: "SessionExpires \<Rightarrow> bytes" where
  "session_expires_print self = decimal (unat (se_delta_secs self)) @ refresher_print (se_refresher self)"

section \<open>Timers\<close>

datatype RefreshInterval = UnsupportedInterval | Sleeping instant

record SessionTimer =
  st_refresher :: Refresher
  real_delta_secs :: u32
  st_interval :: RefreshInterval

definition timer_sleep :: "instant \<Rightarrow> u32 \<Rightarrow> RefreshInterval" where
  "timer_sleep now secs = Sleeping (now + from_secs (unat secs))"

definition new_unsupported :: SessionTimer where
  "new_unsupported = \<lparr>st_refresher = RefresherUnspecified, real_delta_secs = 0, st_interval = UnsupportedInterval\<rparr>"

text \<open>\<^verbatim>\<open>wait\<close>: the instant at which it returns, if it does.\<close>

fun timer_wait :: "SessionTimer \<Rightarrow> instant option" where
  "timer_wait self = (case st_interval self of UnsupportedInterval \<Rightarrow> None | Sleeping t \<Rightarrow> Some t)"

definition timer_reset :: "instant \<Rightarrow> SessionTimer \<Rightarrow> SessionTimer" where
  "timer_reset now self =
     (case st_interval self of
        UnsupportedInterval \<Rightarrow> self
      | Sleeping _ \<Rightarrow> self\<lparr>st_interval := timer_sleep now (real_delta_secs self)\<rparr>)"

definition populate_refresh :: "SessionTimer \<Rightarrow> Request \<Rightarrow> Request" where
  "populate_refresh self request =
     (case st_interval self of
        UnsupportedInterval \<Rightarrow> request
      | Sleeping _ \<Rightarrow> request\<lparr>rq_headers :=
          headers_insert (headers_insert (rq_headers request) SUPPORTED (ascii ''timer'')) REQUIRE (ascii ''timer'')\<rparr>)"

record AcceptorTimerConfig =
  at_refresher :: Refresher
  interval_secs :: u32

definition acceptor_default :: AcceptorTimerConfig where
  "acceptor_default = \<lparr>at_refresher = RefresherUac, interval_secs = 1800\<rparr>"

definition on_responding_success ::
    "instant \<Rightarrow> AcceptorTimerConfig \<Rightarrow> OutgoingResponse \<Rightarrow> IncomingRequest
     \<Rightarrow> SessionTimer \<times> AcceptorTimerConfig \<times> OutgoingResponse" where
  "on_responding_success now self response invite =
     (let delta_secs = (case headers_get (ir_headers invite) MIN_SE (decode_first number_header_parse) of
            Inr min_se \<Rightarrow> max min_se (interval_secs self)
          | Inl _ \<Rightarrow> interval_secs self);
          (real, refresher) = (case at_refresher self of
            RefresherUas \<Rightarrow> (delta_secs div 2, RefresherUas)
          | _ \<Rightarrow> (delta_secs, RefresherUac));
          self = self\<lparr>at_refresher := refresher\<rparr>;
          headers = insert_type (or_headers response) REQUIRE (comma_value (ascii ''timer''));
          headers = insert_type headers SESSION_EXPIRES
            (replacing_value (session_expires_print \<lparr>se_delta_secs = delta_secs, se_refresher = refresher\<rparr>)) in
      (\<lparr>st_refresher = refresher, real_delta_secs = real, st_interval = timer_sleep now real\<rparr>, self, response\<lparr>or_headers := headers\<rparr>))"

record InitiatorTimerConfig =
  expires_secs :: "u32 option"
  it_refresher :: Refresher
  expires_secs_min :: u32

definition populate_request :: "InitiatorTimerConfig \<Rightarrow> Request \<Rightarrow> Request" where
  "populate_request self request =
     (let headers = rq_headers request;
          headers = (case expires_secs self of
            Some secs \<Rightarrow> insert_type headers SESSION_EXPIRES
              (replacing_value (session_expires_print \<lparr>se_delta_secs = secs, se_refresher = it_refresher self\<rparr>))
          | None \<Rightarrow> headers);
          headers = headers_insert headers SUPPORTED (ascii ''timer'');
          headers = insert_type headers MIN_SE (replacing_value (number_header_print (expires_secs_min self))) in
      request\<lparr>rq_headers := headers\<rparr>)"

definition create_timer_from_response :: "instant \<Rightarrow> TsxResponse \<Rightarrow> (HeaderError, SessionTimer) result" where
  "create_timer_from_response now response =
     (case headers_try_get (tr_headers response) SESSION_EXPIRES (decode_first session_expires_parse) of
        None \<Rightarrow> Inr new_unsupported
      | Some r \<Rightarrow> bind_res r (\<lambda>se.
          let (real, refresher) = (case se_refresher se of
              RefresherUas \<Rightarrow> (se_delta_secs se, RefresherUas)
            | _ \<Rightarrow> (se_delta_secs se div 2, RefresherUac)) in
          Inr \<lparr>st_refresher = refresher, real_delta_secs = real, st_interval = timer_sleep now real\<rparr>))"

section \<open>When the timer elapses\<close>

datatype SessionRole = Uac | Uas

datatype TimerAction = Refresh | EndSession

text \<open>\<^verbatim>\<open>handle_session_timer\<close>: a timer without a refresher is \<^verbatim>\<open>unreachable!()\<close>.\<close>

fun timer_action :: "SessionRole \<Rightarrow> Refresher \<Rightarrow> TimerAction panics" where
  "timer_action _ RefresherUnspecified = None"
| "timer_action Uac RefresherUac = Some Refresh"
| "timer_action Uas RefresherUas = Some Refresh"
| "timer_action Uac RefresherUas = Some EndSession"
| "timer_action Uas RefresherUac = Some EndSession"

section \<open>Properties\<close>

lemma u32_from_str_decimal: "u32_from_str (decimal (unat w)) = Some w"
proof -
  have d: "decimal (unat w) \<noteq> []" "\<forall>c\<in>set (decimal (unat w)). is_digit c" using decimal_digits decimal_nonempty by auto
  have "\<not> is_digit 0x2B" by code_simp
  then have "hd (decimal (unat w)) \<noteq> 0x2B" using d by (metis hd_in_set)
  then have "(case decimal (unat w) of [] \<Rightarrow> decimal (unat w) | c # cs \<Rightarrow> if c = 0x2B then cs else decimal (unat w)) = decimal (unat w)"
    using d(1) by (cases "decimal (unat w)") auto
  then show ?thesis using d u32_from_decimal [of w] by (simp add: u32_from_str_def Let_def list_all_iff)
qed

lemma refresher_read:
  "\<exists>params. params_parse CPS (refresher_print x) = ([], params) \<and> refresher_of (fst (params_take params (ascii ''refresher''))) = x"
proof -
  have "fst (params_parse CPS (refresher_print x)) = [] \<and> refresher_of (fst (params_take (snd (params_parse CPS (refresher_print x))) (ascii ''refresher''))) = x"
    by (cases x; hypsubst; code_simp)
  then show ?thesis by (metis prod.collapse)
qed

lemma session_expires_parse_print: "session_expires_parse (session_expires_print se) = Some ([], se)"
proof -
  let ?d = "decimal (unat (se_delta_secs se))"
  have d: "?d \<noteq> []" "\<forall>c\<in>set ?d. is_alphanumeric c" using decimal_digits decimal_nonempty by (auto simp: is_alphanumeric_def)
  have r: "ends is_alphanumeric (refresher_print (se_refresher se))" "ends is_ascii_whitespace (refresher_print (se_refresher se))"
    by (cases "se_refresher se"; simp; code_simp)+
  have "\<not> is_ascii_whitespace c" if "is_alphanumeric c" for c
    using that by (auto simp: is_ascii_whitespace_def is_alphanumeric_def is_digit_def)
  then have "ends is_ascii_whitespace (session_expires_print se)"
    using d by (cases ?d) (auto simp: session_expires_print_def)
  then have w: "ws (session_expires_print se) = session_expires_print se" by (rule ws_ends)
  have "takeWhile is_alphanumeric (session_expires_print se) = ?d" "dropWhile is_alphanumeric (session_expires_print se) = refresher_print (se_refresher se)"
    using d(2) r(1) by (simp_all add: session_expires_print_def while_simps)
  then show ?thesis
    using d(1) w ws_ends [OF r(2)] refresher_read [of "se_refresher se"] u32_from_str_decimal
    by (auto simp: session_expires_parse_def Let_def)
qed

lemma insert_replacing_values:
  "name_eq n n \<Longrightarrow> values_of (insert_type h n (replacing_value v)) n = [v]"
  by (auto simp: insert_type_def replacing_value_def values_of_def entry_append entry_Cons entry_update_first split: option.split)

lemma timer_names: "name_eq SESSION_EXPIRES SESSION_EXPIRES"
  by code_simp

text \<open>A timer has a refresher exactly if it ever elapses.\<close>

definition timer_wf :: "SessionTimer \<Rightarrow> bool" where
  "timer_wf t \<longleftrightarrow> (st_refresher t = RefresherUnspecified \<longleftrightarrow> st_interval t = UnsupportedInterval)"

text \<open>
  C27: A session timer, however it was created and however often it was reset, has a refresher
  whenever it can elapse. So when it elapses the session knows what to do: it refreshes the
  session or ends it, and never runs into the case that is marked unreachable.\<close>

theorem session_timer_never_stuck:
  assumes "t = new_unsupported \<or> t = fst (on_responding_success now config response invite)
      \<or> create_timer_from_response now rsp = Inr t"
  shows "timer_wf t \<and> timer_wf (timer_reset now' t)
    \<and> (timer_wait (timer_reset now' t) = None \<or> timer_action role (st_refresher (timer_reset now' t)) \<noteq> None)"
proof -
  have "timer_wf t"
    using assms
    by (auto simp: timer_wf_def new_unsupported_def on_responding_success_def create_timer_from_response_def Let_def timer_sleep_def res_iff
        split: Refresher.splits prod.splits option.splits) (metis Refresher.exhaust)+
  moreover from this have "timer_wf (timer_reset now' t)"
    by (auto simp: timer_wf_def timer_reset_def timer_sleep_def split: RefreshInterval.splits)
  moreover have "timer_action role x \<noteq> None" if "x \<noteq> RefresherUnspecified" for x
    using that by (cases role; cases x) auto
  ultimately show ?thesis by (auto simp: timer_wf_def split: RefreshInterval.splits)
qed

text \<open>
  C20: The two ends of a session agree on who refreshes it and when. The response of the server
  tells the client what the server's timer is set to: exactly one of the two is to refresh,
  it does so after half of the time after which the other one ends the session, and that time
  is not below the minimum that the INVITE asked for.\<close>

theorem session_timers_agree:
  assumes "on_responding_success now config response invite = (ts, config', response')" "tr_headers rsp = or_headers response'"
  shows "\<exists>tc. create_timer_from_response now' rsp = Inr tc \<and> st_refresher tc = st_refresher ts
    \<and> (st_refresher ts = RefresherUas \<and> timer_action Uas RefresherUas = Some Refresh \<and> timer_action Uac RefresherUas = Some EndSession
         \<and> real_delta_secs ts = real_delta_secs tc div 2
       \<or> st_refresher ts = RefresherUac \<and> timer_action Uac RefresherUac = Some Refresh \<and> timer_action Uas RefresherUac = Some EndSession
         \<and> real_delta_secs tc = real_delta_secs ts div 2)
    \<and> interval_secs config \<le> max (real_delta_secs ts) (real_delta_secs tc)
    \<and> (\<forall>min_se. headers_get (ir_headers invite) MIN_SE (decode_first number_header_parse) = Inr min_se \<longrightarrow>
         min_se \<le> max (real_delta_secs ts) (real_delta_secs tc))"
proof -
  obtain delta where d: "or_headers response' = insert_type (insert_type (or_headers response) REQUIRE (comma_value (ascii ''timer''))) SESSION_EXPIRES
      (replacing_value (session_expires_print \<lparr>se_delta_secs = delta, se_refresher = st_refresher ts\<rparr>))"
    "st_refresher ts = RefresherUas \<and> real_delta_secs ts = delta div 2 \<or> st_refresher ts = RefresherUac \<and> real_delta_secs ts = delta"
    "interval_secs config \<le> delta"
    "\<forall>min_se. headers_get (ir_headers invite) MIN_SE (decode_first number_header_parse) = Inr min_se \<longrightarrow> min_se \<le> delta"
    using assms(1) by (auto simp: on_responding_success_def Let_def split: prod.splits Refresher.splits sum.splits)
  have "values_of (tr_headers rsp) SESSION_EXPIRES = [session_expires_print \<lparr>se_delta_secs = delta, se_refresher = st_refresher ts\<rparr>]"
    unfolding assms(2) d(1) by (rule insert_replacing_values [OF timer_names])
  then have "headers_try_get (tr_headers rsp) SESSION_EXPIRES (decode_first session_expires_parse)
      = Some (Inr \<lparr>se_delta_secs = delta, se_refresher = st_refresher ts\<rparr>)"
    by (auto simp: headers_try_get_def values_of_def session_expires_parse_print split: option.splits)
  moreover have "delta div 2 \<le> delta" by (simp add: word_le_nat_alt unat_div)
  ultimately show ?thesis
    using d(2-4) by (auto simp: create_timer_from_response_def max_def)
qed

section \<open>Examples\<close>

definition timer_response :: OutgoingResponse where
  "timer_response = snd (snd (on_responding_success 0 acceptor_default (sample_response 200) (sample_request sample_via)))"

definition timer_reply :: TsxResponse where
  "timer_reply = \<lparr>tr_tp_info = rm_tp_info (sample_message []), tr_line = \<lparr>sl_code = 200, sl_reason = None\<rparr>,
     tr_base = ir_base (sample_request sample_via), tr_headers = or_headers timer_response, tr_body = []\<rparr>"

definition sample_timer :: SessionTimer where
  "sample_timer = fst (on_responding_success 0 acceptor_default (sample_response 200) (sample_request sample_via))"

theorem session_timer_never_stuck_witness:
  "\<exists>act. timer_wf sample_timer \<and> timer_wf (timer_reset 3 sample_timer) \<and> timer_wait (timer_reset 3 sample_timer) = Some (3 + from_secs 1800)
    \<and> timer_action Uas (st_refresher (timer_reset 3 sample_timer)) = Some act"
proof -
  have "timer_wait (timer_reset 3 sample_timer) = Some (3 + from_secs 1800)"
    by (simp add: sample_timer_def on_responding_success_def acceptor_default_def sample_request_def headers_get_values entry_def Let_def
        timer_reset_def timer_sleep_def)
  then show ?thesis
    using session_timer_never_stuck [of sample_timer 0 acceptor_default "sample_response 200" "sample_request sample_via" timer_reply 3 Uas]
    by (simp add: sample_timer_def)
qed

theorem session_timers_agree_witness:
  "\<exists>tc. create_timer_from_response 0 timer_reply = Inr tc \<and> st_refresher tc = RefresherUac \<and> real_delta_secs tc = 900"
proof -
  obtain ts config' where r: "on_responding_success 0 acceptor_default (sample_response 200) (sample_request sample_via) = (ts, config', timer_response)"
    by (metis timer_response_def prod.collapse)
  then have ts: "st_refresher ts = RefresherUac" "real_delta_secs ts = 1800"
    by (auto simp: on_responding_success_def acceptor_default_def sample_request_def headers_get_values entry_def Let_def)
  have "tr_headers timer_reply = or_headers timer_response" by (simp add: timer_reply_def)
  from session_timers_agree [OF r this, of 0] ts show ?thesis by auto
qed

end
