(* ===== verification/Ua_Invite.thy ===== *)
theory Ua_Invite
  imports Ua_Timer
begin

text \<open>
  INVITE sessions (\<^verbatim>\<open>sip/sip-ua/src/invite/\<close>): the state that the objects of a session share,
  the layer that handles CANCEL and the usage that handles requests of the dialog
  (\<^verbatim>\<open>mod.rs\<close>, \<^verbatim>\<open>prack.rs\<close>), the acceptor of an INVITE (\<^verbatim>\<open>acceptor.rs\<close>) and the session
  (\<^verbatim>\<open>session.rs\<close>).

  The shared states, the one-shot channels and the event channels are found by their address
  in the state of the user agent; a usage of a dialog is the address of the shared state.
  Where the program drives transactions to their end, the definitions return the replies to be
  given; waiting consumes wakes as in the transactions. A handler that has to wait for room in
  a full channel is \<open>Blocked\<close>, in the state that it has reached until then. The lock on the state of a session, which an acceptor holds while
  it waits for an ACK or a PRACK, only delays other operations and is left out: whatever they
  do in the program they can do here, and possibly earlier.
\<close>

section \<open>Shared state\<close>

record AwaitedAck =
  aa_cseq :: u32
  ack_sender :: nat

record AwaitedPrack =
  prack_sender :: nat
  ap_cseq :: u32
  ap_rack :: u32

datatype InviteSessionState =
    UasProvisional Dialog ServerInvTsx IncomingRequest
  | Cancelled
  | Established nat
  | SessionTerminated

text \<open>The notification that the INVITE was cancelled is a flag of the state it belongs to.\<close>

record Inner =
  in_state :: InviteSessionState
  peer_supports_timer :: bool
  peer_supports_100rel :: bool
  awaited_ack :: "AwaitedAck option"
  awaited_prack :: "AwaitedPrack option"
  cancelled_notify :: bool

definition set_cancelled :: "Inner \<Rightarrow> (Dialog \<times> ServerInvTsx \<times> IncomingRequest) option \<times> Inner" where
  "set_cancelled self =
     (case in_state self of
        UasProvisional dialog tsx invite \<Rightarrow> (Some (dialog, tsx, invite), self\<lparr>in_state := Cancelled, cancelled_notify := True\<rparr>)
      | _ \<Rightarrow> (None, self))"

definition set_established :: "Inner \<Rightarrow> nat \<Rightarrow> (Dialog \<times> ServerInvTsx \<times> IncomingRequest) option \<times> Inner" where
  "set_established self evt_sink =
     (case in_state self of
        UasProvisional dialog tsx invite \<Rightarrow> (Some (dialog, tsx, invite), self\<lparr>in_state := Established evt_sink\<rparr>)
      | _ \<Rightarrow> (None, self))"

definition set_terminated :: "Inner \<Rightarrow> InviteSessionState \<times> Inner" where
  "set_terminated self = (in_state self, self\<lparr>in_state := SessionTerminated\<rparr>)"

datatype UsageEvent = ReInvite IncomingRequest | ByeReceived IncomingRequest

datatype Oneshot = Awaiting | Delivered IncomingRequest | ReceiverDropped | SenderDropped

record CancellableKey =
  ck_cseq :: u32
  ck_branch :: bytes

text \<open>A channel whose receiver is gone has no queue.\<close>

record UserAgent = "nat DialogLayer" +
  inners :: "nat \<Rightarrow> Inner option"
  cancellables :: "CancellableKey \<Rightarrow> nat option"
  oneshots :: "nat \<Rightarrow> Oneshot"
  event_queues :: "nat \<Rightarrow> UsageEvent list option"
  next_address :: nat

definition put_inner :: "nat \<Rightarrow> Inner \<Rightarrow> UserAgent \<Rightarrow> UserAgent" where
  "put_inner a i ua = ua\<lparr>inners := (inners ua)(a \<mapsto> i)\<rparr>"

definition oneshot_send :: "nat \<Rightarrow> IncomingRequest \<Rightarrow> UserAgent \<Rightarrow> IncomingRequest option \<times> UserAgent" where
  "oneshot_send c request ua =
     (if oneshots ua c = Awaiting then (None, ua\<lparr>oneshots := (oneshots ua)(c := Delivered request)\<rparr>)
      else (Some request, ua))"

definition oneshot_drop_sender :: "nat \<Rightarrow> UserAgent \<Rightarrow> UserAgent" where
  "oneshot_drop_sender c ua =
     (if oneshots ua c = Awaiting then ua\<lparr>oneshots := (oneshots ua)(c := SenderDropped)\<rparr> else ua)"

definition oneshot_drop_receiver :: "nat \<Rightarrow> UserAgent \<Rightarrow> UserAgent" where
  "oneshot_drop_receiver c ua = ua\<lparr>oneshots := (oneshots ua)(c := ReceiverDropped)\<rparr>"

definition events_drop_receiver :: "nat \<Rightarrow> UserAgent \<Rightarrow> UserAgent" where
  "events_drop_receiver q ua = ua\<lparr>event_queues := (event_queues ua)(q := None)\<rparr>"

datatype ('s, 'a) Handled = Blocked 's | Done 'a

definition event_send :: "nat \<Rightarrow> UsageEvent \<Rightarrow> UserAgent \<Rightarrow> (UserAgent, bool \<times> UserAgent) Handled" where
  "event_send c evt ua =
     (case event_queues ua c of
        None \<Rightarrow> Done (False, ua)
      | Some q \<Rightarrow> if length q < 4 then Done (True, ua\<lparr>event_queues := (event_queues ua)(c \<mapsto> q @ [evt])\<rparr>) else Blocked ua)"

section \<open>Replies\<close>

datatype Reply = FailInvite ServerInvTsx OutgoingResponse | AnswerRequest ServerTsx OutgoingResponse

definition OK_STATUS :: StatusCode where "OK_STATUS = 200"
definition REQUEST_TERMINATED :: StatusCode where "REQUEST_TERMINATED = 487"

text \<open>
  \<^verbatim>\<open>handle_cancel\<close>: a CANCEL that matches no INVITE is left to the endpoint. A dialog that is
  handed out is dropped when the replies are given.
\<close>

definition handle_cancel ::
    "Ip6Text \<Rightarrow> Capabilities \<Rightarrow> UserAgent \<Rightarrow> IncomingRequest
     \<Rightarrow> ((HeaderError, Reply list) result \<times> IncomingRequest option \<times> UserAgent) panics" where
  "handle_cancel T caps ua cancel =
     (let key = \<lparr>ck_cseq = request_cseq cancel, ck_branch = key_branch (ir_tsx_key cancel)\<rparr> in
      case cancellables ua key of
        None \<Rightarrow> Some (Inr [], Some cancel, ua)
      | Some a \<Rightarrow>
          let ua = ua\<lparr>cancellables := (cancellables ua)(key := None)\<rparr> in
          Option.bind (server_new cancel) (\<lambda>(cancel_tsx, cancel).
          Option.bind (inners ua a) (\<lambda>inner.
            case set_cancelled inner of
              (Some (dialog, invite_tsx, invite), inner) \<Rightarrow>
                let ua = put_inner a inner ua in
                Option.bind (dialog_create_response T caps dialog invite REQUEST_TERMINATED None) (\<lambda>invite_response.
                Option.bind (case invite_response of
                    Inl e \<Rightarrow> Some (Inl e)
                  | Inr ir \<Rightarrow> map_option (\<lambda>cancel_response. bind_res cancel_response (\<lambda>cr.
                        Inr [FailInvite invite_tsx ir, AnswerRequest cancel_tsx cr]))
                      (dialog_create_response T caps dialog cancel OK_STATUS None)) (\<lambda>replies.
                map_option (\<lambda>ua. (replies, None, ua)) (dialog_drop ua dialog)))
            | (None, inner) \<Rightarrow>
                map_option (\<lambda>response. (Inr [AnswerRequest cancel_tsx response], None, ua))
                  (create_response T cancel OK_STATUS None))))"

definition RACK :: Name where "RACK = Name (ascii ''RAck'') (Some [ascii ''rack''])"
definition RSEQ :: Name where "RSEQ = Name (ascii ''RSeq'') (Some [ascii ''rseq''])"

record RAck =
  ra_rack :: u32
  ra_cseq :: u32
  ra_method :: SipMethod

definition rack_print :: "RAck \<Rightarrow> bytes" where
  "rack_print self = decimal (unat (ra_rack self)) @ [0x20] @ decimal (unat (ra_cseq self)) @ [0x20] @ method_print (ra_method self)"

definition digits_parse :: "u32 parser" where
  "digits_parse i =
     (if takeWhile is_digit i = [] then None
      else map_option (Pair (dropWhile is_digit i)) (u32_from_digits (takeWhile is_digit i)))"

definition rack_parse :: "RAck parser" where
  "rack_parse i = do {
     (i, rack) \<leftarrow> digits_parse (ws i);
     (i, cseq) \<leftarrow> digits_parse (ws i);
     (i, m) \<leftarrow> method_parse (ws i);
     Some (i, \<lparr>ra_rack = rack, ra_cseq = cseq, ra_method = m\<rparr>) }"

text \<open>
  \<^verbatim>\<open>handle_prack\<close>: the awaited PRACK is taken out before its header is read, and put back
  only if the numbers do not match. The request is moved into the channel, or dropped if
  nobody waits for it any more.
\<close>

definition handle_prack ::
    "Ip6Text \<Rightarrow> nat \<Rightarrow> IncomingRequest \<Rightarrow> UserAgent
     \<Rightarrow> ((HeaderError, Reply list) result \<times> IncomingRequest option \<times> UserAgent) panics" where
  "handle_prack T a request ua =
     Option.bind (inners ua a) (\<lambda>inner.
       case awaited_prack inner of
         None \<Rightarrow> Some (Inr [], Some request, ua)
       | Some awaited \<Rightarrow>
           (case headers_get (ir_headers request) RACK (decode_first rack_parse) of
              Inl e \<Rightarrow> Some (Inl e, Some request,
                oneshot_drop_sender (prack_sender awaited) (put_inner a (inner\<lparr>awaited_prack := None\<rparr>) ua))
            | Inr rack \<Rightarrow>
                if ap_rack awaited = ra_rack rack \<and> ap_cseq awaited = ra_cseq rack then
                  Option.bind (server_new request) (\<lambda>(tsx, prack).
                    map_option (\<lambda>response. (Inr [AnswerRequest tsx response], None,
                        snd (oneshot_send (prack_sender awaited) prack (put_inner a (inner\<lparr>awaited_prack := None\<rparr>) ua))))
                      (create_response T prack OK_STATUS None))
                else Some (Inr [], Some request, ua)))"

definition handle_bye_in_provisional_state ::
    "Ip6Text \<Rightarrow> Capabilities \<Rightarrow> UserAgent \<Rightarrow> Dialog \<Rightarrow> ServerInvTsx \<Rightarrow> IncomingRequest \<Rightarrow> IncomingRequest
     \<Rightarrow> ((HeaderError, Reply list) result \<times> UserAgent) panics" where
  "handle_bye_in_provisional_state T caps ua dialog invite_tsx invite bye =
     Option.bind (dialog_create_response T caps dialog invite OK_STATUS None) (\<lambda>bye_response.
     Option.bind (case bye_response of
         Inl e \<Rightarrow> Some (Inl e)
       | Inr br \<Rightarrow>
           Option.bind (server_new bye) (\<lambda>(bye_tsx, bye).
             map_option (\<lambda>invite_response. bind_res invite_response (\<lambda>ir.
                 Inr [FailInvite invite_tsx ir, AnswerRequest bye_tsx br]))
               (dialog_create_response T caps dialog invite REQUEST_TERMINATED None))) (\<lambda>replies.
     map_option (Pair replies) (dialog_drop ua dialog)))"

text \<open>
  \<^verbatim>\<open>InviteUsage::receive\<close>: the replies to give, the request if it was not taken, and the
  state after it. Errors are logged.
\<close>

definition usage_receive ::
    "Ip6Text \<Rightarrow> Capabilities \<Rightarrow> nat \<Rightarrow> IncomingRequest \<Rightarrow> UserAgent \<Rightarrow> (UserAgent, Reply list \<times> IncomingRequest option \<times> UserAgent) Handled panics" where
  "usage_receive T caps a request ua =
     Option.bind (inners ua a) (\<lambda>inner.
       case rl_method (ir_line request) of
         INVITE \<Rightarrow>
           (case in_state inner of
              Established evt_sink \<Rightarrow> Some
                (case event_send evt_sink (ReInvite request) ua of
                   Blocked ua \<Rightarrow> Blocked ua
                 | Done (sent, ua) \<Rightarrow> Done ([], if sent then None else Some request, ua))
            | _ \<Rightarrow> Some (Done ([], Some request, ua)))
       | ACK \<Rightarrow>
           (case awaited_ack inner of
              None \<Rightarrow> Some (Done ([], Some request, ua))
            | Some awaited \<Rightarrow>
                if aa_cseq awaited = request_cseq request
                then (case oneshot_send (ack_sender awaited) request (put_inner a (inner\<lparr>awaited_ack := None\<rparr>) ua) of
                    (back, ua) \<Rightarrow> Some (Done ([], back, ua)))
                else Some (Done ([], Some request, ua)))
       | BYE \<Rightarrow>
           (case set_terminated inner of
              (UasProvisional dialog tsx invite, inner) \<Rightarrow>
                map_option (\<lambda>(r, ua). Done (case r of Inl _ \<Rightarrow> [] | Inr replies \<Rightarrow> replies, None, ua))
                  (handle_bye_in_provisional_state T caps (put_inner a (inner\<lparr>cancelled_notify := True\<rparr>) ua) dialog tsx invite request)
            | (Established evt_sink, inner) \<Rightarrow> Some
                (case event_send evt_sink (ByeReceived request) (put_inner a inner ua) of
                   Blocked ua \<Rightarrow> Blocked ua
                 | Done (sent, ua) \<Rightarrow> Done ([], if sent then None else Some request, ua))
            | (_, inner) \<Rightarrow> Some (Done ([], Some request, put_inner a inner ua)))
       | PRACK \<Rightarrow>
           if peer_supports_100rel inner
           then map_option (\<lambda>(r, back, ua). Done (case r of Inl _ \<Rightarrow> [] | Inr replies \<Rightarrow> replies, back, ua)) (handle_prack T a request ua)
           else Some (Done ([], Some request, ua))
       | _ \<Rightarrow> Some (Done ([], Some request, ua)))"

section \<open>Waiting for ACK and PRACK\<close>

text \<open>What a receiver that waits on a one-shot channel sees.\<close>

fun oneshot_poll :: "Oneshot \<Rightarrow> IncomingRequest option option" where
  "oneshot_poll (Delivered r) = Some (Some r)"
| "oneshot_poll SenderDropped = Some None"
| "oneshot_poll _ = None"

fun receive_ack_loop ::
    "nat \<Rightarrow> Accepted \<Rightarrow> duration \<Rightarrow> instant \<Rightarrow> IncomingRequest option Wake list
     \<Rightarrow> ((CoreError, IncomingRequest) result Async \<times> transmission list) panics" where
  "receive_ack_loop 0 accepted delta start wks = Some (Ready (Inl RequestTimedOut), [])"
| "receive_ack_loop (Suc n) accepted delta start [] = Some (Pending, [])"
| "receive_ack_loop (Suc n) accepted delta start (w # wks) =
     (if \<not> wait_ok None (start + delta) start w then Some (NotPossible, [])
      else case wk_outcome w of
        Got (Some ack) \<Rightarrow> Some (Ready (Inr ack), [])
      | Got None \<Rightarrow> None
      | _ \<Rightarrow>
          (case accepted_retransmit accepted (wk_sent w) of
             (Inl e, accepted, out) \<Rightarrow> Some (Ready (Inl e), out)
           | (Inr _, accepted, out) \<Rightarrow> map_option (\<lambda>(r, out'). (r, out @ out'))
               (receive_ack_loop n accepted (min (T1 * 2) T2) (wk_done w) wks)))"

definition receive_ack :: "Accepted \<Rightarrow> instant \<Rightarrow> IncomingRequest option Wake list
    \<Rightarrow> ((CoreError, IncomingRequest) result Async \<times> transmission list) panics" where
  "receive_ack accepted start wks = receive_ack_loop 9 accepted T1 start wks"

fun prack_loop ::
    "nat \<Rightarrow> OutgoingResponse \<Rightarrow> duration \<Rightarrow> instant \<Rightarrow> IncomingRequest option Wake list
     \<Rightarrow> ((CoreError, IncomingRequest option) result Async \<times> transmission list) panics" where
  "prack_loop 0 response delta start wks = Some (Ready (Inr None), [])"
| "prack_loop (Suc n) response delta start [] = Some (Pending, [])"
| "prack_loop (Suc n) response delta start (w # wks) =
     (if \<not> wait_ok None (start + delta) start w then Some (NotPossible, [])
      else case wk_outcome w of
        Got (Some prack) \<Rightarrow> Some (Ready (Inr (Some prack)), [])
      | Got None \<Rightarrow> None
      | _ \<Rightarrow>
          Option.bind (respond_provisional response (wk_sent w)) (\<lambda>(r, response, out).
            case r of
              Inl e \<Rightarrow> Some (Ready (Inl e), out)
            | Inr _ \<Rightarrow> map_option (\<lambda>(r, out'). (r, out @ out')) (prack_loop n response (T1 * 2) (wk_done w) wks)))"

section \<open>Acceptor\<close>

datatype AcceptorError = CoreFault CoreError | RequestTerminated

record InviteAcceptor =
  ia_inner :: nat
  ia_key :: CancellableKey
  ia_cancelled :: bool
  ia_guard :: "UsageGuard option"
  ia_timer_config :: AcceptorTimerConfig

text \<open>One item of a list that is separated by commas (\<^verbatim>\<open>csv_header\<close>).\<close>

definition csv_parse :: "bytes parser" where
  "csv_parse i = Some (dropWhile (\<lambda>c. c \<noteq> 0x2C) i, takeWhile (\<lambda>c. c \<noteq> 0x2C) i)"

definition supported_extensions :: "Headers \<Rightarrow> bytes list" where
  "supported_extensions headers = (case headers_get headers SUPPORTED (decode_vec csv_parse) of Inr xs \<Rightarrow> xs | Inl _ \<Rightarrow> [])"

definition new_inner :: "InviteSessionState \<Rightarrow> Headers \<Rightarrow> Inner" where
  "new_inner state headers =
     \<lparr>in_state = state, peer_supports_timer = ascii ''timer'' \<in> set (supported_extensions headers),
      peer_supports_100rel = ascii ''100rel'' \<in> set (supported_extensions headers),
      awaited_ack = None, awaited_prack = None, cancelled_notify = False\<rparr>"

definition acceptor_new ::
    "(nat slots \<Rightarrow> nat \<Rightarrow> nat \<times> nat slots) \<Rightarrow> UserAgent \<Rightarrow> Dialog \<Rightarrow> IncomingRequest \<Rightarrow> (InviteAcceptor \<times> UserAgent) panics" where
  "acceptor_new slot_insert ua dialog invite =
     (if rl_method (ir_line invite) \<noteq> INVITE then None
      else Option.bind (dialog_key dialog) (\<lambda>key.
        let cancellable_key = \<lparr>ck_cseq = request_cseq invite, ck_branch = key_branch (ir_tsx_key invite)\<rparr>;
            a = next_address ua in
        Option.bind (server_inv_new invite) (\<lambda>(tsx, invite).
          let ua = (put_inner a (new_inner (UasProvisional dialog tsx invite) (ir_headers invite)) ua)\<lparr>next_address := Suc a\<rparr> in
          map_option (\<lambda>(guard, ua).
              (\<lparr>ia_inner = a, ia_key = cancellable_key, ia_cancelled = False, ia_guard = Some guard, ia_timer_config = acceptor_default\<rparr>,
               ua\<lparr>cancellables := (cancellables ua)(cancellable_key \<mapsto> a)\<rparr>))
            (register_usage slot_insert ua key a))))"

definition acceptor_drop :: "UserAgent \<Rightarrow> InviteAcceptor \<Rightarrow> UserAgent" where
  "acceptor_drop ua self =
     (let ua = ua\<lparr>cancellables := (cancellables ua)(ia_key self := None)\<rparr> in
      case ia_guard self of None \<Rightarrow> ua | Some g \<Rightarrow> guard_drop ua g)"

text \<open>\<^verbatim>\<open>cancelled\<close>: \<open>None\<close> if it has to wait.\<close>

definition acceptor_cancelled :: "UserAgent \<Rightarrow> InviteAcceptor \<Rightarrow> (InviteAcceptor \<times> UserAgent) option" where
  "acceptor_cancelled ua self =
     (if ia_cancelled self then Some (self, ua)
      else Option.bind (inners ua (ia_inner self)) (\<lambda>inner.
        if cancelled_notify inner
        then Some (self\<lparr>ia_cancelled := True\<rparr>, put_inner (ia_inner self) (inner\<lparr>cancelled_notify := False\<rparr>) ua)
        else None))"

definition acceptor_create_response ::
    "Ip6Text \<Rightarrow> Capabilities \<Rightarrow> UserAgent \<Rightarrow> InviteAcceptor \<Rightarrow> StatusCode \<Rightarrow> bytes option \<Rightarrow> (AcceptorError, OutgoingResponse) result panics" where
  "acceptor_create_response T caps ua self code reason =
     Option.bind (inners ua (ia_inner self)) (\<lambda>inner.
       case in_state inner of
         UasProvisional dialog _ invite \<Rightarrow> map_option (\<lambda>r. case r of Inl e \<Rightarrow> Inl (CoreFault (HeaderFault e)) | Inr x \<Rightarrow> Inr x)
           (dialog_create_response T caps dialog invite code reason)
       | _ \<Rightarrow> Some (Inl RequestTerminated))"

definition acceptor_respond_provisional ::
    "UserAgent \<Rightarrow> InviteAcceptor \<Rightarrow> OutgoingResponse \<Rightarrow> bool \<Rightarrow> ((AcceptorError, unit) result \<times> transmission list) panics" where
  "acceptor_respond_provisional ua self response sent =
     Option.bind (inners ua (ia_inner self)) (\<lambda>inner.
       case in_state inner of
         UasProvisional _ _ _ \<Rightarrow> map_option (\<lambda>(r, _, out). (case r of Inl e \<Rightarrow> Inl (CoreFault e) | Inr _ \<Rightarrow> Inr (), out))
           (respond_provisional response sent)
       | _ \<Rightarrow> Some (Inl RequestTerminated, []))"

text \<open>
  \<^verbatim>\<open>respond_provisional_reliable\<close> up to the point where it waits: the awaited PRACK is
  registered, in place of an earlier one, and the response sent. \<open>reliable_wait\<close> is what follows.
\<close>

definition awaited_prack_drop :: "Inner \<Rightarrow> UserAgent \<Rightarrow> UserAgent" where
  "awaited_prack_drop inner ua = (case awaited_prack inner of None \<Rightarrow> ua | Some old \<Rightarrow> oneshot_drop_sender (prack_sender old) ua)"

definition reliable_start ::
    "UserAgent \<Rightarrow> InviteAcceptor \<Rightarrow> OutgoingResponse \<Rightarrow> u32 \<Rightarrow> bool
     \<Rightarrow> ((AcceptorError, OutgoingResponse \<times> nat) result \<times> transmission list \<times> UserAgent) panics" where
  "reliable_start ua self response rack sent =
     Option.bind (inners ua (ia_inner self)) (\<lambda>inner.
       if \<not> peer_supports_100rel inner \<or> \<not> (101 \<le> sl_code (or_line response) \<and> sl_code (or_line response) \<le> 199) then None
       else case in_state inner of
         UasProvisional _ _ invite \<Rightarrow>
           let headers = insert_type (or_headers response) REQUIRE (comma_value (ascii ''100rel''));
               headers = insert_type headers RSEQ (replacing_value (number_header_print rack));
               c = next_address ua;
               ua = awaited_prack_drop inner ua;
               inner = inner\<lparr>awaited_prack := Some \<lparr>prack_sender = c, ap_cseq = request_cseq invite, ap_rack = rack\<rparr>\<rparr>;
               ua = (put_inner (ia_inner self) inner ua)\<lparr>oneshots := (oneshots ua)(c := Awaiting), next_address := Suc c\<rparr> in
           map_option (\<lambda>(r, response, out). case r of
               Inl e \<Rightarrow> (Inl (CoreFault e), out, oneshot_drop_receiver c ua)
             | Inr _ \<Rightarrow> (Inr (response, c), out, ua))
             (respond_provisional (response\<lparr>or_headers := headers\<rparr>) sent)
       | _ \<Rightarrow> Some (Inl RequestTerminated, [], ua))"

definition reliable_wait ::
    "OutgoingResponse \<Rightarrow> instant \<Rightarrow> IncomingRequest option Wake list
     \<Rightarrow> ((AcceptorError, IncomingRequest) result Async \<times> transmission list) panics" where
  "reliable_wait response start wks =
     map_option (\<lambda>(r, out). (case r of
         Ready (Inr (Some prack)) \<Rightarrow> Ready (Inr prack)
       | Ready (Inr None) \<Rightarrow> Ready (Inl RequestTerminated)
       | Ready (Inl e) \<Rightarrow> Ready (Inl (CoreFault e))
       | Pending \<Rightarrow> Pending
       | NotPossible \<Rightarrow> NotPossible, out))
     (prack_loop 5 response T1 start wks)"

text \<open>The state is the one after the reply has been given, when the dialog and the acceptor are dropped.\<close>

definition acceptor_respond_failure ::
    "UserAgent \<Rightarrow> InviteAcceptor \<Rightarrow> OutgoingResponse \<Rightarrow> bool \<Rightarrow> instant \<Rightarrow> TsxMessage Wake list
     \<Rightarrow> ((AcceptorError, unit) result Async \<times> transmission list \<times> UserAgent) panics" where
  "acceptor_respond_failure ua self response sent now wks =
     Option.bind (inners ua (ia_inner self)) (\<lambda>inner.
       case set_cancelled inner of
         (Some (dialog, tsx, _), inner) \<Rightarrow>
           Option.bind (dialog_drop (put_inner (ia_inner self) inner ua) dialog) (\<lambda>ua.
           map_option (\<lambda>(r, out). (case r of
               Ready (Inl e) \<Rightarrow> Ready (Inl (CoreFault e)) | Ready (Inr _) \<Rightarrow> Ready (Inr ()) | Pending \<Rightarrow> Pending | NotPossible \<Rightarrow> NotPossible,
               out, acceptor_drop ua self))
             (respond_failure response sent now wks))
       | (None, _) \<Rightarrow> Some (Ready (Inl RequestTerminated), [], acceptor_drop ua self))"

section \<open>Session\<close>

record InviteSession =
  is_inner :: nat
  is_role :: SessionRole
  is_events :: nat
  session_timer :: SessionTimer
  is_guard :: UsageGuard
  is_dialog :: Dialog

text \<open>
  \<^verbatim>\<open>respond_success\<close> up to the point where it waits for the ACK: the state is established, the
  ACK is awaited and the response is sent. \<open>success_finish\<close> is what follows when the ACK has
  arrived.
\<close>

record Accepting =
  ap_accepted :: Accepted
  ap_ack :: nat
  ap_events :: nat
  ap_timer :: SessionTimer
  ap_dialog :: Dialog

text \<open>When the response cannot be sent or the ACK does not arrive, everything is dropped.\<close>

definition success_abort :: "UserAgent \<Rightarrow> InviteAcceptor \<Rightarrow> Dialog \<Rightarrow> nat \<Rightarrow> nat \<Rightarrow> UserAgent panics" where
  "success_abort ua self dialog q c =
     map_option (\<lambda>ua. acceptor_drop (oneshot_drop_receiver c (events_drop_receiver q ua)) self) (dialog_drop ua dialog)"

definition success_start ::
    "UserAgent \<Rightarrow> Transactions \<Rightarrow> InviteAcceptor \<Rightarrow> OutgoingResponse \<Rightarrow> bool \<Rightarrow> instant
     \<Rightarrow> ((AcceptorError, Accepting) result \<times> transmission list \<times> UserAgent \<times> Transactions) panics" where
  "success_start ua tx self response sent now =
     Option.bind (inners ua (ia_inner self)) (\<lambda>inner.
       let q = next_address ua; c = Suc q in
       case set_established inner q of
         (None, _) \<Rightarrow> Some (Inl RequestTerminated, [], acceptor_drop ua self, tx)
       | (Some (dialog, transaction, invite), inner) \<Rightarrow>
           let inner = inner\<lparr>awaited_ack := Some \<lparr>aa_cseq = request_cseq invite, ack_sender = c\<rparr>\<rparr>;
               (timer, response) = (if peer_supports_timer inner
                 then (case on_responding_success now (ia_timer_config self) response invite of (t, _, r) \<Rightarrow> (t, r))
                 else (new_unsupported, response));
               ua = (put_inner (ia_inner self) inner ua)\<lparr>event_queues := (event_queues ua)(q \<mapsto> []),
                 oneshots := (oneshots ua)(c := Awaiting), next_address := Suc c\<rparr> in
           Option.bind (respond_success tx transaction response sent) (\<lambda>(r, out, tx).
             case r of
               Inl e \<Rightarrow> map_option (\<lambda>ua. (Inl (CoreFault e), out, ua, tx)) (success_abort ua self dialog q c)
             | Inr accepted \<Rightarrow>
                 Some (Inr \<lparr>ap_accepted = accepted, ap_ack = c, ap_events = q, ap_timer = timer, ap_dialog = dialog\<rparr>, out, ua, tx)))"

definition success_finish :: "UserAgent \<Rightarrow> InviteAcceptor \<Rightarrow> Accepting \<Rightarrow> IncomingRequest \<Rightarrow> (InviteSession \<times> UserAgent) panics" where
  "success_finish ua self p ack =
     map_option (\<lambda>guard.
       (\<lparr>is_inner = ia_inner self, is_role = Uas, is_events = ap_events p, session_timer = ap_timer p, is_guard = guard,
         is_dialog = (ap_dialog p)\<lparr>target_tp_info := (target_tp_info (ap_dialog p))\<lparr>tt_transport :=
           Some (mi_transport (ir_tp_info ack), mi_source (ir_tp_info ack))\<rparr>\<rparr>\<rparr>,
        acceptor_drop ua (self\<lparr>ia_guard := None\<rparr>)))
     (ia_guard self)"

datatype SessionEvent =
    RefreshNeeded
  | ReInviteReceived IncomingRequest ServerInvTsx
  | ByeEvent IncomingRequest ServerTsx
  | SessionOver

text \<open>
  \<^verbatim>\<open>usage_events.recv()\<close>: the next event, \<open>Some None\<close> if there is none and none can come
  because no state has the sender any more, and \<open>None\<close> if it has to wait.
\<close>

definition events_recv :: "UserAgent \<Rightarrow> InviteSession \<Rightarrow> (UsageEvent option \<times> UserAgent) option" where
  "events_recv ua self =
     (case event_queues ua (is_events self) of
        Some (evt # q) \<Rightarrow> Some (Some evt, ua\<lparr>event_queues := (event_queues ua)(is_events self \<mapsto> q)\<rparr>)
      | _ \<Rightarrow>
          (case inners ua (is_inner self) of
             Some inner \<Rightarrow> if in_state inner = Established (is_events self) then None else Some (None, ua)
           | None \<Rightarrow> Some (None, ua)))"

fun handle_usage_event :: "instant \<Rightarrow> InviteSession \<Rightarrow> UsageEvent option \<Rightarrow> (SessionEvent \<times> InviteSession) panics" where
  "handle_usage_event now self None = Some (SessionOver, self)"
| "handle_usage_event now self (Some (ByeReceived request)) =
     map_option (\<lambda>(tsx, request). (ByeEvent request tsx, self)) (server_new request)"
| "handle_usage_event now self (Some (ReInvite invite)) =
     (let self = self\<lparr>session_timer := timer_reset now (session_timer self)\<rparr> in
      map_option (\<lambda>(tsx, invite). (ReInviteReceived invite tsx, self)) (server_inv_new invite))"

text \<open>
  \<^verbatim>\<open>terminate\<close>: the state is terminated, a BYE is created in the dialog and sent, and the
  final response awaited.
\<close>

definition terminate_request :: "Ip6Text \<Rightarrow> UserAgent \<Rightarrow> InviteSession \<Rightarrow> (Request \<times> InviteSession \<times> UserAgent) panics" where
  "terminate_request T ua self =
     map_option (\<lambda>inner. case dialog_create_request T (is_dialog self) BYE of (request, dialog) \<Rightarrow>
         (request, self\<lparr>is_dialog := dialog\<rparr>, put_inner (is_inner self) (snd (set_terminated inner)) ua))
       (inners ua (is_inner self))"

definition session_terminate ::
    "Env \<Rightarrow> (SipUri \<Rightarrow> (CoreError, TpHandle \<times> SocketAddr) result) \<Rightarrow> UserAgent \<Rightarrow> Transactions \<Rightarrow> InviteSession \<Rightarrow> bytes \<Rightarrow> bool
     \<Rightarrow> instant \<Rightarrow> (instant \<times> TsxResponse Wake list) list
     \<Rightarrow> ((CoreError, TsxResponse) result Async \<times> transmission list \<times> InviteSession \<times> UserAgent \<times> Transactions) panics" where
  "session_terminate env select ua tx self random sent now calls =
     Option.bind (terminate_request (env_ip6 env) ua self) (\<lambda>(request, self, ua).
       case create_outgoing select request (target_tp_info (is_dialog self)) of
         Inl e \<Rightarrow> Some (Ready (Inl e), [], self, ua, tx)
       | Inr (outgoing, target) \<Rightarrow>
           let self = self\<lparr>is_dialog := (is_dialog self)\<lparr>target_tp_info := target\<rparr>\<rparr> in
           Option.bind (client_send env tx random (tt_via_host_port target) outgoing sent now) (\<lambda>(r, tx).
             case r of
               Inl e \<Rightarrow> Some (Ready (Inl e), [], self, ua, tx)
             | Inr tsx \<Rightarrow> map_option (\<lambda>(r, _, out, _). (r, transmit_request (cl_request tsx) # out, self, ua, tx)) (receive_final env tsx calls)))"

text \<open>\<^verbatim>\<open>handle_session_timer\<close>: a refresh, or the end of the session, for which it is terminated.\<close>

definition handle_session_timer :: "instant \<Rightarrow> InviteSession \<Rightarrow> (TimerAction \<times> InviteSession) panics" where
  "handle_session_timer now self =
     map_option (\<lambda>act. (act, if act = Refresh then self\<lparr>session_timer := timer_reset now (session_timer self)\<rparr> else self))
       (timer_action (is_role self) (st_refresher (session_timer self)))"

text \<open>\<^verbatim>\<open>create_ack\<close> of a dialog; its number is used up even if the ACK cannot be sent.\<close>

definition dialog_create_ack ::
    "Ip6Text \<Rightarrow> (SipUri \<Rightarrow> (CoreError, TpHandle \<times> SocketAddr) result) \<Rightarrow> bytes \<Rightarrow> Dialog \<Rightarrow> u32 \<Rightarrow> (CoreError, OutgoingRequest) result \<times> Dialog" where
  "dialog_create_ack T select random dialog cseq_num' =
     (case dialog_create_request T dialog ACK of (ack, dialog) \<Rightarrow>
       (case headers_edit (rq_headers ack) CSEQ (decode_first cseq_parse) (\<lambda>c. One (cseq_print c)) (\<lambda>c. c\<lparr>cseq_num := cseq_num'\<rparr>) of
          Inl e \<Rightarrow> (Inl (HeaderFault e), dialog)
        | Inr headers \<Rightarrow>
            (case create_outgoing select (ack\<lparr>rq_headers := headers\<rparr>) (target_tp_info dialog) of
               Inl e \<Rightarrow> (Inl e, dialog)
             | Inr (ack, target) \<Rightarrow>
                 let via = create_via (op_transport (oq_parts ack)) (client_key random ACK) (tt_via_host_port target) in
                 (Inr (ack\<lparr>oq_headers := insert_type_front (oq_headers ack) VIA (single_value (via_print T via))\<rparr>),
                  dialog\<lparr>target_tp_info := target\<rparr>))))"

datatype RefreshError = RefreshCore CoreError | UnexpectedStatus StatusCode

text \<open>
  The responses that \<^verbatim>\<open>process_default\<close> of a refresh receives: the first success creates the
  ACK, which is sent for it and for every further one.
\<close>

fun refresh_responses ::
    "Env \<Rightarrow> (SipUri \<Rightarrow> (CoreError, TpHandle \<times> SocketAddr) result) \<Rightarrow> bytes \<Rightarrow> Dialog \<Rightarrow> OutgoingRequest option
     \<Rightarrow> ((CoreError, TsxResponse option) result \<times> bool) list \<Rightarrow> (RefreshError, unit) result Async \<times> transmission list \<times> Dialog" where
  "refresh_responses env select random dialog ack [] = (Pending, [], dialog)"
| "refresh_responses env select random dialog ack ((r, sent) # rs) =
     (case r of
        Inl e \<Rightarrow> (Ready (Inl (RefreshCore e)), [], dialog)
      | Inr None \<Rightarrow> (Ready (Inr ()), [], dialog)
      | Inr (Some response) \<Rightarrow>
          (case response_kind response of
             Provisional \<Rightarrow> refresh_responses env select random dialog ack rs
           | CodeSuccess \<Rightarrow>
               (case (case ack of Some a \<Rightarrow> (Inr a, dialog)
                    | None \<Rightarrow> dialog_create_ack (env_ip6 env) select random dialog (cseq_num (bh_cseq (tr_base response)))) of
                  (Inl e, dialog) \<Rightarrow> (Ready (Inl (RefreshCore e)), [], dialog)
                | (Inr a, dialog) \<Rightarrow>
                    let a = send_outgoing_request env a; tr = transmit_request a in
                    if \<not> sent then (Ready (Inl (RefreshCore IoError)), [tr], dialog)
                    else (case refresh_responses env select random dialog (Some a) rs of (r, out, dialog) \<Rightarrow> (r, tr # out, dialog)))
           | _ \<Rightarrow> (Ready (Inl (UnexpectedStatus (sl_code (tr_line response)))), [], dialog)))"

definition refresh_request :: "Ip6Text \<Rightarrow> instant \<Rightarrow> InviteSession \<Rightarrow> Request \<times> InviteSession" where
  "refresh_request T now self =
     (let self = self\<lparr>session_timer := timer_reset now (session_timer self)\<rparr> in
      case dialog_create_request T (is_dialog self) INVITE of (invite, dialog) \<Rightarrow>
        (populate_refresh (session_timer self) invite, self\<lparr>is_dialog := dialog\<rparr>))"

text \<open>Accepting a re-INVITE: \<^verbatim>\<open>ReInviteReceived::respond_success\<close> up to the wait for the ACK.\<close>

definition reinvite_success ::
    "UserAgent \<Rightarrow> Transactions \<Rightarrow> InviteSession \<Rightarrow> IncomingRequest \<Rightarrow> ServerInvTsx \<Rightarrow> OutgoingResponse \<Rightarrow> bool
     \<Rightarrow> ((CoreError, Accepted \<times> nat) result \<times> transmission list \<times> UserAgent \<times> Transactions) panics" where
  "reinvite_success ua tx self invite transaction response sent =
     Option.bind (inners ua (is_inner self)) (\<lambda>inner.
       let c = next_address ua;
           inner' = inner\<lparr>awaited_ack := Some \<lparr>aa_cseq = request_cseq invite, ack_sender = c\<rparr>\<rparr>;
           ua = (put_inner (is_inner self) inner' ua)\<lparr>oneshots := (oneshots ua)(c := Awaiting), next_address := Suc c\<rparr>;
           ua = (case awaited_ack inner of None \<Rightarrow> ua | Some old \<Rightarrow> oneshot_drop_sender (ack_sender old) ua) in
       map_option (\<lambda>(r, out, tx). (bind_res r (\<lambda>accepted. Inr (accepted, c)), out, ua, tx))
         (respond_success tx transaction response sent))"

definition bye_process_default ::
    "Ip6Text \<Rightarrow> Capabilities \<Rightarrow> Transactions \<Rightarrow> InviteSession \<Rightarrow> IncomingRequest \<Rightarrow> ServerTsx \<Rightarrow> bool \<Rightarrow> instant
     \<Rightarrow> ((CoreError, unit) result \<times> transmission list \<times> Answering \<times> Transactions) panics" where
  "bye_process_default T caps tx self bye transaction sent now =
     Option.bind (dialog_create_response T caps (is_dialog self) bye OK_STATUS None) (\<lambda>r.
       case r of
         Inl e \<Rightarrow> Some (Inl (HeaderFault e), [], NoTask, tx)
       | Inr response \<Rightarrow> server_respond tx transaction response sent now)"

end
