(* ===== verification/Ua_Agreement.thy ===== *)
theory Ua_Agreement
  imports Ua_Dialog
begin

text \<open>
  Two user agents of this program agree on a dialog: what the client of an INVITE and the
  server that answers it each take for the key of the dialog are mirror images, and every
  request that one of them creates in the dialog is found by the other.
\<close>

section \<open>Reading back what was inserted\<close>

definition dialog_names :: "Name list" where
  "dialog_names = [VIA, FROM, TO, CALL_ID, CSEQ, MAX_FORWARDS, CONTACT, ROUTE, RECORD_ROUTE, ALLOW, SUPPORTED]"

lemma dialog_names_apart:
  "list_all (\<lambda>a. name_eq a a) dialog_names" "sorted_wrt (\<lambda>a b. \<not> name_eq a b \<and> \<not> name_eq b a) dialog_names"
  by code_simp+

lemmas names_eq = dialog_names_apart [unfolded dialog_names_def, simplified]

abbreviation shown :: "FromTo \<Rightarrow> FromTo" where
  "shown f \<equiv> f\<lparr>ft_uri := (ft_uri f)\<lparr>na_uri := uri_in (Some FromToCtx) None (na_uri (ft_uri f))\<rparr>\<rparr>"

lemma shown_wf: "from_to_wf f \<Longrightarrow> from_to_wf (shown f)"
  by (auto simp: from_to_wf_def name_addr_wf_def uri_in_wf)

lemma from_to_read: "ip6_text_ok T \<Longrightarrow> from_to_wf f \<Longrightarrow> from_to_parse T (from_to_print T None f) = Some ([], shown f)"
  using from_to_parse_print [of T f "[]" None] by simp

lemma via_read: "ip6_text_ok T \<Longrightarrow> list_all via_wf vs \<Longrightarrow> decode_vec (via_parse T) (map (via_print T) vs) = Some vs"
proof -
  assume T: "ip6_text_ok T" and "list_all via_wf vs"
  then have "via_parse T (via_print T v) = Some ([], v)" if "v \<in> set vs" for v
    using via_parse_print [OF T, of v "[]"] that by (simp add: list_all_iff)
  then have "concat (map ((\<lambda>v. vec_items (Suc (length v)) (via_parse T) v) \<circ> via_print T) vs) = vs"
    by (induction vs) (auto simp: trim_start_def)
  then show ?thesis by (simp add: decode_vec_def)
qed

lemma trim_no_blank: "list_all (\<lambda>c. \<not> is_whitespace c) s \<Longrightarrow> trim s = s"
  by (simp add: trim_def trim_start_def dropWhile_stop takeWhile_stop list_all_iff)
     (metis dropWhile_eq_self_iff list.set_sel(1) rev_rev_ident set_rev)

lemma alphanumeric_solid_trim: "list_all is_alphanumeric s \<Longrightarrow> trim s = s"
  by (rule trim_no_blank) (auto simp: list_all_iff is_alphanumeric_def is_digit_def is_whitespace_def)

lemma extract_printed:
  fixes h :: Headers
  assumes "ip6_text_ok T" "list_all via_wf vs" "vs \<noteq> []" "from_to_wf f" "from_to_wf t" "trim call_id = call_id" "method_wf (cseq_method c)"
    and "values_of h VIA = map (via_print T) vs" "values_of h FROM = [from_to_print T None f]" "values_of h TO = [from_to_print T None t]"
    and "values_of h CALL_ID = [call_id]" "values_of h CSEQ = [cseq_print c]"
  shows "extract_from T h = Inr \<lparr>bh_via = vs, bh_from = shown f, bh_to = shown t, bh_call_id = call_id, bh_cseq = c\<rparr>"
proof -
  have present: "values_of h n \<noteq> [] \<Longrightarrow> entry h n \<noteq> None" for n by (auto simp: values_of_def split: option.splits)
  have "cseq_parse (cseq_print c) = Some ([], c)" using cseq_parse_print [of c] assms(7) by simp
  moreover have "map (via_print T) vs \<noteq> []" using assms(3) by simp
  ultimately show ?thesis
    using assms present [of VIA] present [of FROM] present [of TO] present [of CALL_ID] present [of CSEQ]
    by (simp add: extract_from_iff headers_get_values from_to_read via_read call_id_parse_def)
qed

section \<open>Requests in a dialog\<close>

abbreviation sent_headers :: "Ip6Text \<Rightarrow> Via \<Rightarrow> Request \<Rightarrow> Headers" where
  "sent_headers T v request \<equiv> insert_type_front (rq_headers request) VIA (single_value (via_print T v))"

definition dialog_wf :: "Dialog \<Rightarrow> bool" where
  "dialog_wf d \<longleftrightarrow> from_to_wf (local_fromto d) \<and> from_to_wf (peer_fromto d) \<and> trim (dg_call_id d) = dg_call_id d"

lemma dialog_request_base:
  assumes "ip6_text_ok T" "dialog_wf d" "via_wf v" "method_wf m"
  shows "extract_from T (sent_headers T v (fst (dialog_create_request T d m)))
    = Inr \<lparr>bh_via = [v], bh_from = shown (local_fromto d), bh_to = shown (peer_fromto d), bh_call_id = dg_call_id d,
        bh_cseq = \<lparr>cseq_num = local_cseq d, cseq_method = m\<rparr>\<rparr>"
  using assms
  by (intro extract_printed)
     (auto simp: dialog_wf_def dialog_create_request_def Let_def request_new_def insert_type_def insert_type_front_def
       entry_def values_of_def replacing_value_def single_value_def names_eq split: option.split)

definition mirrored :: "Dialog \<Rightarrow> Dialog \<Rightarrow> bool" where
  "mirrored a b \<longleftrightarrow> dg_call_id a = dg_call_id b \<and> ft_tag (local_fromto a) = ft_tag (peer_fromto b)
     \<and> ft_tag (peer_fromto a) = ft_tag (local_fromto b)"

fun create_requests :: "Ip6Text \<Rightarrow> Dialog \<Rightarrow> SipMethod list \<Rightarrow> Request list" where
  "create_requests T d [] = []"
| "create_requests T d (m # ms) = (case dialog_create_request T d m of (q, d) \<Rightarrow> q # create_requests T d ms)"

text \<open>The \<open>i\<close>-th request that a dialog creates is the first one that it creates from a later number.\<close>

lemma create_requests_nth:
  "i < length ms \<Longrightarrow> create_requests T d ms ! i = fst (dialog_create_request T (d\<lparr>local_cseq := local_cseq d + of_nat i\<rparr>) (ms ! i))"
proof (induction ms arbitrary: d i)
  case (Cons m ms)
  have "dialog_create_request T d m = (fst (dialog_create_request T d m), d\<lparr>local_cseq := local_cseq d + 1\<rparr>)"
    by (simp add: dialog_create_request_def Let_def)
  then have "create_requests T d (m # ms) = fst (dialog_create_request T d m) # create_requests T (d\<lparr>local_cseq := local_cseq d + 1\<rparr>) ms"
    by (metis (no_types, lifting) case_prod_conv create_requests.simps(2))
  then show ?case using Cons by (cases i) (simp_all add: algebra_simps)
qed simp

lemma dialog_requests_base:
  assumes "ip6_text_ok T" "dialog_wf d" "via_wf v" "list_all method_wf ms" "i < length ms"
  shows "extract_from T (sent_headers T v (create_requests T d ms ! i))
    = Inr \<lparr>bh_via = [v], bh_from = shown (local_fromto d), bh_to = shown (peer_fromto d), bh_call_id = dg_call_id d,
        bh_cseq = \<lparr>cseq_num = local_cseq d + of_nat i, cseq_method = ms ! i\<rparr>\<rparr>"
  using dialog_request_base [OF assms(1), of "d\<lparr>local_cseq := local_cseq d + of_nat i\<rparr>" v "ms ! i"] assms
  by (simp add: create_requests_nth dialog_wf_def list_all_length)

section \<open>Establishing a dialog\<close>

definition contact_wf :: "Contact \<Rightarrow> bool" where
  "contact_wf c \<longleftrightarrow> name_addr_wf (ct_uri c) \<and> list_all (param_ok CPS) (ct_params c)"

abbreviation shown_contact :: "Contact \<Rightarrow> Contact" where
  "shown_contact c \<equiv> c\<lparr>ct_uri := (ct_uri c)\<lparr>na_uri := uri_in (Some ContactCtx) None (na_uri (ct_uri c))\<rparr>\<rparr>"

lemma contact_read: "ip6_text_ok T \<Longrightarrow> contact_wf c \<Longrightarrow> contact_parse T (contact_print T None c) = Some ([], shown_contact c)"
  using bracketed_addr_print [of T "ct_uri c"] cps.params_parse_print [of "ct_params c" "[]"]
  by (simp add: contact_wf_def contact_parse_def contact_print_def name_addr_parse_no_params_def list_all_iff)

lemma vec_values_read: "vec_values vs = Some x \<Longrightarrow> oom_values x = vs"
proof (induction vs arbitrary: x rule: rev_induct)
  case (snoc v vs)
  then show ?case by (cases vs) auto
qed simp

lemma headers_get_single:
  "values_of h n = [v] \<Longrightarrow> headers_get h n (decode_first p) = ok_or (map_option snd (p v)) (Malformed n)"
  by (auto simp: headers_get_values values_of_def split: option.splits)

definition builder_wf :: "ClientDialogBuilder \<Rightarrow> bool" where
  "builder_wf b \<longleftrightarrow> from_to_wf (cb_local_fromto b) \<and> from_to_wf (cb_peer_fromto b) \<and> trim (cb_call_id b) = cb_call_id b
     \<and> contact_wf (cb_local_contact b)"

lemmas insertion_simps = insert_type_def insert_type_front_def entry_def values_of_def replacing_value_def single_value_def comma_value_def

lemma builder_request_values:
  "values_of (sent_headers T v (builder_create_request T b m)) CONTACT = [contact_print T None (cb_local_contact b)]"
  by (simp add: builder_create_request_def Let_def insertion_simps names_eq)

lemma builder_request_base:
  assumes "ip6_text_ok T" "builder_wf b" "via_wf v" "method_wf m"
  shows "extract_from T (sent_headers T v (builder_create_request T b m))
    = Inr \<lparr>bh_via = [v], bh_from = shown (cb_local_fromto b), bh_to = shown (cb_peer_fromto b), bh_call_id = cb_call_id b,
        bh_cseq = \<lparr>cseq_num = cb_local_cseq b, cseq_method = m\<rparr>\<rparr>"
  using assms
  by (intro extract_printed) (simp_all add: builder_wf_def builder_create_request_def Let_def insertion_simps names_eq)

lemma create_response_headers:
  assumes "create_response T r code reason = Some resp" "code \<noteq> TRYING"
  obtains x where "oom_values x = map (via_print T) (bh_via (ir_base r))"
    "or_headers resp = [\<lparr>en_name = VIA, en_values = x\<rparr>, \<lparr>en_name = FROM, en_values = One (from_to_print T None (bh_from (ir_base r)))\<rparr>,
      \<lparr>en_name = TO, en_values = One (from_to_print T None (bh_to (ir_base r)))\<rparr>, \<lparr>en_name = CALL_ID, en_values = One (bh_call_id (ir_base r))\<rparr>,
      \<lparr>en_name = CSEQ, en_values = One (cseq_print (bh_cseq (ir_base r)))\<rparr>]"
proof -
  from assms obtain x where x: "vec_values (map (via_print T) (bh_via (ir_base r))) = Some x"
    by (auto simp: create_response_def bind_eq_Some_conv split: if_splits)
  show thesis
    using assms vec_values_read [OF x] x
    by (intro that [of x]) (auto simp: create_response_def Let_def insertion_simps names_eq split: if_splits)
qed

lemma clone_new:
  assumes "entry dest n = None" "name_eq n n"
  shows "(case clone_into src dest n of Inl _ \<Rightarrow> dest | Inr h \<Rightarrow> h) \<in> {dest} \<union> range (\<lambda>x. dest @ [\<lparr>en_name = n, en_values = x\<rparr>])"
proof (cases "entry src n")
  case (Some e)
  then show ?thesis
    using fold_insert_new [OF assms, of "oom_values (en_values e)"] by (cases "oom_values (en_values e) = []") (auto simp: clone_into_def)
qed (simp add: clone_into_def)

lemma comma_values_Some: "vs \<noteq> [] \<Longrightarrow> \<exists>x. comma_values vs = Some x"
  by (cases vs) auto

lemma success_response:
  assumes T: "ip6_text_ok T" and r: "rl_method (ir_line r) = INVITE" "bh_via (ir_base r) \<noteq> []" "ft_tag (bh_to (ir_base r)) = None"
    "from_to_wf (bh_to (ir_base r))" and code: "200 \<le> code" "code \<le> 299" and caps: "allowed caps \<noteq> []" "supported caps \<noteq> []"
  shows "\<exists>resp. dialog_create_response T caps d r code reason = Some (Inr resp)
    \<and> values_of (or_headers resp) VIA = map (via_print T) (bh_via (ir_base r))
    \<and> values_of (or_headers resp) FROM = [from_to_print T None (bh_from (ir_base r))]
    \<and> values_of (or_headers resp) TO = [from_to_print T None ((shown (bh_to (ir_base r)))\<lparr>ft_tag := ft_tag (local_fromto d)\<rparr>)]
    \<and> values_of (or_headers resp) CALL_ID = [bh_call_id (ir_base r)]
    \<and> values_of (or_headers resp) CSEQ = [cseq_print (bh_cseq (ir_base r))]
    \<and> values_of (or_headers resp) CONTACT = [contact_print T None (local_contact d)]"
proof -
  have "\<exists>resp0. create_response T r code reason = Some resp0"
    using r(1,2) by (cases "bh_via (ir_base r)") (auto simp: create_response_def Let_def)
  then obtain resp0 where resp0: "create_response T r code reason = Some resp0" by blast
  have t: "code \<noteq> TRYING" using code by (auto simp: TRYING_def)
  obtain x where x: "oom_values x = map (via_print T) (bh_via (ir_base r))"
    and h: "or_headers resp0 = [\<lparr>en_name = VIA, en_values = x\<rparr>, \<lparr>en_name = FROM, en_values = One (from_to_print T None (bh_from (ir_base r)))\<rparr>,
      \<lparr>en_name = TO, en_values = One (from_to_print T None (bh_to (ir_base r)))\<rparr>, \<lparr>en_name = CALL_ID, en_values = One (bh_call_id (ir_base r))\<rparr>,
      \<lparr>en_name = CSEQ, en_values = One (cseq_print (bh_cseq (ir_base r)))\<rparr>]"
    using create_response_headers [OF resp0 t] by blast
  define rr where "rr = (case clone_into (ir_headers r) (or_headers resp0) RECORD_ROUTE of Inl _ \<Rightarrow> or_headers resp0 | Inr h \<Rightarrow> h)"
  have "entry (or_headers resp0) RECORD_ROUTE = None" "name_eq RECORD_ROUTE RECORD_ROUTE" by (simp_all add: h entry_def names_eq)
  from clone_new [OF this] have rr: "rr = or_headers resp0 \<or> (\<exists>y. rr = or_headers resp0 @ [\<lparr>en_name = RECORD_ROUTE, en_values = y\<rparr>])"
    unfolding rr_def by auto
  have c: "101 \<le> code \<and> code \<le> 399" using code by (auto simp: word_le_nat_alt)
  obtain al su where al: "comma_values (map method_print (allowed caps)) = Some al" "comma_values (supported caps) = Some su"
    using comma_values_Some caps by (metis map_is_Nil_conv)
  have step: "dialog_response_headers T caps d r code (or_headers resp0) =
    (let h1 = (if \<not> headers_contains rr CONTACT then insert_type rr CONTACT (comma_value (contact_print T None (local_contact d))) else rr) in
     case headers_edit (insert_type h1 ALLOW al) TO (decode_first (from_to_parse T)) (\<lambda>t. One (from_to_print T None t))
         (\<lambda>t. t\<lparr>ft_tag := ft_tag (local_fromto d)\<rparr>) of
       Inl e \<Rightarrow> Some (Inl e) | Inr h \<Rightarrow> Some (Inr (insert_type h SUPPORTED su)))"
    unfolding dialog_response_headers_def Let_def rr_def [symmetric] using code c r(3) al by (simp split: sum.split)
  show ?thesis
    using rr x r(1) from_to_read [OF T r(4)]
    by (elim disjE exE) (simp_all add: dialog_create_response_def resp0 step [unfolded h] h
      headers_contains_def headers_edit_def headers_get_values insertion_simps names_eq)
qed

lemma shown_tag: "ft_tag (shown f) = ft_tag f" "ft_params (shown f) = ft_params f"
  by simp_all

lemma alphanumeric_tag: "list_all is_alphanumeric t \<Longrightarrow> list_all (\<lambda>c. param_char c \<and> c \<noteq> 0x25) t"
  by (auto simp: list_all_iff param_char_def is_alphanumeric_def is_digit_def)

lemma tagged_wf: "from_to_wf f \<Longrightarrow> list_all is_alphanumeric t \<Longrightarrow> from_to_wf (f\<lparr>ft_tag := Some t\<rparr>)"
  using alphanumeric_tag by (auto simp: from_to_wf_def)

text \<open>
  The requests that a dialog creates, with a Via header in front, are found by the other one when
  their Via headers were changed on the way, and are numbered one after the other.
\<close>

definition reaches :: "Ip6Text \<Rightarrow> Dialog \<Rightarrow> Dialog \<Rightarrow> SipMethod list \<Rightarrow> Via \<Rightarrow> Via list \<Rightarrow> IncomingRequest \<Rightarrow> bool" where
  "reaches T a b ms v vias r \<longleftrightarrow>
     (\<forall>i<length ms. \<exists>base. extract_from T (sent_headers T v (create_requests T a ms ! i)) = Inr base
       \<and> dialog_key b \<noteq> None \<and> key_from_incoming (r\<lparr>ir_base := base\<lparr>bh_via := vias\<rparr>\<rparr>) = dialog_key b
       \<and> bh_cseq base = \<lparr>cseq_num = local_cseq a + of_nat i, cseq_method = ms ! i\<rparr>)"

lemma mirrored_reaches:
  assumes "ip6_text_ok T" "dialog_wf a" "via_wf v" "list_all method_wf ms" "mirrored a b" "ft_tag (local_fromto b) \<noteq> None"
  shows "reaches T a b ms v vias r"
  using dialog_requests_base [OF assms(1-4)] assms(5,6)
  by (auto simp: reaches_def key_from_incoming_def dialog_key_def mirrored_def)

text \<open>
  C5: A client that sends an INVITE and a server that accepts it end up with the same dialog.
  The server creates its dialog from the INVITE as it was received and answers it; the client
  reads the answer and creates its dialog from it. Neither step fails, and from then on all the
  requests that one of them creates, however many, carry the key under which the other one
  has stored the dialog, and CSeq numbers that count up one by one: those of the client from
  the number of the INVITE, those of the server from the number it has drawn.\<close>

theorem dialog_agreed:
  fixes rsp :: TsxResponse and r' :: IncomingRequest
  assumes T: "ip6_text_ok T" and b: "builder_wf b" "ft_tag (cb_local_fromto b) \<noteq> None" "ft_tag (cb_peer_fromto b) = None" "cb_local_cseq b \<noteq> - 1"
    and r: "rl_method (ir_line r) = INVITE" "ir_headers r = sent_headers T v (builder_create_request T b INVITE)"
    and base: "extract_from T (ir_headers r) = Inr base" "ir_base r = base\<lparr>bh_via := vias\<rparr>"
    and wf: "via_wf v" "list_all via_wf vias" "vias \<noteq> []" "list_all is_alphanumeric random_tag" "contact_wf contact"
    and code: "200 \<le> code" "code \<le> 299" and caps: "allowed caps \<noteq> []" "supported caps \<noteq> []" and m: "list_all method_wf ms" "via_wf w"
  shows "\<exists>s layer' resp rbase c layer2'.
    new_server T random_number random_tag (layer :: 'u DialogLayer) r contact = Some (Inr (s, layer'))
    \<and> dialog_create_response T caps s r code reason = Some (Inr resp)
    \<and> extract_from T (or_headers resp) = Inr rbase
    \<and> create_dialog_from_response T (layer2 :: 'u DialogLayer) b (rsp\<lparr>tr_base := rbase, tr_headers := or_headers resp\<rparr>) = Some (Inr (c, layer2'))
    \<and> local_cseq c = cb_local_cseq b \<and> local_cseq s = random_number
    \<and> reaches T c s ms w vias' r' \<and> reaches T s c ms w vias' r'"
proof -
  have m0: "method_wf INVITE" by simp
  note hb = builder_request_base [OF T b(1) wf(1) m0]
  have bs: "base = \<lparr>bh_via = [v], bh_from = shown (cb_local_fromto b), bh_to = shown (cb_peer_fromto b), bh_call_id = cb_call_id b,
      bh_cseq = \<lparr>cseq_num = cb_local_cseq b, cseq_method = INVITE\<rparr>\<rparr>"
    using base(1) hb unfolding r(2) by simp
  have bwf: "from_to_wf (cb_local_fromto b)" "from_to_wf (cb_peer_fromto b)" "trim (cb_call_id b) = cb_call_id b" "contact_wf (cb_local_contact b)"
    using b(1) by (simp_all add: builder_wf_def)
  define s where "s = \<lparr>local_cseq = random_number, local_fromto = (shown (cb_peer_fromto b))\<lparr>ft_tag := Some random_tag\<rparr>,
      peer_fromto = shown (cb_local_fromto b), local_contact = contact, peer_contact = shown_contact (cb_local_contact b),
      dg_call_id = cb_call_id b, route_set = route_values T (ir_headers r), dg_secure = sips (rl_uri (ir_line r)), target_tp_info = no_target\<rparr>"
  have server: "\<exists>layer'. new_server T random_number random_tag layer r contact = Some (Inr (s, layer'))"
    using contact_read [OF T bwf(4)] b(2,4)
    by (simp add: new_server_def base(2) bs r(2) headers_get_single [OF builder_request_values] entry_new_def checked_succ_Some dialog_key_def s_def)
  have to: "ft_tag (bh_to (ir_base r)) = None" "from_to_wf (bh_to (ir_base r))" "bh_via (ir_base r) \<noteq> []"
    using b(3) shown_wf [OF bwf(2)] wf(3) by (simp_all add: base(2) bs)
  from success_response [OF T r(1) to(3,1,2) code caps, of s reason] obtain resp where resp:
    "dialog_create_response T caps s r code reason = Some (Inr resp)"
    "values_of (or_headers resp) VIA = map (via_print T) vias"
    "values_of (or_headers resp) FROM = [from_to_print T None (shown (cb_local_fromto b))]"
    "values_of (or_headers resp) TO = [from_to_print T None ((shown (shown (cb_peer_fromto b)))\<lparr>ft_tag := Some random_tag\<rparr>)]"
    "values_of (or_headers resp) CALL_ID = [cb_call_id b]"
    "values_of (or_headers resp) CSEQ = [cseq_print \<lparr>cseq_num = cb_local_cseq b, cseq_method = INVITE\<rparr>]"
    "values_of (or_headers resp) CONTACT = [contact_print T None contact]"
    by (auto simp: base(2) bs s_def)
  have tw: "from_to_wf ((shown (shown (cb_peer_fromto b)))\<lparr>ft_tag := Some random_tag\<rparr>)"
    using tagged_wf [OF shown_wf [OF shown_wf [OF bwf(2)]] wf(4)] .
  obtain rbase where rbase: "extract_from T (or_headers resp) = Inr rbase"
    "bh_to rbase = shown ((shown (shown (cb_peer_fromto b)))\<lparr>ft_tag := Some random_tag\<rparr>)"
    using extract_printed [OF T wf(2,3) shown_wf [OF bwf(1)] tw bwf(3) _ resp(2-6)] by auto
  let ?rsp = "rsp\<lparr>tr_base := rbase, tr_headers := or_headers resp\<rparr>"
  define c where "c = \<lparr>local_cseq = cb_local_cseq b, local_fromto = cb_local_fromto b, peer_fromto = bh_to rbase,
      local_contact = cb_local_contact b, peer_contact = shown_contact contact, dg_call_id = cb_call_id b,
      route_set = route_values T (or_headers resp), dg_secure = cb_secure b, target_tp_info = cb_target_tp_info b\<rparr>"
  have client: "\<exists>layer2'. create_dialog_from_response T layer2 b ?rsp = Some (Inr (c, layer2'))"
    using headers_get_single [OF resp(7), of "contact_parse T"] contact_read [OF T wf(5)] b(2)
    by (auto simp: create_dialog_from_response_def rbase(2) entry_new_def dialog_key_def c_def Let_def)
  have "mirrored c s" "mirrored s c" "dialog_wf c" "dialog_wf s" "ft_tag (local_fromto s) \<noteq> None" "ft_tag (local_fromto c) \<noteq> None"
    using b(2) bwf shown_wf tagged_wf [OF shown_wf [OF bwf(2)] wf(4)] shown_wf [OF tw]
    by (simp_all add: mirrored_def dialog_wf_def s_def c_def rbase(2))
  then have "reaches T c s ms w vias' r'" "reaches T s c ms w vias' r'"
    using mirrored_reaches [OF T _ m(2,1)] by blast+
  moreover have "local_cseq c = cb_local_cseq b" "local_cseq s = random_number" by (simp_all add: c_def s_def)
  ultimately show ?thesis using server client resp(1) rbase(1) by blast
qed

lemma dialog_request_cseq:
  "values_of (rq_headers (fst (dialog_create_request T d m))) CSEQ = [cseq_print \<lparr>cseq_num = local_cseq d, cseq_method = m\<rparr>]"
  by (auto simp: dialog_create_request_def Let_def request_new_def insertion_simps names_eq split: option.split)

lemma create_requests_cseq:
  "i < length ms \<Longrightarrow> values_of (rq_headers (create_requests T d ms ! i)) CSEQ
     = [cseq_print \<lparr>cseq_num = local_cseq d + of_nat i, cseq_method = ms ! i\<rparr>]"
  by (simp add: create_requests_nth dialog_request_cseq)

text \<open>
  The requests a client creates in its dialog are numbered one after the other, modulo
  \<open>2\<^sup>3\<^sup>2\<close>, but they start with the number of the INVITE that created the dialog: the first
  one, whatever its method, has the CSeq number of the INVITE.\<close>

theorem client_dialog_reuses_cseq:
  assumes "create_dialog_from_response T (layer :: 'u DialogLayer) b rsp = Some (Inr (c, layer'))" "i < length ms"
  shows "values_of (rq_headers (builder_create_request T b INVITE)) CSEQ = [cseq_print \<lparr>cseq_num = cb_local_cseq b, cseq_method = INVITE\<rparr>]
    \<and> values_of (rq_headers (create_requests T c ms ! i)) CSEQ = [cseq_print \<lparr>cseq_num = cb_local_cseq b + of_nat i, cseq_method = ms ! i\<rparr>]"
proof
  show "values_of (rq_headers (builder_create_request T b INVITE)) CSEQ = [cseq_print \<lparr>cseq_num = cb_local_cseq b, cseq_method = INVITE\<rparr>]"
    by (simp add: builder_create_request_def Let_def insertion_simps names_eq)
  have "local_cseq c = cb_local_cseq b"
    using assms(1) by (auto simp: create_dialog_from_response_def Let_def bind_eq_Some_conv split: if_splits sum.splits)
  then show "values_of (rq_headers (create_requests T c ms ! i)) CSEQ = [cseq_print \<lparr>cseq_num = cb_local_cseq b + of_nat i, cseq_method = ms ! i\<rparr>]"
    using create_requests_cseq [OF assms(2)] by simp
qed

section \<open>Examples\<close>

definition sample_contact :: Contact where
  "sample_contact = \<lparr>ct_uri = \<lparr>na_name = None, na_uri = uri_new \<lparr>hp_host = HostName (ascii ''h''), hp_port = None\<rparr>\<rparr>, ct_params = []\<rparr>"

definition sample_builder :: ClientDialogBuilder where
  "sample_builder = builder_new 5 (ascii ''t1'') (ascii ''c1'') (ct_uri sample_contact) sample_contact (na_uri (ct_uri sample_contact))"

definition sample_caps :: Capabilities where
  "sample_caps = \<lparr>allowed = [INVITE, BYE], supported = [ascii ''timer'']\<rparr>"

definition no_dialogs :: "nat DialogLayer" where
  "no_dialogs = \<lparr>dialogs = (\<lambda>_. None)\<rparr>"

definition invite_headers :: Headers where
  "invite_headers = sent_headers decimal_ip6 sample_via (builder_create_request decimal_ip6 sample_builder INVITE)"

definition sample_invite :: IncomingRequest where
  "sample_invite = (sample_request sample_via)\<lparr>ir_line := \<lparr>rl_method = INVITE, rl_uri = na_uri (ct_uri sample_contact)\<rparr>,
     ir_headers := invite_headers, ir_base := (case extract_from decimal_ip6 invite_headers of Inr base \<Rightarrow> base | Inl _ \<Rightarrow> ir_base (sample_request sample_via))\<rparr>"

lemma sample_builder_wf: "builder_wf sample_builder" "contact_wf sample_contact"
  by code_simp+

definition sample_ok :: TsxResponse where
  "sample_ok = \<lparr>tr_tp_info = rm_tp_info (sample_message []), tr_line = \<lparr>sl_code = 200, sl_reason = None\<rparr>,
     tr_base = ir_base (sample_request sample_via), tr_headers = [], tr_body = []\<rparr>"

theorem dialog_agreed_witness:
  "\<exists>s layer' resp rbase c layer2'.
    new_server decimal_ip6 9 (ascii ''t2'') no_dialogs sample_invite sample_contact = Some (Inr (s, layer'))
    \<and> dialog_create_response decimal_ip6 sample_caps s sample_invite 200 None = Some (Inr resp)
    \<and> extract_from decimal_ip6 (or_headers resp) = Inr rbase
    \<and> create_dialog_from_response decimal_ip6 no_dialogs sample_builder (sample_ok\<lparr>tr_base := rbase, tr_headers := or_headers resp\<rparr>) = Some (Inr (c, layer2'))
    \<and> local_cseq c = cb_local_cseq sample_builder \<and> local_cseq s = 9
    \<and> reaches decimal_ip6 c s [INVITE, BYE] sample_via [sample_via] sample_invite \<and> reaches decimal_ip6 s c [INVITE, BYE] sample_via [sample_via] sample_invite"
proof -
  have m: "method_wf INVITE" "method_wf BYE" by simp_all
  obtain base where base: "extract_from decimal_ip6 invite_headers = Inr base" "bh_via base = [sample_via]"
    using builder_request_base [OF decimal_ip6_ok sample_builder_wf(1) sample_wf(1) m(1)] by (simp add: invite_headers_def)
  then have "ir_base sample_invite = base\<lparr>bh_via := [sample_via]\<rparr>" by (simp add: sample_invite_def)
  moreover have "ft_tag (cb_local_fromto sample_builder) \<noteq> None" "ft_tag (cb_peer_fromto sample_builder) = None" "cb_local_cseq sample_builder \<noteq> - 1"
    by (simp_all add: sample_builder_def builder_new_def)
  moreover have "list_all is_alphanumeric (ascii ''t2'')" by code_simp
  ultimately show ?thesis
    using dialog_agreed [OF decimal_ip6_ok sample_builder_wf(1), of sample_invite sample_via base "[sample_via]" "ascii ''t2''" sample_contact 200 sample_caps
        "[INVITE, BYE]" sample_via 9 no_dialogs None no_dialogs sample_ok "[sample_via]" sample_invite]
      base(1) m sample_wf(1) sample_builder_wf(2)
    by (simp add: sample_caps_def) (simp add: sample_invite_def invite_headers_def)
qed

theorem client_dialog_reuses_cseq_witness:
  "\<exists>c layer'. create_dialog_from_response decimal_ip6 no_dialogs sample_builder
       (sample_ok\<lparr>tr_base := (ir_base (sample_request sample_via))\<lparr>bh_to := sample_from\<rparr>, tr_headers := invite_headers\<rparr>) = Some (Inr (c, layer'))
     \<and> values_of (rq_headers (create_requests decimal_ip6 c [PRACK] ! 0)) CSEQ = [cseq_print \<lparr>cseq_num = 5, cseq_method = PRACK\<rparr>]"
proof -
  let ?rsp = "sample_ok\<lparr>tr_base := (ir_base (sample_request sample_via))\<lparr>bh_to := sample_from\<rparr>, tr_headers := invite_headers\<rparr>"
  have "\<exists>c layer'. create_dialog_from_response decimal_ip6 no_dialogs sample_builder ?rsp = Some (Inr (c, layer'))"
    using contact_read [OF decimal_ip6_ok sample_builder_wf(2)]
    by (simp add: create_dialog_from_response_def headers_get_single [OF builder_request_values] invite_headers_def sample_from_def
        entry_new_def dialog_key_def sample_builder_def builder_new_def Let_def)
  then obtain c layer' where "create_dialog_from_response decimal_ip6 no_dialogs sample_builder ?rsp = Some (Inr (c, layer'))" by blast
  moreover from client_dialog_reuses_cseq [OF this, of 0 "[PRACK]"]
  have "values_of (rq_headers (create_requests decimal_ip6 c [PRACK] ! 0)) CSEQ = [cseq_print \<lparr>cseq_num = 5, cseq_method = PRACK\<rparr>]"
    by (simp add: sample_builder_def builder_new_def)
  ultimately show ?thesis by blast
qed

end
