(* ===== verification/Ua_Session.thy ===== *)
theory Ua_Session
  imports Ua_Invite Ua_Agreement
begin

text \<open>
  What holds of INVITE sessions: an INVITE is answered at most once, however the operations of
  the acceptor, the session, the dialog and the layer interleave; and how the program reacts
  to requests that its peers may send.
\<close>

section \<open>Interleaved operations\<close>

definition final_reply :: "Reply list \<Rightarrow> bool" where
  "final_reply replies \<longleftrightarrow> list_ex (\<lambda>r. case r of FailInvite _ _ \<Rightarrow> True | _ \<Rightarrow> False) replies"

definition cancel_key :: "IncomingRequest \<Rightarrow> CancellableKey" where
  "cancel_key r = \<lparr>ck_cseq = request_cseq r, ck_branch = key_branch (ir_tsx_key r)\<rparr>"

text \<open>
  A step of the user agent, with the INVITEs that get their final answer in it: those for
  which a failure is among the replies, or for which the acceptor transmits something. (The
  answer to a BYE is built from the INVITE, but is sent in the transaction of the BYE.)
\<close>

inductive ua_step :: "UserAgent \<Rightarrow> nat list \<Rightarrow> UserAgent \<Rightarrow> bool" where
  UsageReceive: "usage_receive T caps a r ua = Some (Done (replies, back, ua')) \<Longrightarrow> ua_step ua (if final_reply replies then [a] else []) ua'"
| UsageBlocked: "usage_receive T caps a r ua = Some (Blocked ua') \<Longrightarrow> ua_step ua [] ua'"
| EventSent: "event_send c evt ua = Done (sent, ua') \<Longrightarrow> ua_step ua [] ua'"
| Cancel: "handle_cancel T caps ua r = Some (res, back, ua') \<Longrightarrow>
    ua_step ua (case res of Inr replies \<Rightarrow> if final_reply replies then [the (cancellables ua (cancel_key r))] else [] | Inl _ \<Rightarrow> []) ua'"
| New: "acceptor_new slot_insert ua dialog invite = Some (acc, ua') \<Longrightarrow> ua_step ua [] ua'"
| Accept: "success_start ua tx acc response sent now = Some (res, out, ua', tx') \<Longrightarrow> ua_step ua (if out = [] then [] else [ia_inner acc]) ua'"
| AcceptFailed: "success_abort ua acc dialog q c = Some ua' \<Longrightarrow> ua_step ua [] ua'"
| AcceptDone: "success_finish ua acc p ack = Some (session, ua') \<Longrightarrow> ua_step ua [] ua'"
| Reject: "acceptor_respond_failure ua acc response sent now wks = Some (res, out, ua') \<Longrightarrow> ua_step ua (if out = [] then [] else [ia_inner acc]) ua'"
| Reliable: "reliable_start ua acc response rack sent = Some (rel, out, ua') \<Longrightarrow> ua_step ua [] ua'"
| Cancelled: "acceptor_cancelled ua acc = Some (acc', ua') \<Longrightarrow> ua_step ua [] ua'"
| DropAcceptor: "ua_step ua [] (acceptor_drop ua acc)"
| ReInvite: "reinvite_success ua tx session invite tsx response sent = Some (rei, out, ua', tx') \<Longrightarrow> ua_step ua [] ua'"
| Terminate: "terminate_request T ua session = Some (bye, session', ua') \<Longrightarrow> ua_step ua [] ua'"
| Events: "events_recv ua session = Some (evt, ua') \<Longrightarrow> ua_step ua [] ua'"
| Route: "dialog_route ua r = Some (routed, ua') \<Longrightarrow> ua_step ua [] ua'"
| DropDialog: "dialog_drop ua dialog = Some ua' \<Longrightarrow> ua_step ua [] ua'"
| DropGuard: "ua_step ua [] (guard_drop ua g)"
| DropOneshot: "ua_step ua [] (oneshot_drop_receiver c ua)"
| DropEvents: "ua_step ua [] (events_drop_receiver q ua)"

inductive ua_run :: "UserAgent \<Rightarrow> nat list \<Rightarrow> UserAgent \<Rightarrow> bool" where
  Stop: "ua_run ua [] ua"
| Step: "ua_run ua l ua' \<Longrightarrow> ua_step ua' l' ua'' \<Longrightarrow> ua_run ua (l @ l') ua''"

fun unanswered :: "InviteSessionState \<Rightarrow> bool" where
  "unanswered (UasProvisional _ _ _) = True"
| "unanswered _ = False"

definition provisional :: "UserAgent \<Rightarrow> nat \<Rightarrow> bool" where
  "provisional ua a = (case inners ua a of None \<Rightarrow> False | Some inner \<Rightarrow> unanswered (in_state inner))"

definition allocated :: "UserAgent \<Rightarrow> bool" where
  "allocated ua \<longleftrightarrow> (\<forall>a. next_address ua \<le> a \<longrightarrow> inners ua a = None)"

text \<open>What every operation does to the states of the INVITEs, given what it answers.\<close>

definition answers :: "UserAgent \<Rightarrow> nat list \<Rightarrow> UserAgent \<Rightarrow> bool" where
  "answers ua l ua' \<longleftrightarrow> allocated ua' \<and> next_address ua \<le> next_address ua' \<and> distinct l
     \<and> (\<forall>a\<in>set l. provisional ua a \<and> \<not> provisional ua' a)
     \<and> (\<forall>a. provisional ua' a \<longrightarrow> provisional ua a \<or> next_address ua \<le> a)"

lemma answers_same:
  assumes "allocated ua" "inners ua' = inners ua" "next_address ua' = next_address ua"
  shows "answers ua [] ua'"
  using assms by (auto simp: answers_def allocated_def provisional_def)

lemma answers_put:
  assumes "allocated ua" "inners ua a = Some old" "inners ua' = (inners ua)(a \<mapsto> new)" "next_address ua \<le> next_address ua'"
    and "unanswered (in_state new) \<Longrightarrow> unanswered (in_state old)"
    and "l = [] \<or> l = [a] \<and> unanswered (in_state old) \<and> \<not> unanswered (in_state new)"
  shows "answers ua l ua'"
  using assms by (auto simp: answers_def allocated_def provisional_def split: if_splits)

lemma guard_drop_keeps: "inners (guard_drop ua g) = inners ua" "next_address (guard_drop ua g) = next_address ua"
  by (simp_all add: guard_drop_def split: option.split)

lemma acceptor_drop_keeps: "inners (acceptor_drop ua acc) = inners ua" "next_address (acceptor_drop ua acc) = next_address ua"
  by (simp_all add: acceptor_drop_def Let_def guard_drop_keeps split: option.split)

lemma dialog_drop_keeps: "dialog_drop ua d = Some ua' \<Longrightarrow> inners ua' = inners ua \<and> next_address ua' = next_address ua"
  by (auto simp: dialog_drop_def)

lemma oneshot_keeps:
  "inners (oneshot_drop_sender c ua) = inners ua" "next_address (oneshot_drop_sender c ua) = next_address ua"
  "inners (snd (oneshot_send c r ua)) = inners ua" "next_address (snd (oneshot_send c r ua)) = next_address ua"
  by (simp_all add: oneshot_drop_sender_def oneshot_send_def)

lemma receivers_keep:
  "inners (oneshot_drop_receiver c ua) = inners ua" "next_address (oneshot_drop_receiver c ua) = next_address ua"
  "inners (events_drop_receiver q ua) = inners ua" "next_address (events_drop_receiver q ua) = next_address ua"
  by (simp_all add: oneshot_drop_receiver_def events_drop_receiver_def)

lemma event_send_keeps: "event_send c e ua = Done (b, ua') \<Longrightarrow> inners ua' = inners ua \<and> next_address ua' = next_address ua"
  by (auto simp: event_send_def split: option.splits if_splits)

lemma put_inner_keeps: "inners (put_inner a i ua) = (inners ua)(a \<mapsto> i)" "next_address (put_inner a i ua) = next_address ua"
  by (simp_all add: put_inner_def)

lemmas keeps = guard_drop_keeps acceptor_drop_keeps oneshot_keeps receivers_keep put_inner_keeps

lemma success_abort_keeps: "success_abort ua acc d q c = Some ua' \<Longrightarrow> inners ua' = inners ua \<and> next_address ua' = next_address ua"
  by (auto simp: success_abort_def keeps dest!: dialog_drop_keeps)

lemma register_usage_keeps:
  "register_usage slot_insert ua key u = Some (g, ua') \<Longrightarrow> inners ua' = inners ua \<and> next_address ua' = next_address ua"
  by (auto simp: register_usage_def case_prod_beta)

lemma acceptor_new_answers:
  "allocated ua \<Longrightarrow> acceptor_new slot_insert ua dialog invite = Some (acc, ua') \<Longrightarrow> answers ua [] ua'"
  by (auto simp: acceptor_new_def Let_def bind_eq_Some_conv keeps answers_def allocated_def provisional_def
      split: if_splits dest!: register_usage_keeps)

lemma success_start_answers:
  assumes "allocated ua" "success_start ua tx acc response sent now = Some (res, out, ua', tx')"
  shows "answers ua (if out = [] then [] else [ia_inner acc]) ua'"
proof -
  from assms(2) obtain inner where inner: "inners ua (ia_inner acc) = Some inner" by (auto simp: success_start_def bind_eq_Some_conv)
  show ?thesis
  proof (cases "in_state inner")
    case (UasProvisional d t i)
    then have "\<exists>new. inners ua' = (inners ua)(ia_inner acc \<mapsto> new) \<and> in_state new = Established (next_address ua) \<and> next_address ua \<le> next_address ua'"
      using assms(2) inner
      by (auto simp: success_start_def Let_def set_established_def bind_eq_Some_conv keeps split: prod.splits sum.splits if_splits dest!: success_abort_keeps)
    then show ?thesis using UasProvisional assms(1) inner by (auto intro!: answers_put)
  qed (use assms inner in \<open>auto simp: success_start_def Let_def set_established_def keeps intro!: answers_same\<close>)
qed

lemma respond_failure_answers:
  assumes "allocated ua" "acceptor_respond_failure ua acc response sent now wks = Some (res, out, ua')"
  shows "answers ua (if out = [] then [] else [ia_inner acc]) ua'"
proof -
  from assms(2) obtain inner where inner: "inners ua (ia_inner acc) = Some inner" by (auto simp: acceptor_respond_failure_def bind_eq_Some_conv)
  show ?thesis
  proof (cases "in_state inner")
    case (UasProvisional d t i)
    then have "\<exists>new. inners ua' = (inners ua)(ia_inner acc \<mapsto> new) \<and> in_state new = Cancelled \<and> next_address ua \<le> next_address ua'"
      using assms(2) inner
      by (auto simp: acceptor_respond_failure_def set_cancelled_def bind_eq_Some_conv keeps dest!: dialog_drop_keeps)
    then show ?thesis using UasProvisional assms(1) inner by (auto intro!: answers_put)
  qed (use assms inner in \<open>auto simp: acceptor_respond_failure_def set_cancelled_def keeps intro!: answers_same\<close>)
qed

lemma awaited_prack_drop_keeps:
  "inners (awaited_prack_drop inner ua) = inners ua" "next_address (awaited_prack_drop inner ua) = next_address ua"
  by (simp_all add: awaited_prack_drop_def keeps split: option.split)

lemma reliable_start_answers:
  assumes "allocated ua" "reliable_start ua acc response rack sent = Some (rel, out, ua')"
  shows "answers ua [] ua'"
proof -
  from assms(2) obtain inner where inner: "inners ua (ia_inner acc) = Some inner" by (auto simp: reliable_start_def bind_eq_Some_conv)
  have "ua' = ua \<or> (\<exists>new. inners ua' = (inners ua)(ia_inner acc \<mapsto> new) \<and> in_state new = in_state inner \<and> next_address ua \<le> next_address ua')"
    using assms(2) inner
    by (cases "in_state inner")
      (auto simp: reliable_start_def Let_def respond_provisional_def keeps awaited_prack_drop_keeps split: if_splits)
  then show ?thesis using assms(1) inner by (auto simp: answers_same intro!: answers_put [where a = "ia_inner acc"])
qed

lemma cancelled_answers:
  "allocated ua \<Longrightarrow> acceptor_cancelled ua acc = Some (acc', ua') \<Longrightarrow> answers ua [] ua'"
  by (cases "ia_cancelled acc") (auto simp: acceptor_cancelled_def bind_eq_Some_conv keeps answers_same split: if_splits
      intro!: answers_put[where a = "ia_inner acc"])

lemma reinvite_answers:
  "allocated ua \<Longrightarrow> reinvite_success ua tx session invite tsx response sent = Some (rei, out, ua', tx') \<Longrightarrow> answers ua [] ua'"
  by (auto simp: reinvite_success_def Let_def bind_eq_Some_conv keeps split: option.splits
      intro!: answers_put[where a = "is_inner session"])

lemma terminate_answers:
  "allocated ua \<Longrightarrow> terminate_request T ua session = Some (bye, session', ua') \<Longrightarrow> answers ua [] ua'"
  by (auto simp: terminate_request_def set_terminated_def keeps case_prod_beta
      intro!: answers_put[where a = "is_inner session"])

lemma events_answers:
  "allocated ua \<Longrightarrow> events_recv ua session = Some (evt, ua') \<Longrightarrow> answers ua [] ua'"
  by (auto simp: events_recv_def split: option.splits list.splits if_splits intro!: answers_same)

lemma route_answers:
  "allocated ua \<Longrightarrow> dialog_route ua r = Some (routed, ua') \<Longrightarrow> answers ua [] ua'"
  by (auto simp: dialog_route_def Let_def bind_eq_Some_conv case_prod_beta split: option.splits if_splits intro!: answers_same)

lemma handle_bye_keeps:
  "handle_bye_in_provisional_state T caps ua dialog tsx invite bye = Some (r, ua') \<Longrightarrow> inners ua' = inners ua \<and> next_address ua' = next_address ua"
  by (auto simp: handle_bye_in_provisional_state_def bind_eq_Some_conv dest!: dialog_drop_keeps)

lemma handle_prack_answers:
  assumes "allocated ua" "handle_prack T a request ua = Some (r, back, ua')"
  shows "answers ua [] ua' \<and> (case r of Inl _ \<Rightarrow> True | Inr replies \<Rightarrow> \<not> final_reply replies)"
proof -
  from assms(2) obtain inner where inner: "inners ua a = Some inner" by (auto simp: handle_prack_def bind_eq_Some_conv)
  show ?thesis
  proof (cases "awaited_prack inner")
    case None
    then show ?thesis using assms inner by (auto simp: handle_prack_def final_reply_def answers_same)
  next
    case (Some awaited)
    then show ?thesis
      using assms inner
      by (cases "headers_get (ir_headers request) RACK (decode_first rack_parse)")
        (auto simp: handle_prack_def bind_eq_Some_conv keeps final_reply_def answers_same split: if_splits
          intro!: answers_put[where a = a and old = inner and new = "inner\<lparr>awaited_prack := None\<rparr>"])
  qed
qed

lemma handle_cancel_answers:
  assumes "allocated ua" "handle_cancel T caps ua r = Some (res, back, ua')"
  shows "answers ua (case res of Inr replies \<Rightarrow> if final_reply replies then [the (cancellables ua (cancel_key r))] else [] | Inl _ \<Rightarrow> []) ua'"
proof (cases "cancellables ua (cancel_key r)")
  case None
  then show ?thesis using assms by (auto simp: handle_cancel_def cancel_key_def final_reply_def answers_same)
next
  case (Some a)
  then obtain inner where inner: "inners ua a = Some inner"
    using assms(2) by (auto simp: handle_cancel_def cancel_key_def Let_def bind_eq_Some_conv)
  show ?thesis
  proof (cases "in_state inner")
    case (UasProvisional d t i)
    then have "\<exists>new. inners ua' = (inners ua)(a \<mapsto> new) \<and> in_state new = Cancelled \<and> next_address ua \<le> next_address ua'"
      using assms(2) inner Some
      by (auto simp: handle_cancel_def cancel_key_def Let_def set_cancelled_def bind_eq_Some_conv keeps dest!: dialog_drop_keeps)
    then show ?thesis using UasProvisional assms(1) inner Some by (auto split: sum.split intro!: answers_put)
  qed (use assms inner Some in \<open>auto simp: handle_cancel_def cancel_key_def Let_def set_cancelled_def final_reply_def bind_eq_Some_conv
        case_prod_beta intro!: answers_same\<close>)
qed

lemma receive_invite_answers:
  assumes "allocated ua" "rl_method (ir_line r) = INVITE" "usage_receive T caps a r ua = Some (Done (replies, back, ua'))"
  shows "replies = [] \<and> answers ua [] ua'"
proof -
  from assms(3) obtain inner where inner: "inners ua a = Some inner" by (auto simp: usage_receive_def bind_eq_Some_conv)
  show ?thesis
    using assms inner
    by (cases "in_state inner")
      (auto simp: usage_receive_def answers_same split: Handled.splits prod.splits intro!: answers_same dest!: event_send_keeps)
qed

lemma blocked_answers:
  assumes "allocated ua" "usage_receive T caps a r ua = Some (Blocked ua')"
  shows "answers ua [] ua'"
proof -
  from assms(2) obtain inner where inner: "inners ua a = Some inner" by (auto simp: usage_receive_def bind_eq_Some_conv)
  have "ua' = ua \<or> ua' = put_inner a (inner\<lparr>in_state := SessionTerminated\<rparr>) ua"
    using assms(2) inner
    by (cases "rl_method (ir_line r)"; cases "in_state inner")
      (auto simp: usage_receive_def event_send_def set_terminated_def case_prod_beta split: option.splits if_splits Handled.splits)
  then show ?thesis using assms(1) inner by (auto simp: answers_same keeps intro!: answers_put [where a = a])
qed

lemma receive_ack_answers:
  assumes "allocated ua" "rl_method (ir_line r) = ACK" "usage_receive T caps a r ua = Some (Done (replies, back, ua'))"
  shows "replies = [] \<and> answers ua [] ua'"
proof -
  from assms(3) obtain inner where inner: "inners ua a = Some inner" by (auto simp: usage_receive_def bind_eq_Some_conv)
  show ?thesis
  proof (cases "awaited_ack inner")
    case None
    then show ?thesis using assms inner by (auto simp: usage_receive_def answers_same)
  next
    case (Some awaited)
    let ?new = "inner\<lparr>awaited_ack := None\<rparr>"
    have "aa_cseq awaited = request_cseq r \<Longrightarrow> ua' = snd (oneshot_send (ack_sender awaited) r (put_inner a ?new ua))"
      using assms Some inner by (auto simp: usage_receive_def case_prod_beta)
    then show ?thesis using assms Some inner
      by (cases "aa_cseq awaited = request_cseq r")
        (auto simp: usage_receive_def keeps case_prod_beta answers_same intro!: answers_put[where a = a and new = ?new])
  qed
qed

lemma receive_bye_answers:
  assumes "allocated ua" "rl_method (ir_line r) = BYE" "usage_receive T caps a r ua = Some (Done (replies, back, ua'))"
  shows "answers ua (if final_reply replies then [a] else []) ua'"
proof -
  from assms(3) obtain inner where inner: "inners ua a = Some inner" by (auto simp: usage_receive_def bind_eq_Some_conv)
  have "\<exists>new. inners ua' = (inners ua)(a \<mapsto> new) \<and> in_state new = SessionTerminated \<and> next_address ua' = next_address ua"
    using assms(2,3) inner
    by (cases "in_state inner")
      (auto simp: usage_receive_def set_terminated_def keeps split: Handled.splits prod.splits
        dest!: event_send_keeps handle_bye_keeps)
  moreover have "final_reply replies \<Longrightarrow> unanswered (in_state inner)"
    using assms(2,3) inner
    by (cases "in_state inner")
      (auto simp: usage_receive_def set_terminated_def final_reply_def split: Handled.splits prod.splits)
  ultimately show ?thesis using assms(1) inner by (auto intro!: answers_put)
qed

lemma usage_receive_answers:
  assumes "allocated ua" "usage_receive T caps a r ua = Some (Done (replies, back, ua'))"
  shows "answers ua (if final_reply replies then [a] else []) ua'"
proof (cases "rl_method (ir_line r) \<in> {INVITE, ACK}")
  case True
  then show ?thesis using assms receive_invite_answers receive_ack_answers by (fastforce simp: final_reply_def)
next
  case False
  consider (bye) "rl_method (ir_line r) = BYE" | (prack) "rl_method (ir_line r) = PRACK"
    | (other) "rl_method (ir_line r) \<notin> {INVITE, ACK, BYE, PRACK}" using False by auto
  then show ?thesis
  proof cases
    case bye
    then show ?thesis using assms receive_bye_answers by blast
  next
    case prack
    show ?thesis
    proof (cases "\<exists>x. handle_prack T a r ua = Some (x, back, ua') \<and> replies = (case x of Inl _ \<Rightarrow> [] | Inr rs \<Rightarrow> rs)")
      case True
      then show ?thesis using assms(1) handle_prack_answers by (fastforce simp: final_reply_def split: sum.splits)
    next
      case False
      then show ?thesis using assms prack
        by (auto simp: usage_receive_def bind_eq_Some_conv final_reply_def answers_same split: if_splits)
    qed
  next
    case other
    then show ?thesis using assms
      by (cases "rl_method (ir_line r)") (auto simp: usage_receive_def bind_eq_Some_conv final_reply_def answers_same)
  qed
qed

lemmas operation_answers =
  usage_receive_answers blocked_answers handle_cancel_answers acceptor_new_answers success_start_answers respond_failure_answers
  reliable_start_answers cancelled_answers reinvite_answers terminate_answers events_answers route_answers

lemma step_answers: "ua_step ua l ua' \<Longrightarrow> allocated ua \<Longrightarrow> answers ua l ua'"
  by (induction rule: ua_step.induct)
    (auto intro: operation_answers answers_same simp: keeps success_finish_def dest: dialog_drop_keeps success_abort_keeps event_send_keeps split del: if_split)

lemma run_answers:
  "ua_run ua l ua' \<Longrightarrow> allocated ua \<Longrightarrow> distinct l \<and> allocated ua' \<and> (\<forall>a\<in>set l. \<not> provisional ua' a \<and> a < next_address ua')"
proof (induction rule: ua_run.induct)
  case (Step ua l ua' l' ua'')
  then have IH: "distinct l" "allocated ua'" "\<forall>a\<in>set l. \<not> provisional ua' a \<and> a < next_address ua'" by auto
  from step_answers[OF Step.hyps(2) IH(2)] have st: "answers ua' l' ua''" .
  have "a < next_address ua'" if "provisional ua' a" for a
    using that IH(2) by (rule_tac ccontr) (auto simp: provisional_def allocated_def)
  then show ?case using IH st by (fastforce simp: answers_def)
qed simp

text \<open>C4: an INVITE is answered at most once, however its acceptor is used while CANCEL, BYE and other requests arrive: no two operations of a run give the final answer of the same INVITE, and an INVITE that was answered takes no further one.\<close>

theorem invite_answered_once:
  assumes "allocated ua" "ua_run ua l ua'"
  shows "distinct l \<and> \<not> list_ex (provisional ua') l"
  using run_answers[OF assms(2,1)] by (auto simp: list_ex_iff)

section \<open>Waiting for the ACK\<close>

text \<open>C19: when an INVITE was accepted, the first ACK of its number that its usage receives is taken and handed to the acceptor that waits for it; an ACK of any other number is left to the dialog, and the acceptor keeps waiting.\<close>

theorem accepted_gets_its_ack:
  assumes inner: "inners ua (ia_inner acc) = Some inner" and state: "in_state inner = UasProvisional d t invite"
    and start: "success_start ua tx acc response sent now = Some (Inr p, out, ua', tx')" and ack: "rl_method (ir_line ack) = ACK"
  shows "if request_cseq ack = request_cseq invite
    then \<exists>ua''. usage_receive T caps (ia_inner acc) ack ua' = Some (Done ([], None, ua'')) \<and> oneshot_poll (oneshots ua'' (ap_ack p)) = Some (Some ack)
    else usage_receive T caps (ia_inner acc) ack ua' = Some (Done ([], Some ack, ua')) \<and> oneshot_poll (oneshots ua' (ap_ack p)) = None"
proof -
  from start inner state have "\<exists>new. inners ua' (ia_inner acc) = Some new
      \<and> awaited_ack new = Some \<lparr>aa_cseq = request_cseq invite, ack_sender = ap_ack p\<rparr> \<and> oneshots ua' (ap_ack p) = Awaiting"
    by (auto simp: success_start_def Let_def set_established_def bind_eq_Some_conv keeps split: prod.splits sum.splits if_splits)
  then show ?thesis using ack by (auto simp: usage_receive_def oneshot_send_def put_inner_def)
qed

lemma ack_loop_silent:
  assumes "length wks = n" "list_all (\<lambda>w. wk_outcome w = DeadlineElapsed \<and> wk_sent w) wks"
    and "receive_ack_loop n \<lparr>ac_registration = reg, ac_response = send_outgoing_response response\<rparr> delta start wks = Some (r, out)" "r \<noteq> NotPossible"
  shows "r = Ready (Inl RequestTimedOut) \<and> out = replicate n (transmit_response (send_outgoing_response response))"
  using assms
proof (induction wks arbitrary: n delta start r out)
  case (Cons w wks)
  then show ?case
    by (auto simp: accepted_retransmit_def Let_def transmit_response_twice split: if_splits)
qed simp

lemma ack_loop_time:
  assumes "length wks = Suc n" "list_all (\<lambda>w. wk_outcome w = DeadlineElapsed \<and> wk_sent w) wks"
    and "receive_ack_loop (Suc n) accepted delta start wks = Some (r, out)" "r \<noteq> NotPossible"
  shows "start + delta + of_nat n * min (T1 * 2) T2 \<le> wk_at (last wks)"
  using assms
proof (induction wks arbitrary: n accepted delta start r out)
  case (Cons w wks)
  then show ?case
  proof (cases n)
    case (Suc m)
    then obtain r' out' where "receive_ack_loop (Suc m) (fst (snd (accepted_retransmit accepted True))) (min (T1 * 2) T2) (wk_done w) wks = Some (r', out')"
        "r' \<noteq> NotPossible"
      using Cons.prems by (auto simp: accepted_retransmit_def Let_def split: if_splits)
    then have "wk_done w + min (T1 * 2) T2 + of_nat m * min (T1 * 2) T2 \<le> wk_at (last wks)"
      using Cons.IH[of m] Cons.prems Suc by auto
    moreover have "start + delta \<le> wk_done w" using Cons.prems by (auto simp: wait_ok_def split: if_splits)
    moreover have "wks \<noteq> []" using Suc Cons.prems by auto
    ultimately show ?thesis using Suc by (simp add: algebra_simps)
  qed (auto simp: wait_ok_def split: if_splits)
qed simp

text \<open>C30: if no ACK arrives, the acceptor transmits the response nine more times, unchanged, and gives up with a timeout; this takes at least 8.5 seconds, because the interval stays at one second after the first retransmission.\<close>

theorem missing_ack_times_out:
  assumes "length wks = 9" "list_all (\<lambda>w. wk_outcome w = DeadlineElapsed \<and> wk_sent w) wks"
    and "respond_success tx tsx response True = Some (Inr accepted, [tr], tx')"
    and "receive_ack accepted start wks = Some (r, out)" "r \<noteq> NotPossible"
  shows "r = Ready (Inl RequestTimedOut) \<and> out = replicate 9 tr \<and> start + from_millis 8500 \<le> wk_at (last wks)"
proof -
  from assms(3) have accepted: "accepted = \<lparr>ac_registration = si_registration tsx, ac_response = send_outgoing_response response\<rparr>"
      and tr: "tr = transmit_response (send_outgoing_response response)"
    by (auto simp: respond_success_def Let_def split: if_splits)
  have "start + T1 + of_nat 8 * min (T1 * 2) T2 \<le> wk_at (last wks)"
    using ack_loop_time[of wks 8] assms by (simp add: receive_ack_def eval_nat_numeral)
  moreover have "T1 + of_nat 8 * min (T1 * 2) T2 = from_millis 8500" by (simp add: T1_def T2_def from_millis_def)
  ultimately show ?thesis
    using ack_loop_silent[of wks 9] assms accepted tr by (simp add: receive_ack_def)
qed

section \<open>Reliable provisional responses\<close>

lemma reliable_started:
  assumes "reliable_start ua acc response rack sent = Some (Inr (sent_response, c), out, ua')"
  obtains inner d t invite new where "inners ua (ia_inner acc) = Some inner" "in_state inner = UasProvisional d t invite"
    "inners ua' (ia_inner acc) = Some new" "peer_supports_100rel new" "oneshots ua' c = Awaiting"
    "awaited_prack new = Some \<lparr>prack_sender = c, ap_cseq = request_cseq invite, ap_rack = rack\<rparr>"
  using assms
  by (auto simp: reliable_start_def Let_def bind_eq_Some_conv put_inner_def respond_provisional_def
      split: if_splits InviteSessionState.splits)

text \<open>C39: a PRACK whose RAck header cannot be read makes the acceptor panic: the request is refused, but what would have woken the acceptor that waits for the PRACK is gone, and the wait unwraps the error.\<close>

theorem unreadable_prack_panics:
  assumes rel: "reliable_start ua acc response rack sent = Some (Inr (sent_response, c), out, ua')"
    and prack: "rl_method (ir_line prack) = PRACK" "headers_get (ir_headers prack) RACK (decode_first rack_parse) = Inl e"
    and wake: "wk_outcome w = Got None" "wait_ok None (start + T1) start w"
  shows "\<exists>ua''. usage_receive T caps (ia_inner acc) prack ua' = Some (Done ([], Some prack, ua''))
    \<and> oneshot_poll (oneshots ua'' c) = Some None \<and> reliable_wait sent_response start (w # wks) = None"
proof -
  from rel obtain new awaited where "inners ua' (ia_inner acc) = Some new" "peer_supports_100rel new" "oneshots ua' c = Awaiting"
      "awaited_prack new = Some awaited" "prack_sender awaited = c"
    by (rule reliable_started) auto
  then show ?thesis
    using prack wake by (auto simp: usage_receive_def handle_prack_def oneshot_drop_sender_def put_inner_def reliable_wait_def eval_nat_numeral)
qed

text \<open>C18: a PRACK that names the number of the reliable response and of the INVITE is answered with 200 and handed to the acceptor, whose wait returns it.\<close>

theorem prack_acknowledges:
  assumes rel: "reliable_start ua acc response rack sent = Some (Inr (sent_response, c), out, ua')"
    and inner: "inners ua (ia_inner acc) = Some inner" "in_state inner = UasProvisional d t invite"
    and prack: "rl_method (ir_line prack) = PRACK" "headers_get (ir_headers prack) RACK (decode_first rack_parse) = Inr \<lparr>ra_rack = rack, ra_cseq = request_cseq invite, ra_method = m\<rparr>"
    and new: "server_new prack = Some (tsx, prack')" "create_response T prack' OK_STATUS None = Some answer"
    and wake: "wk_outcome w = Got (Some prack')" "wait_ok None (start + T1) start w"
  shows "\<exists>ua''. usage_receive T caps (ia_inner acc) prack ua' = Some (Done ([AnswerRequest tsx answer], None, ua''))
    \<and> oneshot_poll (oneshots ua'' c) = Some (Some prack') \<and> reliable_wait sent_response start (w # wks) = Some (Ready (Inr prack'), [])"
proof -
  from rel obtain new where "inners ua' (ia_inner acc) = Some new" "peer_supports_100rel new" "oneshots ua' c = Awaiting"
      "awaited_prack new = Some \<lparr>prack_sender = c, ap_cseq = request_cseq invite, ap_rack = rack\<rparr>"
    by (rule reliable_started) (use inner in auto)
  then show ?thesis
    using assms by (auto simp: usage_receive_def handle_prack_def oneshot_send_def put_inner_def reliable_wait_def eval_nat_numeral)
qed

section \<open>Examples\<close>

definition sample_registration :: TsxRegistration where
  "sample_registration = \<lparr>reg_key = sample_key, reg_channel = 0\<rparr>"

definition sample_uas_dialog :: Dialog where
  "sample_uas_dialog = \<lparr>local_cseq = 1, local_fromto = sample_from, peer_fromto = sample_from, local_contact = sample_contact,
     peer_contact = sample_contact, dg_call_id = [], route_set = [], dg_secure = False, target_tp_info = no_target\<rparr>"

definition sample_inner :: Inner where
  "sample_inner = \<lparr>in_state = UasProvisional sample_uas_dialog \<lparr>si_registration = sample_registration\<rparr> (numbered 7), peer_supports_timer = False,
     peer_supports_100rel = True, awaited_ack = None, awaited_prack = None, cancelled_notify = False\<rparr>"

definition sample_ua :: UserAgent where
  "sample_ua = \<lparr>dialogs = (\<lambda>_. None), inners = [0 \<mapsto> sample_inner], cancellables = (\<lambda>_. None), oneshots = (\<lambda>_. Awaiting),
     event_queues = (\<lambda>_. None), next_address = 1\<rparr>"

definition sample_acceptor :: InviteAcceptor where
  "sample_acceptor = \<lparr>ia_inner = 0, ia_key = \<lparr>ck_cseq = 7, ck_branch = []\<rparr>, ia_cancelled = False, ia_guard = None, ia_timer_config = acceptor_default\<rparr>"

definition asking :: "SipMethod \<Rightarrow> u32 \<Rightarrow> Headers \<Rightarrow> IncomingRequest" where
  "asking m n headers = (numbered n)\<lparr>ir_line := \<lparr>rl_method = m, rl_uri = na_uri (ft_uri sample_from)\<rparr>, ir_headers := headers, ir_tsx := Some sample_registration\<rparr>"

lemmas sample_session_defs = sample_ua_def sample_acceptor_def sample_inner_def sample_uas_dialog_def

lemma sample_rejected:
  "\<exists>out ua'. out \<noteq> [] \<and> inners ua' 0 = Some (sample_inner\<lparr>in_state := Cancelled, cancelled_notify := True\<rparr>)
     \<and> acceptor_respond_failure sample_ua sample_acceptor (sample_response 486) False 0 [] = Some (Ready (Inl (CoreFault IoError)), out, ua')"
  by (simp add: acceptor_respond_failure_def sample_session_defs set_cancelled_def dialog_drop_def dialog_key_def sample_from_def respond_failure_def
      sample_busy_kind Let_def put_inner_def acceptor_drop_def)

lemma rejected_again:
  "inners ua 0 = Some (sample_inner\<lparr>in_state := Cancelled, cancelled_notify := True\<rparr>) \<Longrightarrow>
     acceptor_respond_failure ua sample_acceptor (sample_response 486) False 0 [] = Some (Ready (Inl RequestTerminated), [], acceptor_drop ua sample_acceptor)"
  by (simp add: acceptor_respond_failure_def sample_session_defs set_cancelled_def)

theorem invite_answered_once_witness:
  "\<exists>ua'. ua_run sample_ua [0] ua' \<and> distinct [0::nat] \<and> \<not> list_ex (provisional ua') [0]"
proof -
  obtain out ua1 where 1: "out \<noteq> []" "inners ua1 0 = Some (sample_inner\<lparr>in_state := Cancelled, cancelled_notify := True\<rparr>)"
      "acceptor_respond_failure sample_ua sample_acceptor (sample_response 486) False 0 [] = Some (Ready (Inl (CoreFault IoError)), out, ua1)"
    using sample_rejected by blast
  have "ua_step sample_ua [0] ua1" using Reject[OF 1(3)] 1(1) by (simp add: sample_acceptor_def)
  moreover have "ua_step ua1 [] (acceptor_drop ua1 sample_acceptor)" using Reject[OF rejected_again[OF 1(2)]] by simp
  ultimately have "ua_run sample_ua [0] (acceptor_drop ua1 sample_acceptor)"
    using Step[OF Step[OF Stop]] by fastforce
  moreover have "allocated sample_ua" by (simp add: allocated_def sample_ua_def)
  ultimately show ?thesis using invite_answered_once by blast
qed

definition one_transaction :: Transactions where
  "one_transaction = no_transactions\<lparr>tsx_map := [(sample_key, SendTo 0)]\<rparr>"

lemma sample_accepted:
  "\<exists>out ua' tx'. success_start sample_ua one_transaction sample_acceptor (sample_response 200) True 0
     = Some (Inr \<lparr>ap_accepted = \<lparr>ac_registration = sample_registration, ac_response = send_outgoing_response (sample_response 200)\<rparr>,
         ap_ack = 2, ap_events = 1, ap_timer = new_unsupported, ap_dialog = sample_uas_dialog\<rparr>, out, ua', tx')"
  by (simp add: success_start_def sample_session_defs set_established_def Let_def respond_success_def sample_response_def code_kind_def
      add_filter_def one_transaction_def sample_registration_def)

theorem accepted_gets_its_ack_witness:
  "\<exists>p ua' ua''. usage_receive decimal_ip6 sample_caps 0 (asking ACK 7 []) ua' = Some (Done ([], None, ua''))
     \<and> oneshot_poll (oneshots ua'' (ap_ack (p :: Accepting))) = Some (Some (asking ACK 7 []))
     \<and> usage_receive decimal_ip6 sample_caps 0 (asking ACK 6 []) ua' = Some (Done ([], Some (asking ACK 6 []), ua'))"
proof -
  obtain p out ua' tx' where start: "success_start sample_ua one_transaction sample_acceptor (sample_response 200) True 0 = Some (Inr p, out, ua', tx')"
    using sample_accepted by blast
  have inner: "inners sample_ua (ia_inner sample_acceptor) = Some sample_inner"
    "in_state sample_inner = UasProvisional sample_uas_dialog \<lparr>si_registration = sample_registration\<rparr> (numbered 7)"
    by (simp_all add: sample_ua_def sample_acceptor_def sample_inner_def)
  note got = accepted_gets_its_ack[OF inner start, where T = decimal_ip6 and caps = sample_caps]
  have "rl_method (ir_line (asking ACK n h)) = ACK" "request_cseq (asking ACK n h) = n" for n h
    by (simp_all add: asking_def numbered_key)
  then show ?thesis using got[of "asking ACK 7 []"] got[of "asking ACK 6 []"] by (simp add: numbered_key sample_acceptor_def) blast
qed

definition silent_wakes :: "IncomingRequest option Wake list" where
  "silent_wakes = map (wake_at DeadlineElapsed) [500, 1500, 2500, 3500, 4500, 5500, 6500, 7500, 8500]"

lemma ack_loop_waits:
  "start + delta \<le> from_millis t \<Longrightarrow> \<forall>a. \<exists>r out. receive_ack_loop n a (min (T1 * 2) T2) (from_millis t) wks = Some (r, out) \<and> r \<noteq> NotPossible
     \<Longrightarrow> \<forall>a. \<exists>r out. receive_ack_loop (Suc n) a delta start (wake_at DeadlineElapsed t # wks) = Some (r, out) \<and> r \<noteq> NotPossible"
  by (fastforce simp: wake_at_def wait_ok_def accepted_retransmit_def Let_def from_millis_def)

lemma silent_wakes_run: "\<exists>r out. receive_ack accepted 0 silent_wakes = Some (r, out) \<and> r \<noteq> NotPossible"
proof -
  have "\<forall>a. \<exists>r out. receive_ack_loop (Suc (Suc (Suc (Suc (Suc (Suc (Suc (Suc (Suc 0))))))))) a T1 0 silent_wakes = Some (r, out) \<and> r \<noteq> NotPossible"
    unfolding silent_wakes_def list.map by (rule ack_loop_waits, simp add: T1_def T2_def from_millis_def)+ simp
  then show ?thesis by (simp add: receive_ack_def eval_nat_numeral)
qed

theorem missing_ack_times_out_witness:
  "\<exists>accepted tr out tx'. respond_success one_transaction \<lparr>si_registration = sample_registration\<rparr> (sample_response 200) True = Some (Inr accepted, [tr], tx')
     \<and> receive_ack accepted 0 silent_wakes = Some (Ready (Inl RequestTimedOut), out) \<and> out = replicate 9 tr \<and> wk_at (last silent_wakes) = from_millis 8500"
proof -
  obtain accepted tr tx' where ok: "respond_success one_transaction \<lparr>si_registration = sample_registration\<rparr> (sample_response 200) True = Some (Inr accepted, [tr], tx')"
    by (simp add: respond_success_def sample_response_def code_kind_def Let_def add_filter_def one_transaction_def sample_registration_def)
  obtain r out where run: "receive_ack accepted 0 silent_wakes = Some (r, out)" "r \<noteq> NotPossible"
    using silent_wakes_run by blast
  have "length silent_wakes = 9" "list_all (\<lambda>w. wk_outcome w = DeadlineElapsed \<and> wk_sent w) silent_wakes" "wk_at (last silent_wakes) = from_millis 8500"
    by (simp_all add: silent_wakes_def wake_at_def)
  moreover from this have "r = Ready (Inl RequestTimedOut) \<and> out = replicate 9 tr" using missing_ack_times_out[OF _ _ ok run] by simp
  ultimately show ?thesis using ok run by blast
qed

lemma sample_reliable:
  "\<exists>resp out ua'. reliable_start sample_ua sample_acceptor (sample_response 183) 5 True = Some (Inr (resp, 1), out, ua')"
  by (simp add: reliable_start_def sample_session_defs Let_def respond_provisional_def sample_response_def code_kind_def)

theorem unreadable_prack_panics_witness:
  "\<exists>resp ua' ua''. usage_receive decimal_ip6 sample_caps 0 (asking PRACK 8 []) ua' = Some (Done ([], Some (asking PRACK 8 []), ua''))
     \<and> oneshot_poll (oneshots ua'' 1) = Some None \<and> reliable_wait resp 0 [wake_at (Got None) 100] = None"
proof -
  obtain resp out ua' where rel: "reliable_start sample_ua sample_acceptor (sample_response 183) 5 True = Some (Inr (resp, 1), out, ua')"
    using sample_reliable by blast
  have "headers_get [] RACK (decode_first rack_parse) = Inl (Missing RACK)" by code_simp
  then have "rl_method (ir_line (asking PRACK 8 [])) = PRACK" "headers_get (ir_headers (asking PRACK 8 [])) RACK (decode_first rack_parse) = Inl (Missing RACK)"
    by (simp_all add: asking_def)
  moreover have "wk_outcome (wake_at (Got None) 100) = Got None" "wait_ok None (0 + T1) 0 (wake_at (Got None) 100)"
    by (simp_all add: wake_at_def wait_ok_def)
  ultimately show ?thesis
    using unreadable_prack_panics[OF rel, of "asking PRACK 8 []" "Missing RACK" "wake_at (Got None) 100" 0 decimal_ip6 sample_caps "[]"]
    by (auto simp: sample_acceptor_def)
qed

definition sample_rack :: Headers where
  "sample_rack = [\<lparr>en_name = RACK, en_values = One (ascii ''5 7 INVITE'')\<rparr>]"

lemma sample_rack_read: "headers_get sample_rack RACK (decode_first rack_parse) = Inr \<lparr>ra_rack = 5, ra_cseq = 7, ra_method = INVITE\<rparr>"
  by code_simp

theorem prack_acknowledges_witness:
  "\<exists>tsx prack' answer ua' ua''. usage_receive decimal_ip6 sample_caps 0 (asking PRACK 8 sample_rack) ua' = Some (Done ([AnswerRequest tsx answer], None, ua''))
     \<and> oneshot_poll (oneshots ua'' 1) = Some (Some prack')"
proof -
  obtain resp out ua' where rel: "reliable_start sample_ua sample_acceptor (sample_response 183) 5 True = Some (Inr (resp, 1), out, ua')"
    using sample_reliable by blast
  let ?p = "asking PRACK 8 sample_rack"
  have new: "server_new ?p = Some (\<lparr>sv_registration = sample_registration\<rparr>, ?p\<lparr>ir_tsx := None\<rparr>)"
    by (simp add: server_new_def asking_def take_tsx_registration_def)
  obtain answer where answer: "create_response decimal_ip6 (?p\<lparr>ir_tsx := None\<rparr>) OK_STATUS None = Some answer"
    by (simp add: create_response_def asking_def numbered_def sample_request_def Let_def)
  let ?w = "wake_at (Got (Some (?p\<lparr>ir_tsx := None\<rparr>))) 100"
  have p: "rl_method (ir_line ?p) = PRACK"
      "headers_get (ir_headers ?p) RACK (decode_first rack_parse) = Inr \<lparr>ra_rack = 5, ra_cseq = request_cseq (numbered 7), ra_method = INVITE\<rparr>"
    by (simp_all add: asking_def sample_rack_read numbered_key)
  have w: "wk_outcome ?w = Got (Some (?p\<lparr>ir_tsx := None\<rparr>))" "wait_ok None (0 + T1) 0 ?w"
    by (simp_all add: wake_at_def wait_ok_def)
  have "inners sample_ua (ia_inner sample_acceptor) = Some sample_inner"
    "in_state sample_inner = UasProvisional sample_uas_dialog \<lparr>si_registration = sample_registration\<rparr> (numbered 7)"
    by (simp_all add: sample_ua_def sample_acceptor_def sample_inner_def)
  from prack_acknowledges[OF rel this p new answer w, of sample_caps "[]"] show ?thesis by (simp add: sample_acceptor_def) blast
qed

end
