(* ===== verification/Ua_Initiator.thy ===== *)
theory Ua_Initiator
  imports Ua_Session
begin

text \<open>
  The client of an INVITE (\<^verbatim>\<open>sip/sip-ua/src/invite/initiator.rs\<close> and the client's part of
  \<^verbatim>\<open>prack.rs\<close>): it sends the INVITE, sorts the responses of its transaction into early dialogs
  and sessions, and cancels the INVITE.

  The channels to the early dialogs are found by their address, like the channels of the user
  agent, and share its allocation of addresses; a channel whose receiver is gone has no queue.
  Whether the sender of such a channel still exists is an argument where it is observed.
\<close>

section \<open>Objects\<close>

datatype EarlyEvent = EarlyMsg TsxResponse | EarlyTerminate

type_synonym EarlyQueues = "nat \<Rightarrow> EarlyEvent list option"

record Early =
  ea_dialog :: "Dialog option"
  response_rx :: nat
  ea_timer_config :: InitiatorTimerConfig

record InviteInitiator =
  dialog_builder :: ClientDialogBuilder
  ii_transaction :: "ClientInvTsx option"
  early_list :: "(bytes \<times> nat) list"
  created_sessions :: "(bytes \<times> OutgoingRequest) list"
  support_timer :: bool
  support_100rel :: bool
  ii_timer_config :: InitiatorTimerConfig

datatype InitiatorResponse =
    RespProvisional TsxResponse
  | RespFailure TsxResponse
  | RespEarly Early TsxResponse "u32 option"
  | RespSession InviteSession TsxResponse
  | RespEarlyEvent
  | RespFinished

definition initiator_new :: "u32 \<Rightarrow> bytes \<Rightarrow> bytes \<Rightarrow> NameAddr \<Rightarrow> Contact \<Rightarrow> SipUri \<Rightarrow> InviteInitiator" where
  "initiator_new random_number random_tag random_id local_addr contact target =
     \<lparr>dialog_builder = builder_new random_number random_tag random_id local_addr contact target, ii_transaction = None,
      early_list = [], created_sessions = [], support_timer = True, support_100rel = True,
      ii_timer_config = \<lparr>expires_secs = None, it_refresher = RefresherUnspecified, expires_secs_min = 90\<rparr>\<rparr>"

definition create_invite :: "Ip6Text \<Rightarrow> InviteInitiator \<Rightarrow> Request" where
  "create_invite T self =
     (let request = builder_create_request T (dialog_builder self) INVITE;
          request = (if support_100rel self
            then request\<lparr>rq_headers := insert_type (rq_headers request) SUPPORTED (comma_value (ascii ''100rel''))\<rparr> else request) in
      if support_timer self then populate_request (ii_timer_config self) request else request)"

definition send_invite ::
    "Env \<Rightarrow> (SipUri \<Rightarrow> (CoreError, TpHandle \<times> SocketAddr) result) \<Rightarrow> Transactions \<Rightarrow> InviteInitiator \<Rightarrow> Request \<Rightarrow> bytes \<Rightarrow> bool \<Rightarrow> instant
     \<Rightarrow> ((CoreError, unit) result \<times> transmission list \<times> InviteInitiator \<times> Transactions) panics" where
  "send_invite env select tx self request random sent now =
     (case create_outgoing select request (cb_target_tp_info (dialog_builder self)) of
        Inl e \<Rightarrow> Some (Inl e, [], self, tx)
      | Inr (outgoing, target) \<Rightarrow>
          let self = self\<lparr>dialog_builder := (dialog_builder self)\<lparr>cb_target_tp_info := target\<rparr>\<rparr> in
          map_option (\<lambda>(r, tx). case r of
              Inl e \<Rightarrow> (Inl e, [], self, tx)
            | Inr tsx \<Rightarrow> (Inr (), [transmit_request (ci_request tsx)], self\<lparr>ii_transaction := Some tsx\<rparr>, tx))
            (client_inv_send env tx random (tt_via_host_port target) outgoing sent now))"

definition set_acknowledge :: "InviteInitiator \<Rightarrow> InviteSession \<Rightarrow> OutgoingRequest \<Rightarrow> InviteInitiator panics" where
  "set_acknowledge self session ack =
     map_option (\<lambda>tag. self\<lparr>created_sessions := AList.update tag ack (created_sessions self)\<rparr>)
       (ft_tag (peer_fromto (is_dialog session)))"

section \<open>Reliable provisional responses\<close>

definition get_rseq :: "TsxResponse \<Rightarrow> u32 option" where
  "get_rseq response =
     (case headers_try_get (tr_headers response) REQUIRE (decode_vec csv_parse) of
        Some (Inr requires) \<Rightarrow>
          if ascii ''100rel'' \<in> set requires
          then (case headers_get (tr_headers response) RSEQ (decode_first number_header_parse) of Inr n \<Rightarrow> Some n | Inl _ \<Rightarrow> None)
          else None
      | _ \<Rightarrow> None)"

definition create_prack :: "Ip6Text \<Rightarrow> Dialog \<Rightarrow> TsxResponse \<Rightarrow> u32 \<Rightarrow> Request \<times> Dialog" where
  "create_prack T dialog response rack =
     (case dialog_create_request T dialog PRACK of (request, dialog) \<Rightarrow>
       (request\<lparr>rq_headers := insert_type (rq_headers request) RACK
          (replacing_value (rack_print \<lparr>ra_rack = rack, ra_cseq = cseq_num (bh_cseq (tr_base response)), ra_method = INVITE\<rparr>))\<rparr>, dialog))"

text \<open>Sending a request of a dialog and waiting for its final response, as \<^verbatim>\<open>send_prack\<close> does.\<close>

definition send_prack ::
    "Env \<Rightarrow> (SipUri \<Rightarrow> (CoreError, TpHandle \<times> SocketAddr) result) \<Rightarrow> Transactions \<Rightarrow> Dialog \<Rightarrow> Request \<Rightarrow> bytes \<Rightarrow> bool
     \<Rightarrow> instant \<Rightarrow> (instant \<times> TsxResponse Wake list) list
     \<Rightarrow> ((CoreError, TsxResponse) result Async \<times> transmission list \<times> Dialog \<times> Transactions) panics" where
  "send_prack env select tx dialog request random sent now calls =
     (case create_outgoing select request (target_tp_info dialog) of
        Inl e \<Rightarrow> Some (Ready (Inl e), [], dialog, tx)
      | Inr (outgoing, target) \<Rightarrow>
          let dialog = dialog\<lparr>target_tp_info := target\<rparr> in
          Option.bind (client_send env tx random (tt_via_host_port target) outgoing sent now) (\<lambda>(r, tx).
            case r of
              Inl e \<Rightarrow> Some (Ready (Inl e), [], dialog, tx)
            | Inr tsx \<Rightarrow> map_option (\<lambda>(r, _, out, _). (r, transmit_request (cl_request tsx) # out, dialog, tx)) (receive_final env tsx calls)))"

section \<open>Responses\<close>

text \<open>
  The shared state, the usage and the timer of a session of the client, which \<^verbatim>\<open>create_session\<close> and
  \<^verbatim>\<open>poll_receive\<close> set up in the same way. If the timer cannot be created, the guard is dropped.
\<close>

definition uac_session ::
    "(nat slots \<Rightarrow> nat \<Rightarrow> nat \<times> nat slots) \<Rightarrow> UserAgent \<Rightarrow> instant \<Rightarrow> Dialog \<Rightarrow> TsxResponse
     \<Rightarrow> ((HeaderError, InviteSession) result \<times> UserAgent) panics" where
  "uac_session slot_insert ua now dialog response =
     (let q = next_address ua; a = Suc q;
          ua = (put_inner a (new_inner (Established q) (tr_headers response)) ua)\<lparr>event_queues := (event_queues ua)(q \<mapsto> []), next_address := Suc a\<rparr> in
      map_option (\<lambda>(guard, ua).
          case create_timer_from_response now response of
            Inl e \<Rightarrow> (Inl e, guard_drop ua guard)
          | Inr timer \<Rightarrow> (Inr \<lparr>is_inner = a, is_role = Uac, is_events = q, session_timer = timer, is_guard = guard, is_dialog = dialog\<rparr>, ua))
        (dialog_register_usage slot_insert ua dialog a))"

definition create_early_dialog ::
    "Ip6Text \<Rightarrow> InviteInitiator \<Rightarrow> TsxResponse \<Rightarrow> UserAgent \<Rightarrow> EarlyQueues
     \<Rightarrow> (HeaderError, Early \<times> InviteInitiator \<times> UserAgent \<times> EarlyQueues) result panics" where
  "create_early_dialog T self response ua eq =
     Option.bind (create_dialog_from_response T ua (dialog_builder self) response) (\<lambda>r.
       case r of
         Inl e \<Rightarrow> Some (Inl e)
       | Inr (dialog, ua) \<Rightarrow>
           map_option (\<lambda>to_tag. let c = next_address ua in
               Inr (\<lparr>ea_dialog = Some dialog, response_rx = c, ea_timer_config = ii_timer_config self\<rparr>,
                 self\<lparr>early_list := early_list self @ [(to_tag, c)]\<rparr>, ua\<lparr>next_address := Suc c\<rparr>, eq(c \<mapsto> [])))
             (ft_tag (peer_fromto dialog)))"

definition create_session ::
    "Ip6Text \<Rightarrow> (nat slots \<Rightarrow> nat \<Rightarrow> nat \<times> nat slots) \<Rightarrow> instant \<Rightarrow> InviteInitiator \<Rightarrow> TsxResponse \<Rightarrow> UserAgent
     \<Rightarrow> ((HeaderError, InviteSession) result \<times> UserAgent) panics" where
  "create_session T slot_insert now self response ua =
     Option.bind (create_dialog_from_response T ua (dialog_builder self) response) (\<lambda>r.
       case r of
         Inl e \<Rightarrow> Some (Inl e, ua)
       | Inr (dialog, ua) \<Rightarrow>
           Option.bind (uac_session slot_insert ua now dialog response) (\<lambda>(r, ua).
             case r of
               Inl e \<Rightarrow> map_option (Pair (Inl e)) (dialog_drop ua dialog)
             | Inr session \<Rightarrow> Some (Inr session, ua)))"

text \<open>Sending to an early dialog waits while its channel is full.\<close>

definition early_send :: "nat \<Rightarrow> EarlyEvent \<Rightarrow> EarlyQueues \<Rightarrow> (EarlyQueues, EarlyQueues) Handled" where
  "early_send c evt eq =
     (case eq c of
        None \<Rightarrow> Done eq
      | Some q \<Rightarrow> if length q < 4 then Done (eq(c \<mapsto> q @ [evt])) else Blocked eq)"

fun terminate_all :: "(bytes \<times> nat) list \<Rightarrow> EarlyQueues \<Rightarrow> (EarlyQueues, EarlyQueues) Handled" where
  "terminate_all [] eq = Done eq"
| "terminate_all ((_, c) # cs) eq = (case early_send c EarlyTerminate eq of Blocked eq \<Rightarrow> Blocked eq | Done eq \<Rightarrow> terminate_all cs eq)"

text \<open>
  One round of the loop of \<^verbatim>\<open>receive\<close>: what it returns, or that it waits for the next response,
  with what it has transmitted. \<open>sent\<close> is whether an ACK could be sent.
\<close>

datatype Round = NextResponse | Return "(CoreError, InitiatorResponse) result"

type_synonym RoundResult = "Round \<times> transmission list \<times> InviteInitiator \<times> UserAgent \<times> EarlyQueues"

definition initiator_handle ::
    "Env \<Rightarrow> (nat slots \<Rightarrow> nat \<Rightarrow> nat \<times> nat slots) \<Rightarrow> instant \<Rightarrow> bool \<Rightarrow> InviteInitiator \<Rightarrow> TsxResponse \<Rightarrow> UserAgent \<Rightarrow> EarlyQueues
     \<Rightarrow> (UserAgent \<times> EarlyQueues, RoundResult) Handled panics" where
  "initiator_handle env slot_insert now sent self response ua eq =
     (let code = sl_code (tr_line response) in
      if code \<le> 100 then Some (Done (Return (Inr (RespProvisional response)), [], self, ua, eq))
      else if 300 \<le> code then Some
        (case terminate_all (early_list self) eq of
           Blocked eq \<Rightarrow> Blocked (ua, eq)
         | Done eq \<Rightarrow> Done (Return (Inr (RespFailure response)), [], self\<lparr>early_list := []\<rparr>, ua, eq))
      else case ft_tag (bh_to (tr_base response)) of
        None \<Rightarrow> Some (Done (NextResponse, [], self, ua, eq))
      | Some to_tag \<Rightarrow>
          (case map_of (created_sessions self) to_tag of
             Some ack \<Rightarrow>
               let ack = send_outgoing_request env ack; self = self\<lparr>created_sessions := AList.update to_tag ack (created_sessions self)\<rparr> in
               Some (Done (if sent then NextResponse else Return (Inl IoError), [transmit_request ack], self, ua, eq))
           | None \<Rightarrow>
               (case map_of (early_list self) to_tag of
                  Some c \<Rightarrow> Some (case early_send c (EarlyMsg response) eq of
                      Blocked eq \<Rightarrow> Blocked (ua, eq)
                    | Done eq \<Rightarrow> Done (Return (Inr RespEarlyEvent), [], self, ua, eq))
                | None \<Rightarrow>
                    if code \<le> 199 then
                      (if \<not> headers_contains (tr_headers response) CONTACT
                       then Some (Done (Return (Inr (RespProvisional response)), [], self, ua, eq))
                       else map_option (\<lambda>r. case r of
                           Inl e \<Rightarrow> Done (Return (Inl (HeaderFault e)), [], self, ua, eq)
                         | Inr (early, self, ua, eq) \<Rightarrow> Done (Return (Inr (RespEarly early response (get_rseq response))), [], self, ua, eq))
                         (create_early_dialog (env_ip6 env) self response ua eq))
                    else map_option (\<lambda>(r, ua). case r of
                        Inl e \<Rightarrow> Done (Return (Inl (HeaderFault e)), [], self, ua, eq)
                      | Inr session \<Rightarrow> Done (Return (Inr (RespSession session response)), [], self, ua, eq))
                      (create_session (env_ip6 env) slot_insert now self response ua))))"

text \<open>
  \<^verbatim>\<open>receive\<close>: the calls to the transaction, each with its start, its wakes and whether an ACK in
  reaction to it can be sent. It panics before the INVITE is sent.
\<close>

fun initiator_receive ::
    "Env \<Rightarrow> (nat slots \<Rightarrow> nat \<Rightarrow> nat \<times> nat slots) \<Rightarrow> InviteInitiator \<Rightarrow> UserAgent \<Rightarrow> EarlyQueues
     \<Rightarrow> (instant \<times> TsxResponse Wake list \<times> instant \<times> bool) list
     \<Rightarrow> ((CoreError, InitiatorResponse) result Async \<times> transmission list \<times> InviteInitiator \<times> UserAgent \<times> EarlyQueues) panics" where
  "initiator_receive env slot_insert self ua eq [] = (if ii_transaction self = None then None else Some (Pending, [], self, ua, eq))"
| "initiator_receive env slot_insert self ua eq ((start, wks, now, sent) # calls) =
     Option.bind (ii_transaction self) (\<lambda>tsx.
       case inv_receive env tsx start wks of (r, tsx, out, _) \<Rightarrow>
         let self = self\<lparr>ii_transaction := Some tsx\<rparr> in
         (case r of
            Pending \<Rightarrow> Some (Pending, out, self, ua, eq)
          | NotPossible \<Rightarrow> Some (NotPossible, out, self, ua, eq)
          | Ready (Inl e) \<Rightarrow> Some (Ready (Inl e), out, self, ua, eq)
          | Ready (Inr None) \<Rightarrow> Some (Ready (Inr RespFinished), out, self, ua, eq)
          | Ready (Inr (Some response)) \<Rightarrow>
              Option.bind (initiator_handle env slot_insert now sent self response ua eq) (\<lambda>h.
                case h of
                  Blocked (ua, eq) \<Rightarrow> Some (Pending, out, self, ua, eq)
                | Done (Return res, out', self, ua, eq) \<Rightarrow> Some (Ready res, out @ out', self, ua, eq)
                | Done (NextResponse, out', self, ua, eq) \<Rightarrow>
                    map_option (\<lambda>(r, out'', rest). (r, out @ out' @ out'', rest)) (initiator_receive env slot_insert self ua eq calls))))"

section \<open>Early dialogs\<close>

datatype EarlyResponse = EarlyProvisional TsxResponse "u32 option" | EarlySuccess InviteSession TsxResponse | EarlyTerminated

text \<open>
  One poll of \<^verbatim>\<open>Early::receive\<close>. It panics after the dialog was handed over to a session, and when
  there is no event and no initiator that could send one.
\<close>

definition early_poll ::
    "(nat slots \<Rightarrow> nat \<Rightarrow> nat \<times> nat slots) \<Rightarrow> instant \<Rightarrow> bool \<Rightarrow> Early \<Rightarrow> UserAgent \<Rightarrow> EarlyQueues
     \<Rightarrow> ((CoreError, EarlyResponse) result Async \<times> Early \<times> UserAgent \<times> EarlyQueues) panics" where
  "early_poll slot_insert now has_sender self ua eq =
     Option.bind (ea_dialog self) (\<lambda>dialog.
       case eq (response_rx self) of
         Some (evt # q) \<Rightarrow>
           let eq = eq(response_rx self \<mapsto> q) in
           (case evt of
              EarlyTerminate \<Rightarrow> Some (Ready (Inr EarlyTerminated), self, ua, eq)
            | EarlyMsg response \<Rightarrow>
                let code = sl_code (tr_line response) in
                if 101 \<le> code \<and> code \<le> 199 then Some (Ready (Inr (EarlyProvisional response (get_rseq response))), self, ua, eq)
                else if 200 \<le> code \<and> code \<le> 299 then
                  map_option (\<lambda>(r, ua). case r of
                      Inl e \<Rightarrow> (Ready (Inl (HeaderFault e)), self, ua, eq)
                    | Inr session \<Rightarrow> (Ready (Inr (EarlySuccess session response)), self\<lparr>ea_dialog := None\<rparr>, ua, eq))
                    (uac_session slot_insert ua now dialog response)
                else None)
       | _ \<Rightarrow> if has_sender then Some (Pending, self, ua, eq) else None)"

text \<open>The end of \<^verbatim>\<open>Early::cancel\<close>, on the events that arrive; \<open>None\<close> stands for a closed channel.\<close>

fun early_cancel_loop :: "EarlyEvent option list \<Rightarrow> unit Async" where
  "early_cancel_loop [] = Pending"
| "early_cancel_loop (Some (EarlyMsg response) # evts) =
     (if sl_code (tr_line response) = REQUEST_TERMINATED then Ready () else early_cancel_loop evts)"
| "early_cancel_loop (Some EarlyTerminate # evts) = Ready ()"
| "early_cancel_loop (None # evts) = Ready ()"

definition early_cancel ::
    "Env \<Rightarrow> (SipUri \<Rightarrow> (CoreError, TpHandle \<times> SocketAddr) result) \<Rightarrow> Transactions \<Rightarrow> Early \<Rightarrow> bytes \<Rightarrow> bool
     \<Rightarrow> instant \<Rightarrow> (instant \<times> TsxResponse Wake list) list \<Rightarrow> EarlyEvent option list
     \<Rightarrow> ((CoreError, unit) result Async \<times> transmission list \<times> Early \<times> Transactions) panics" where
  "early_cancel env select tx self random sent now calls evts =
     Option.bind (ea_dialog self) (\<lambda>dialog.
       case dialog_create_request (env_ip6 env) dialog CANCEL of (request, dialog) \<Rightarrow>
       map_option (\<lambda>(r, out, dialog, tx). (case r of
             Ready (Inl e) \<Rightarrow> Ready (Inl e)
           | Ready (Inr _) \<Rightarrow> (case early_cancel_loop evts of Ready _ \<Rightarrow> Ready (Inr ()) | Pending \<Rightarrow> Pending | NotPossible \<Rightarrow> NotPossible)
           | Pending \<Rightarrow> Pending | NotPossible \<Rightarrow> NotPossible, out, self\<lparr>ea_dialog := Some dialog\<rparr>, tx))
         (send_prack env select tx dialog request random sent now calls))"

section \<open>Cancelling\<close>

text \<open>
  \<^verbatim>\<open>cancel\<close>: the CANCEL that starts a transaction, its final response, and what is done with every
  response that is received afterwards.
\<close>

definition cancel_send ::
    "Env \<Rightarrow> (SipUri \<Rightarrow> (CoreError, TpHandle \<times> SocketAddr) result) \<Rightarrow> Transactions \<Rightarrow> InviteInitiator \<Rightarrow> bytes \<Rightarrow> bool
     \<Rightarrow> instant \<Rightarrow> ((CoreError, ClientTsx) result \<times> InviteInitiator \<times> Transactions) panics" where
  "cancel_send env select tx self random sent now =
     (case create_outgoing select (builder_create_request (env_ip6 env) (dialog_builder self) CANCEL) (cb_target_tp_info (dialog_builder self)) of
        Inl e \<Rightarrow> Some (Inl e, self, tx)
      | Inr (outgoing, target) \<Rightarrow>
          let self = self\<lparr>dialog_builder := (dialog_builder self)\<lparr>cb_target_tp_info := target\<rparr>\<rparr> in
          map_option (\<lambda>(r, tx). (r, self, tx)) (client_send env tx random (tt_via_host_port target) outgoing sent now))"

definition cancel_request ::
    "Env \<Rightarrow> (SipUri \<Rightarrow> (CoreError, TpHandle \<times> SocketAddr) result) \<Rightarrow> Transactions \<Rightarrow> InviteInitiator \<Rightarrow> bytes \<Rightarrow> bool
     \<Rightarrow> instant \<Rightarrow> (instant \<times> TsxResponse Wake list) list
     \<Rightarrow> ((CoreError, TsxResponse) result Async \<times> transmission list \<times> InviteInitiator \<times> Transactions) panics" where
  "cancel_request env select tx self random sent now calls =
     Option.bind (cancel_send env select tx self random sent now) (\<lambda>(r, self, tx).
       case r of
         Inl e \<Rightarrow> Some (Ready (Inl e), [], self, tx)
       | Inr tsx \<Rightarrow> map_option (\<lambda>(r, _, out, _). (r, transmit_request (cl_request tsx) # out, self, tx)) (receive_final env tsx calls))"

datatype CancelStep = KeepReceiving | CancelEarly Early | TerminateSession InviteSession | Finished

fun cancel_step :: "InitiatorResponse \<Rightarrow> CancelStep" where
  "cancel_step (RespProvisional _) = KeepReceiving"
| "cancel_step (RespFailure _) = Finished"
| "cancel_step (RespEarly early _ _) = CancelEarly early"
| "cancel_step (RespSession session _) = TerminateSession session"
| "cancel_step RespEarlyEvent = KeepReceiving"
| "cancel_step RespFinished = Finished"

end
