(* ===== verification/Ua_Calls.thy ===== *)
theory Ua_Calls
  imports Ua_Initiator
begin

text \<open>
  How calls proceed between the client of an INVITE and the user agent that receives it:
  sessions that end with a BYE, repeated responses, and what a provisional response and a
  CANCEL come to.
\<close>

section \<open>Sessions of the client\<close>

lemma uac_session_established:
  assumes "uac_session slot_insert ua now dialog response = Some (Inr session, ua')"
  shows "is_dialog session = dialog \<and> is_role session = Uac \<and> event_queues ua' (is_events session) = Some []
    \<and> (\<exists>inner. inners ua' (is_inner session) = Some inner \<and> in_state inner = Established (is_events session))"
proof -
  let ?q = "next_address ua"
  let ?ua = "(put_inner (Suc ?q) (new_inner (Established ?q) (tr_headers response)) ua)\<lparr>event_queues := (event_queues ua)(?q \<mapsto> []), next_address := Suc (Suc ?q)\<rparr>"
  from assms obtain guard where "dialog_register_usage slot_insert ?ua dialog (Suc ?q) = Some (guard, ua')"
      and session: "is_inner session = Suc ?q" "is_events session = ?q" "is_dialog session = dialog" "is_role session = Uac"
    by (cases "create_timer_from_response now response") (auto simp: uac_session_def Let_def)
  then have "inners ua' = inners ?ua \<and> event_queues ua' = event_queues ?ua"
    by (auto simp: dialog_register_usage_def register_usage_def bind_eq_Some_conv case_prod_beta)
  then show ?thesis using session by (simp add: put_inner_def new_inner_def)
qed

lemma created_dialog_registered:
  "create_dialog_from_response T layer b rsp = Some (Inr (c, layer')) \<Longrightarrow> \<exists>k e. dialog_key c = Some k \<and> dialogs layer' k = Some e"
  by (auto simp: create_dialog_from_response_def Let_def bind_eq_Some_conv split: if_splits sum.splits)

lemma uac_session_ok:
  assumes "dialog_key d = Some k" "dialogs ua k = Some e" "create_timer_from_response now response = Inr timer"
  shows "\<exists>session ua'. uac_session slot_insert ua now d response = Some (Inr session, ua')"
  using assms by (simp add: uac_session_def Let_def dialog_register_usage_def register_usage_def put_inner_def case_prod_beta)

text \<open>A session that has not ended, with the events that wait in its channel.\<close>

definition established :: "UserAgent \<Rightarrow> InviteSession \<Rightarrow> UsageEvent list \<Rightarrow> bool" where
  "established ua session q \<longleftrightarrow> event_queues ua (is_events session) = Some q
     \<and> map_option in_state (inners ua (is_inner session)) = Some (Established (is_events session))"

text \<open>What a session receives when it asks \<open>n\<close> times for the next event.\<close>

fun events_drain :: "nat \<Rightarrow> UserAgent \<Rightarrow> InviteSession \<Rightarrow> (UsageEvent option list \<times> UserAgent) option" where
  "events_drain 0 ua session = Some ([], ua)"
| "events_drain (Suc n) ua session =
     Option.bind (events_recv ua session) (\<lambda>(evt, ua). map_option (\<lambda>(evts, ua). (evt # evts, ua)) (events_drain n ua session))"

lemma drain_ended:
  assumes "event_queues ua (is_events session) = Some q" "map_option in_state (inners ua (is_inner session)) = Some SessionTerminated"
  shows "\<exists>ua'. events_drain (Suc (length q)) ua session = Some (map Some q @ [None], ua')"
  using assms
proof (induction q arbitrary: ua)
  case Nil
  then show ?case by (auto simp: events_recv_def)
next
  case (Cons evt q)
  let ?ua = "ua\<lparr>event_queues := (event_queues ua)(is_events session \<mapsto> q)\<rparr>"
  from Cons.IH[of ?ua] Cons.prems obtain ua' where "events_drain (Suc (length q)) ?ua session = Some (map Some q @ [None], ua')" by auto
  moreover have "events_recv ua session = Some (Some evt, ?ua)" using Cons.prems by (simp add: events_recv_def)
  ultimately show ?case by simp
qed

lemma bye_queued:
  assumes "established ua session q" "length q < 4" "rl_method (ir_line bye) = BYE"
  shows "\<exists>ua' ua''. usage_receive T caps (is_inner session) bye ua = Some (Done ([], None, ua'))
    \<and> events_drain (length q + 2) ua' session = Some (map Some q @ [Some (ByeReceived bye), None], ua'')"
proof -
  from assms obtain ua' where "usage_receive T caps (is_inner session) bye ua = Some (Done ([], None, ua'))"
      "event_queues ua' (is_events session) = Some (q @ [ByeReceived bye])" "map_option in_state (inners ua' (is_inner session)) = Some SessionTerminated"
    by (auto simp: established_def usage_receive_def set_terminated_def event_send_def put_inner_def)
  with drain_ended[OF this(2,3)] show ?thesis by simp
qed

lemma new_tag_session:
  assumes "ft_tag (bh_to (tr_base response)) = Some to_tag" "ft_tag (cb_local_fromto (dialog_builder self)) \<noteq> None"
    and "headers_get (tr_headers response) CONTACT (decode_first (contact_parse T)) = Inr peer" "create_timer_from_response now response = Inr timer"
  shows "\<exists>session ua'. create_session T slot_insert now self response ua = Some (Inr session, ua')
    \<and> ft_tag (peer_fromto (is_dialog session)) = Some to_tag \<and> established ua' session []"
proof -
  from assms(1-3) obtain c ua1 where c: "create_dialog_from_response T ua (dialog_builder self) response = Some (Inr (c, ua1))"
      "ft_tag (peer_fromto c) = Some to_tag"
    by (auto simp: create_dialog_from_response_def entry_new_def dialog_key_def Let_def)
  obtain k e where "dialog_key c = Some k" "dialogs ua1 k = Some e" using created_dialog_registered[OF c(1)] by blast
  then obtain session ua' where "uac_session slot_insert ua1 now c response = Some (Inr session, ua')"
    using uac_session_ok assms(4) by blast
  with uac_session_established[OF this] c show ?thesis by (auto simp: create_session_def established_def)
qed

text \<open>C17: a success response with a To tag that the client has neither an ACK nor an early dialog for yields a session, provided that its Contact and its session timer can be read. As long as that session is established and fewer than four events wait in its channel, a BYE that its usage receives ends it: the session receives the waiting events in their order, then the BYE, which becomes a transaction to answer it with, and after the BYE the session is over.\<close>

theorem bye_ends_session:
  assumes code: "200 \<le> sl_code (tr_line response)" "sl_code (tr_line response) \<le> 299"
    and new: "ft_tag (bh_to (tr_base response)) = Some to_tag" "map_of (created_sessions self) to_tag = None" "map_of (early_list self) to_tag = None"
    and readable: "headers_get (tr_headers response) CONTACT (decode_first (contact_parse (env_ip6 env))) = Inr peer"
      "create_timer_from_response now response = Inr timer"
    and own_tag: "ft_tag (cb_local_fromto (dialog_builder self)) \<noteq> None"
    and bye: "rl_method (ir_line bye) = BYE" "ir_tsx bye = Some reg"
  shows "\<exists>session ua'. initiator_handle env slot_insert now sent self response ua eq
      = Some (Done (Return (Inr (RespSession session response)), [], self, ua', eq))
    \<and> ft_tag (peer_fromto (is_dialog session)) = Some to_tag \<and> established ua' session []
    \<and> (\<forall>ua1 q. established ua1 session q \<and> length q < 4 \<longrightarrow>
        (\<exists>ua2 ua3. usage_receive T caps (is_inner session) bye ua1 = Some (Done ([], None, ua2))
          \<and> events_drain (length q + 2) ua2 session = Some (map Some q @ [Some (ByeReceived bye), None], ua3)))
    \<and> handle_usage_event t session (Some (ByeReceived bye)) = Some (ByeEvent (bye\<lparr>ir_tsx := None\<rparr>) \<lparr>sv_registration = reg\<rparr>, session)
    \<and> handle_usage_event t session None = Some (SessionOver, session)"
proof -
  have "\<not> sl_code (tr_line response) \<le> 100" "\<not> 300 \<le> sl_code (tr_line response)" "\<not> sl_code (tr_line response) \<le> 199"
    using code by (auto simp: word_le_nat_alt)
  moreover obtain session ua' where "create_session (env_ip6 env) slot_insert now self response ua = Some (Inr session, ua')"
      "ft_tag (peer_fromto (is_dialog session)) = Some to_tag" "established ua' session []"
    using new_tag_session[OF new(1) own_tag readable] by blast
  ultimately show ?thesis
    using new bye bye_queued[OF _ _ bye(1), where session = session and T = T and caps = caps]
    by (intro exI[of _ session] exI[of _ ua']) (simp add: initiator_handle_def server_new_def take_tsx_registration_def)
qed

text \<open>when the ACK of a session has been recorded, every further success response with the tag of its dialog makes the client transmit the same ACK and nothing else: no second session is created.\<close>

theorem repeated_success_acked_again:
  assumes "set_acknowledge self session (send_outgoing_request env ack) = Some self'" "ft_tag (bh_to (tr_base response)) = ft_tag (peer_fromto (is_dialog session))"
    and "200 \<le> sl_code (tr_line response)" "sl_code (tr_line response) \<le> 299"
  shows "\<exists>s2 s3. initiator_handle env slot_insert now True self' response ua eq
      = Some (Done (NextResponse, [transmit_request (send_outgoing_request env ack)], s2, ua, eq))
    \<and> initiator_handle env slot_insert now' True s2 response ua eq
      = Some (Done (NextResponse, [transmit_request (send_outgoing_request env ack)], s3, ua, eq))"
proof -
  from assms(1) obtain tag where tag: "ft_tag (peer_fromto (is_dialog session)) = Some tag"
      "self' = self\<lparr>created_sessions := AList.update tag (send_outgoing_request env ack) (created_sessions self)\<rparr>"
    by (auto simp: set_acknowledge_def)
  have "\<not> sl_code (tr_line response) \<le> 100" "\<not> 300 \<le> sl_code (tr_line response)" using assms(3,4) by (auto simp: word_le_nat_alt)
  then show ?thesis using assms(2) tag
    by (simp add: initiator_handle_def Let_def update_conv' send_outgoing_request_buffer)
qed


section \<open>Provisional responses\<close>

lemma provisional_response:
  assumes r: "rl_method (ir_line r) = INVITE" "bh_via (ir_base r) \<noteq> []" and code: "101 \<le> code" "code \<le> 199" and caps: "allowed caps \<noteq> []"
  shows "\<exists>resp. dialog_create_response T caps d r code reason = Some (Inr resp)
    \<and> values_of (or_headers resp) VIA = map (via_print T) (bh_via (ir_base r))
    \<and> values_of (or_headers resp) FROM = [from_to_print T None (bh_from (ir_base r))]
    \<and> values_of (or_headers resp) TO = [from_to_print T None (bh_to (ir_base r))]
    \<and> values_of (or_headers resp) CALL_ID = [bh_call_id (ir_base r)]
    \<and> values_of (or_headers resp) CSEQ = [cseq_print (bh_cseq (ir_base r))]"
proof -
  have "\<exists>resp0. create_response T r code reason = Some resp0"
    using r(1,2) by (cases "bh_via (ir_base r)") (auto simp: create_response_def Let_def)
  then obtain resp0 where resp0: "create_response T r code reason = Some resp0" by blast
  have t: "code \<noteq> TRYING" using code by (auto simp: TRYING_def)
  obtain x where x: "oom_values x = map (via_print T) (bh_via (ir_base r))"
    and h: "or_headers resp0 = [\<lparr>en_name = VIA, en_values = x\<rparr>, \<lparr>en_name = FROM, en_values = One (from_to_print T None (bh_from (ir_base r)))\<rparr>,
      \<lparr>en_name = TO, en_values = One (from_to_print T None (bh_to (ir_base r)))\<rparr>, \<lparr>en_name = CALL_ID, en_values = One (bh_call_id (ir_base r))\<rparr>,
      \<lparr>en_name = CSEQ, en_values = One (cseq_print (bh_cseq (ir_base r)))\<rparr>]"
    using create_response_headers [OF resp0 t] by blast
  define rr where "rr = (case clone_into (ir_headers r) (or_headers resp0) RECORD_ROUTE of Inl _ \<Rightarrow> or_headers resp0 | Inr h \<Rightarrow> h)"
  have "entry (or_headers resp0) RECORD_ROUTE = None" "name_eq RECORD_ROUTE RECORD_ROUTE" by (simp_all add: h entry_def names_eq)
  from clone_new [OF this] have rr: "rr = or_headers resp0 \<or> (\<exists>y. rr = or_headers resp0 @ [\<lparr>en_name = RECORD_ROUTE, en_values = y\<rparr>])"
    unfolding rr_def by auto
  have c: "101 \<le> code \<and> code \<le> 399" "\<not> 200 \<le> code" using code by (auto simp: word_le_nat_alt)
  obtain al where al: "comma_values (map method_print (allowed caps)) = Some al" using comma_values_Some caps by (metis map_is_Nil_conv)
  define h1 where "h1 = (if \<not> headers_contains rr CONTACT then insert_type rr CONTACT (comma_value (contact_print T None (local_contact d))) else rr)"
  have "dialog_response_headers T caps d r code (or_headers resp0) =
      Some (Inr (if 180 \<le> code \<and> code \<le> 189 \<or> code = 405 then insert_type h1 ALLOW al else h1))"
    unfolding dialog_response_headers_def Let_def rr_def [symmetric] h1_def using c al by simp
  then show ?thesis
    using rr x r(1)
    by (elim disjE exE) (simp_all add: dialog_create_response_def resp0 h h1_def headers_contains_def insertion_simps names_eq)
qed

text \<open>C29: the client of an INVITE never sees the provisional responses above 100 that an acceptor creates for it: they are created without a To tag, and the client ignores responses without one.\<close>

theorem ringing_is_ignored:
  fixes rsp :: TsxResponse
  assumes T: "ip6_text_ok (env_ip6 env)" and r: "rl_method (ir_line r) = INVITE" "ft_tag (bh_to (ir_base r)) = None"
    and wf: "bh_via (ir_base r) \<noteq> []" "list_all via_wf (bh_via (ir_base r))" "from_to_wf (bh_from (ir_base r))" "from_to_wf (bh_to (ir_base r))"
      "trim (bh_call_id (ir_base r)) = bh_call_id (ir_base r)" "method_wf (cseq_method (bh_cseq (ir_base r)))"
    and code: "101 \<le> code" "code \<le> 199" and caps: "allowed caps \<noteq> []"
    and inner: "inners ua (ia_inner acc) = Some inner" "in_state inner = UasProvisional d t r"
  shows "\<exists>resp rbase. acceptor_create_response (env_ip6 env) caps ua acc code reason = Some (Inr resp)
    \<and> extract_from (env_ip6 env) (or_headers resp) = Inr rbase
    \<and> initiator_handle env slot_insert now sent self (rsp\<lparr>tr_line := \<lparr>sl_code = code, sl_reason = reason\<rparr>, tr_base := rbase, tr_headers := or_headers resp\<rparr>) ua2 eq
      = Some (Done (NextResponse, [], self, ua2, eq))"
proof -
  from provisional_response[OF r(1) wf(1) code caps, of "env_ip6 env" d reason] obtain resp where
    resp: "dialog_create_response (env_ip6 env) caps d r code reason = Some (Inr resp)"
      "values_of (or_headers resp) VIA = map (via_print (env_ip6 env)) (bh_via (ir_base r))"
      "values_of (or_headers resp) FROM = [from_to_print (env_ip6 env) None (bh_from (ir_base r))]"
      "values_of (or_headers resp) TO = [from_to_print (env_ip6 env) None (bh_to (ir_base r))]"
      "values_of (or_headers resp) CALL_ID = [bh_call_id (ir_base r)]"
      "values_of (or_headers resp) CSEQ = [cseq_print (bh_cseq (ir_base r))]" by blast
  from extract_printed[OF T wf(2,1,3-6) resp(2-6)] obtain rbase where
    rbase: "extract_from (env_ip6 env) (or_headers resp) = Inr rbase" "ft_tag (bh_to rbase) = None" using r(2) by simp
  have "\<not> code \<le> 100" "\<not> 300 \<le> code" using code by (auto simp: word_le_nat_alt)
  then show ?thesis using resp(1) rbase inner by (simp add: acceptor_create_response_def initiator_handle_def)
qed

section \<open>CANCEL\<close>

lemma received_branch:
  assumes "from_message_parts (RequestMsg line) h = Some (Inr k)" "bh_via h = add_received_rport T (create_via tp (client_key random m) hp) source # vias"
  shows "key_branch k = generate_branch random"
proof -
  have "tag RFC3261_BRANCH_PREFIX (generate_branch random) \<noteq> None" by (simp add: generate_branch_def tag_def)
  then show ?thesis using assms by (auto simp: from_headers_def received_keeps create_via_branch)
qed

lemma insert_keeps_head: "\<not> name_eq (en_name e) n \<Longrightarrow> \<exists>h'. headers_insert (e # h) n v = e # h'"
  by (auto simp: headers_insert_def push_value_def)

lemma sent_keeps_head:
  assumes "oq_headers m = e # h" "\<not> name_eq (en_name e) USER_AGENT" "\<not> name_eq (en_name e) CONTENT_LENGTH"
  shows "\<exists>h'. oq_headers (send_outgoing_request env m) = e # h'"
proof -
  define h1 where "h1 = (case user_agent env of Some ua \<Rightarrow> if headers_contains (oq_headers m) USER_AGENT then oq_headers m
      else headers_insert (oq_headers m) USER_AGENT ua | None \<Rightarrow> oq_headers m)"
  then have "\<exists>h'. h1 = e # h'" using assms(1) insert_keeps_head[OF assms(2), of h] by (simp split: option.split)
  then obtain h' where "h1 = e # h'" by blast
  then show ?thesis
    using insert_keeps_head[OF assms(3), of h'] by (simp add: send_outgoing_request_def h1_def [symmetric] Let_def)
qed

lemma started_via:
  assumes "start_request env tx random m hp request = Some (reg, request', tx')" "entry (oq_headers request) VIA = None"
  shows "values_of (oq_headers request') VIA = [via_print (env_ip6 env) (create_via (op_transport (oq_parts request)) (client_key random m) hp)]"
proof -
  have names: "name_eq VIA VIA" "\<not> name_eq VIA USER_AGENT" "\<not> name_eq VIA CONTENT_LENGTH" by code_simp+
  let ?e = "\<lparr>en_name = VIA, en_values = One (via_print (env_ip6 env) (create_via (op_transport (oq_parts request)) (client_key random m) hp))\<rparr>"
  have "request' = send_outgoing_request env (request\<lparr>oq_headers := ?e # oq_headers request\<rparr>)"
    using assms by (auto simp: start_request_def registration_create_def Let_def case_prod_beta insert_type_front_def single_value_def)
  then obtain h where "oq_headers request' = ?e # h"
    using sent_keeps_head[of "request\<lparr>oq_headers := ?e # oq_headers request\<rparr>" ?e "oq_headers request" env] names by auto
  then show ?thesis using names by (simp add: values_of_def entry_def)
qed

text \<open>What the endpoint of the peer makes of a request that was sent to it.\<close>

definition received_as :: "Ip6Text \<Rightarrow> MessageTpInfo \<Rightarrow> OutgoingRequest \<Rightarrow> IncomingRequest \<Rightarrow> bool" where
  "received_as T tp m r \<longleftrightarrow>
     message_key T \<lparr>rm_tp_info = tp, rm_line = RequestMsg (oq_line m), rm_headers = oq_headers m, rm_body = oq_body m\<rparr>
       = Some (Inr (ir_tsx_key r, \<lparr>tm_tp_info = ir_tp_info r, tm_line = RequestMsg (ir_line r), tm_base = ir_base r, tm_headers = ir_headers r, tm_body = ir_body r\<rparr>))"

lemma received_as_branch:
  assumes T: "ip6_text_ok T" and v: "values_of (oq_headers m) VIA = [via_print T (create_via tp (client_key random meth) hp)]"
    and ok: "via_source_ok tp hp" "list_all is_alphanumeric random" and r: "received_as T info m r"
  shows "key_branch (ir_tsx_key r) = generate_branch random"
proof -
  let ?v = "create_via tp (client_key random meth) hp"
  obtain base where base: "extract_from T (oq_headers m) = Inr base"
    using r by (cases "extract_from T (oq_headers m)") (simp_all add: received_as_def message_key_def)
  then have "headers_get (oq_headers m) VIA (decode_vec (via_parse T)) = Inr (bh_via base)" by (simp add: extract_from_iff)
  then have "bh_via base = [?v]"
    using via_read[OF T, of "[?v]"] create_via_wf[OF ok] by (simp add: headers_get_values v split: if_splits)
  with base r have "ir_base r = base\<lparr>bh_via := [add_received_rport T ?v (mi_source info)]\<rparr>"
      "from_message_parts (RequestMsg (ir_line r)) (ir_base r) = Some (Inr (ir_tsx_key r))"
    by (auto simp: received_as_def message_key_def received_base_def res_iff)
  then have "bh_via (ir_base r) = add_received_rport T ?v (mi_source info) # []"
      "from_message_parts (RequestMsg (ir_line r)) (ir_base r) = Some (Inr (ir_tsx_key r))"
    by simp_all
  from received_branch[OF this(2,1)] show ?thesis .
qed

lemma invite_sent_via:
  assumes "send_invite env select tx self req random True now = Some (Inr (), out, self', tx')" "ii_transaction self' = Some tsx" "entry (rq_headers req) VIA = None"
  shows "\<exists>tp d. values_of (oq_headers (ci_request tsx)) VIA
          = [via_print (env_ip6 env) (create_via tp (client_key random INVITE) (tt_via_host_port (cb_target_tp_info (dialog_builder self))))]
    \<and> dialog_builder self' = (dialog_builder self)\<lparr>cb_target_tp_info := (cb_target_tp_info (dialog_builder self))\<lparr>tt_transport := Some (tp, d)\<rparr>\<rparr>"
proof -
  from assms(1,2) obtain reg q m tp d where q: "start_request env tx random INVITE (tt_via_host_port (cb_target_tp_info (dialog_builder self))) q = Some (reg, ci_request tsx, tx')"
      "oq_headers q = rq_headers req" "op_transport (oq_parts q) = tp"
      "dialog_builder self' = (dialog_builder self)\<lparr>cb_target_tp_info := (cb_target_tp_info (dialog_builder self))\<lparr>tt_transport := Some (tp, d)\<rparr>\<rparr>"
    by (auto simp: send_invite_def create_outgoing_def client_inv_send_def Let_def res_iff split: sum.split_asm if_split_asm option.split_asm)
  from started_via[OF q(1)] q(2-4) assms(3) show ?thesis by auto
qed

lemma cancel_sent_via:
  assumes "cancel_send env select tx self random True now = Some (Inr tsx, self', tx')" "cb_target_tp_info (dialog_builder self) = target\<lparr>tt_transport := Some (tp, d)\<rparr>"
  shows "values_of (oq_headers (cl_request tsx)) VIA = [via_print (env_ip6 env) (create_via tp (client_key random CANCEL) (tt_via_host_port target))]
    \<and> op_transport (oq_parts (cl_request tsx)) = tp"
proof -
  have none: "entry (rq_headers (builder_create_request (env_ip6 env) (dialog_builder self) CANCEL)) VIA = None"
    by (simp add: builder_create_request_def Let_def insertion_simps names_eq)
  from assms obtain reg q where q: "start_request env tx random CANCEL (tt_via_host_port target) q = Some (reg, cl_request tsx, tx')"
      "oq_headers q = rq_headers (builder_create_request (env_ip6 env) (dialog_builder self) CANCEL)" "op_transport (oq_parts q) = tp"
    by (auto simp: cancel_send_def create_outgoing_def client_send_def Let_def builder_create_request_def)
  from started_via[OF q(1)] start_request_parts(1)[OF q(1)] q(2,3) none show ?thesis by simp
qed

text \<open>C28: the CANCEL that the client of an INVITE sends does not cancel it. It is sent as a request of a new transaction, with a branch of its own, while the user agent that holds the INVITE looks for the branch of the INVITE: the CANCEL is left to the endpoint and the INVITE stays unanswered. The INVITE was sent without a Via header of its own, the two transactions have drawn different branches, and no other INVITE waits under the key of the CANCEL.\<close>

theorem own_cancel_ignored:
  assumes T: "ip6_text_ok (env_ip6 env)"
    and sent: "send_invite env select tx self req random True now = Some (Inr (), out, self1, tx1)" "ii_transaction self1 = Some invite_tsx"
      "entry (rq_headers req) VIA = None"
    and cancelled: "cancel_send env select tx2 self1 random' True now' = Some (Inr cancel_tsx, self2, tx3)"
    and via: "via_source_ok (op_transport (oq_parts (cl_request cancel_tsx))) (tt_via_host_port (cb_target_tp_info (dialog_builder self)))"
    and random: "list_all is_alphanumeric random" "list_all is_alphanumeric random'" "random \<noteq> random'"
    and received: "received_as (env_ip6 env) tp (ci_request invite_tsx) invite" "received_as (env_ip6 env) tp' (cl_request cancel_tsx) cancel"
    and new: "acceptor_new slot_insert ua dialog invite = Some (acc, ua')" and fresh: "cancellables ua (cancel_key cancel) = None"
  shows "handle_cancel (env_ip6 env) caps ua' cancel = Some (Inr [], Some cancel, ua') \<and> provisional ua' (ia_inner acc)"
proof -
  let ?hp = "tt_via_host_port (cb_target_tp_info (dialog_builder self))"
  obtain t d where t: "values_of (oq_headers (ci_request invite_tsx)) VIA = [via_print (env_ip6 env) (create_via t (client_key random INVITE) ?hp)]"
      "cb_target_tp_info (dialog_builder self1) = (cb_target_tp_info (dialog_builder self))\<lparr>tt_transport := Some (t, d)\<rparr>"
    using invite_sent_via[OF sent] by auto
  have c: "values_of (oq_headers (cl_request cancel_tsx)) VIA = [via_print (env_ip6 env) (create_via t (client_key random' CANCEL) ?hp)]"
    "op_transport (oq_parts (cl_request cancel_tsx)) = t" using cancel_sent_via[OF cancelled t(2)] by auto
  have "key_branch (ir_tsx_key invite) = generate_branch random" "key_branch (ir_tsx_key cancel) = generate_branch random'"
    using received_as_branch[OF T t(1) _ random(1) received(1)] received_as_branch[OF T c(1) _ random(2) received(2)] via c(2) by simp_all
  then have "cancel_key invite \<noteq> cancel_key cancel" using random(3) by (auto simp: cancel_key_def generate_branch_def)
  moreover have "cancellables ua' = (cancellables ua)(cancel_key invite \<mapsto> ia_inner acc) \<and> provisional ua' (ia_inner acc)"
    using new by (auto simp: acceptor_new_def Let_def bind_eq_Some_conv register_usage_def case_prod_beta put_inner_def cancel_key_def
        provisional_def new_inner_def split: if_splits)
  ultimately have "cancellables ua' (cancel_key cancel) = None" "provisional ua' (ia_inner acc)" using fresh by auto
  then show ?thesis by (simp add: handle_cancel_def Let_def cancel_key_def)
qed

section \<open>Examples\<close>

definition sample_initiator :: InviteInitiator where
  "sample_initiator = initiator_new 5 (ascii ''t1'') (ascii ''c1'') (ct_uri sample_contact) sample_contact (na_uri (ct_uri sample_contact))"

definition tagged_ok :: TsxResponse where
  "tagged_ok = sample_ok\<lparr>tr_base := (ir_base (sample_request sample_via))\<lparr>bh_to := sample_from\<rparr>, tr_headers := invite_headers\<rparr>"

definition first_slot :: "nat slots \<Rightarrow> nat \<Rightarrow> nat \<times> nat slots" where
  "first_slot us u = (length us, us @ [(length us, u)])"

definition empty_ua :: UserAgent where
  "empty_ua = sample_ua\<lparr>inners := (\<lambda>_. None), next_address := 0\<rparr>"

lemma no_session_expires: "headers_try_get invite_headers SESSION_EXPIRES (decode_first session_expires_parse) = None"
  by code_simp

lemma tagged_ok_readable:
  "headers_get (tr_headers tagged_ok) CONTACT (decode_first (contact_parse (env_ip6 sample_env))) = Inr (shown_contact sample_contact)"
  "create_timer_from_response 0 tagged_ok = Inr new_unsupported"
proof -
  show "headers_get (tr_headers tagged_ok) CONTACT (decode_first (contact_parse (env_ip6 sample_env))) = Inr (shown_contact sample_contact)"
    using contact_read [OF decimal_ip6_ok sample_builder_wf(2)]
    by (simp add: tagged_ok_def invite_headers_def sample_env_def headers_get_single [OF builder_request_values] sample_builder_def builder_new_def)
  show "create_timer_from_response 0 tagged_ok = Inr new_unsupported"
    by (simp add: create_timer_from_response_def tagged_ok_def no_session_expires)
qed

theorem bye_ends_session_witness:
  "\<exists>session ua' ua2 ua3. initiator_handle sample_env first_slot 0 True sample_initiator tagged_ok empty_ua (\<lambda>_. None)
      = Some (Done (Return (Inr (RespSession session tagged_ok)), [], sample_initiator, ua', \<lambda>_. None))
    \<and> usage_receive decimal_ip6 sample_caps (is_inner session) (asking BYE 8 []) ua' = Some (Done ([], None, ua2))
    \<and> events_drain 2 ua2 session = Some ([Some (ByeReceived (asking BYE 8 [])), None], ua3)"
proof -
  have "rl_method (ir_line (asking BYE 8 [])) = BYE" "ir_tsx (asking BYE 8 []) = Some sample_registration" by (simp_all add: asking_def)
  moreover have "200 \<le> sl_code (tr_line tagged_ok)" "sl_code (tr_line tagged_ok) \<le> 299" "ft_tag (bh_to (tr_base tagged_ok)) = Some (the (ft_tag sample_from))"
    "map_of (created_sessions sample_initiator) (the (ft_tag sample_from)) = None" "map_of (early_list sample_initiator) (the (ft_tag sample_from)) = None"
    "ft_tag (cb_local_fromto (dialog_builder sample_initiator)) \<noteq> None"
    by (simp_all add: tagged_ok_def sample_ok_def sample_from_def sample_initiator_def initiator_new_def builder_new_def)
  ultimately obtain session ua' where s: "initiator_handle sample_env first_slot 0 True sample_initiator tagged_ok empty_ua (\<lambda>_. None)
      = Some (Done (Return (Inr (RespSession session tagged_ok)), [], sample_initiator, ua', \<lambda>_. None))" "established ua' session []"
      "\<forall>ua1 q. established ua1 session q \<and> length q < 4 \<longrightarrow>
        (\<exists>ua2 ua3. usage_receive decimal_ip6 sample_caps (is_inner session) (asking BYE 8 []) ua1 = Some (Done ([], None, ua2))
          \<and> events_drain (length q + 2) ua2 session = Some (map Some q @ [Some (ByeReceived (asking BYE 8 [])), None], ua3))"
    using bye_ends_session[OF _ _ _ _ _ tagged_ok_readable, of "the (ft_tag sample_from)" sample_initiator "asking BYE 8 []" sample_registration
        first_slot True empty_ua "\<lambda>_. None" decimal_ip6 sample_caps 0] by blast
  from s(3)[rule_format, of ua' "[]"] s(2)
  have "\<exists>ua2 ua3. usage_receive decimal_ip6 sample_caps (is_inner session) (asking BYE 8 []) ua' = Some (Done ([], None, ua2))
    \<and> events_drain 2 ua2 session = Some ([Some (ByeReceived (asking BYE 8 [])), None], ua3)" by (simp add: numeral_2_eq_2 del: events_drain.simps)
  with s(1) show ?thesis by blast
qed

definition sample_uac_session :: InviteSession where
  "sample_uac_session = \<lparr>is_inner = 0, is_role = Uac, is_events = 1, session_timer = new_unsupported,
     is_guard = \<lparr>ug_dialog_key = sample_dialog_key, ug_usage_key = 0\<rparr>, is_dialog = sample_uas_dialog\<rparr>"

theorem repeated_success_acked_again_witness:
  "\<exists>self' s2. set_acknowledge sample_initiator sample_uac_session (send_outgoing_request sample_env (sample_outgoing ACK)) = Some self'
     \<and> initiator_handle sample_env first_slot 0 True self' tagged_ok empty_ua (\<lambda>_. None)
       = Some (Done (NextResponse, [transmit_request (send_outgoing_request sample_env (sample_outgoing ACK))], s2, empty_ua, \<lambda>_. None))"
proof -
  obtain self' where "set_acknowledge sample_initiator sample_uac_session (send_outgoing_request sample_env (sample_outgoing ACK)) = Some self'"
    by (simp add: set_acknowledge_def sample_uac_session_def sample_uas_dialog_def sample_from_def)
  moreover have "ft_tag (bh_to (tr_base tagged_ok)) = ft_tag (peer_fromto (is_dialog sample_uac_session))" "200 \<le> sl_code (tr_line tagged_ok)" "sl_code (tr_line tagged_ok) \<le> 299"
    by (simp_all add: tagged_ok_def sample_ok_def sample_uac_session_def sample_uas_dialog_def)
  ultimately show ?thesis
    using repeated_success_acked_again[of sample_initiator sample_uac_session sample_env "sample_outgoing ACK" self' tagged_ok first_slot 0 empty_ua "\<lambda>_. None" 0] by blast
qed

theorem ringing_is_ignored_witness:
  "\<exists>resp rbase. acceptor_create_response decimal_ip6 sample_caps (empty_ua\<lparr>inners := [0 \<mapsto> sample_inner\<lparr>in_state :=
       UasProvisional sample_uas_dialog \<lparr>si_registration = sample_registration\<rparr> sample_invite\<rparr>]\<rparr>) sample_acceptor 180 None = Some (Inr resp)
    \<and> extract_from decimal_ip6 (or_headers resp) = Inr rbase
    \<and> initiator_handle sample_env first_slot 0 True sample_initiator (sample_ok\<lparr>tr_line := \<lparr>sl_code = 180, sl_reason = None\<rparr>, tr_base := rbase, tr_headers := or_headers resp\<rparr>) empty_ua (\<lambda>_. None)
      = Some (Done (NextResponse, [], sample_initiator, empty_ua, \<lambda>_. None))"
proof -
  have T: "ip6_text_ok (env_ip6 sample_env)" using decimal_ip6_ok by (simp add: sample_env_def)
  have base: "ir_base sample_invite = \<lparr>bh_via = [sample_via], bh_from = shown (cb_local_fromto sample_builder), bh_to = shown (cb_peer_fromto sample_builder),
      bh_call_id = cb_call_id sample_builder, bh_cseq = \<lparr>cseq_num = cb_local_cseq sample_builder, cseq_method = INVITE\<rparr>\<rparr>"
    using builder_request_base [OF decimal_ip6_ok sample_builder_wf(1) sample_wf(1), of INVITE] by (simp add: invite_headers_def sample_invite_def)
  have wf: "from_to_wf (shown (cb_local_fromto sample_builder))" "from_to_wf (shown (cb_peer_fromto sample_builder))" "trim (cb_call_id sample_builder) = cb_call_id sample_builder"
    using sample_builder_wf(1) shown_wf by (simp_all add: builder_wf_def)
  have "ft_tag (cb_peer_fromto sample_builder) = None" by (simp add: sample_builder_def builder_new_def)
  then show ?thesis
    using ringing_is_ignored[OF T, of sample_invite 180 sample_caps "empty_ua\<lparr>inners := [0 \<mapsto> sample_inner\<lparr>in_state :=
        UasProvisional sample_uas_dialog \<lparr>si_registration = sample_registration\<rparr> sample_invite\<rparr>]\<rparr>" sample_acceptor _ _ _ None first_slot 0 True
        sample_initiator sample_ok empty_ua "\<lambda>_. None"] wf sample_wf(1)
    by (simp add: base sample_env_def sample_caps_def sample_acceptor_def) (simp add: sample_invite_def)
qed

lemma length_apart: "list_all (\<lambda>n. \<not> name_eq n CONTENT_LENGTH \<and> \<not> name_eq CONTENT_LENGTH n) dialog_names"
  by code_simp

lemma started_request_received:
  assumes q: "start_request sample_env tx random m None q = Some (reg, q', tx')" "oq_headers q = rq_headers (builder_create_request decimal_ip6 sample_builder m)"
      "op_transport (oq_parts q) = udp" "op_buffer (oq_parts q) = []"
    and ok: "list_all is_alphanumeric random" "method_wf m"
  shows "\<exists>r. received_as decimal_ip6 (rm_tp_info (sample_message [])) q' r \<and> ir_line r = oq_line q \<and> ir_tsx r = Some sample_registration"
proof -
  let ?v = "create_via udp (client_key random m) None"
  have "via_source_ok udp None" by code_simp
  then have v: "via_wf ?v" using create_via_wf ok(1) by blast
  have h: "oq_headers q' = headers_insert (sent_headers decimal_ip6 ?v (builder_create_request decimal_ip6 sample_builder m)) CONTENT_LENGTH (decimal (length (oq_body q)))"
      "oq_line q' = oq_line q"
    using q by (auto simp: start_request_def send_outgoing_request_def sample_env_def registration_create_def Let_def case_prod_beta)
  have "\<exists>base. extract_from decimal_ip6 (oq_headers q') = Inr base \<and> bh_via base = [?v]"
    using sample_builder_wf(1) ok(2) v length_apart
    by (subst extract_printed[OF decimal_ip6_ok, where vs = "[?v]" and f = "cb_local_fromto sample_builder" and t = "cb_peer_fromto sample_builder"
          and call_id = "cb_call_id sample_builder" and c = "\<lparr>cseq_num = cb_local_cseq sample_builder, cseq_method = m\<rparr>"])
       (simp_all add: h builder_wf_def builder_create_request_def Let_def insertion_simps names_eq headers_insert_def dialog_names_def)
  then obtain base where base: "extract_from decimal_ip6 (oq_headers q') = Inr base" "bh_via base = [?v]" by blast
  let ?base = "base\<lparr>bh_via := [add_received_rport decimal_ip6 ?v (mi_source (rm_tp_info (sample_message [])))]\<rparr>"
  have "\<exists>key. from_headers ?base ServerRole = Some (Inr key)"
    by (simp add: from_headers_def received_keeps create_via_branch generate_branch_def tag_def)
  then obtain key where "from_headers ?base ServerRole = Some (Inr key)" by blast
  then show ?thesis
    using base h(2)
    by (intro exI[of _ "\<lparr>ir_tp_info = rm_tp_info (sample_message []), ir_tsx_key = key, ir_tsx = Some sample_registration, ir_line = oq_line q,
          ir_base = ?base, ir_headers = oq_headers q', ir_body = oq_body q'\<rparr>"])
       (simp add: received_as_def message_key_def received_base_def)
qed

definition dialog_ua :: UserAgent where
  "dialog_ua = empty_ua\<lparr>dialogs := [sample_dialog_key \<mapsto> \<lparr>backlog = [], next_peer_cseq = None, usages = []\<rparr>]\<rparr>"

definition sample_select :: "SipUri \<Rightarrow> (CoreError, TpHandle \<times> SocketAddr) result" where
  "sample_select uri = Inr (udp, SockV4 2 9)"

abbreviation sample_builder_request :: "SipMethod \<Rightarrow> Request" where
  "sample_builder_request \<equiv> builder_create_request decimal_ip6 sample_builder"

lemma start_possible: "\<exists>reg q' tx'. start_request sample_env no_transactions random m hp q = Some (reg, q', tx')"
  by (simp add: start_request_def registration_create_def no_transactions_def unbounded_channel_def register_transaction_def Let_def)

lemma sample_invite_sent:
  "\<exists>out self1 tx1 tsx r. send_invite sample_env sample_select no_transactions sample_initiator (sample_builder_request INVITE) (ascii ''a1'') True 0
      = Some (Inr (), out, self1, tx1) \<and> ii_transaction self1 = Some tsx
    \<and> dialog_builder self1 = sample_builder\<lparr>cb_target_tp_info := no_target\<lparr>tt_transport := Some (udp, SockV4 2 9)\<rparr>\<rparr>
    \<and> received_as decimal_ip6 (rm_tp_info (sample_message [])) (ci_request tsx) r \<and> rl_method (ir_line r) = INVITE \<and> ir_tsx r = Some sample_registration"
proof -
  let ?q = "\<lparr>oq_line = rq_line (sample_builder_request INVITE), oq_headers = rq_headers (sample_builder_request INVITE), oq_body = [],
    oq_parts = \<lparr>op_transport = udp, op_destination = SockV4 2 9, op_buffer = []\<rparr>\<rparr>"
  obtain reg q' tx' where q': "start_request sample_env no_transactions (ascii ''a1'') INVITE None ?q = Some (reg, q', tx')" using start_possible by blast
  have "list_all is_alphanumeric (ascii ''a1'')" "method_wf INVITE" by code_simp+
  from started_request_received[OF q' _ _ _ this] show ?thesis
    using q' by (auto simp: send_invite_def create_outgoing_def sample_select_def client_inv_send_def Let_def builder_create_request_def
        sample_initiator_def initiator_new_def sample_builder_def builder_new_def no_target_def)
qed

lemma sample_cancel_sent:
  assumes "dialog_builder self = sample_builder\<lparr>cb_target_tp_info := no_target\<lparr>tt_transport := Some (udp, SockV4 2 9)\<rparr>\<rparr>"
  shows "\<exists>tsx self2 tx2 r. cancel_send sample_env sample_select no_transactions self (ascii ''a2'') True 0 = Some (Inr tsx, self2, tx2)
    \<and> op_transport (oq_parts (cl_request tsx)) = udp \<and> received_as decimal_ip6 (rm_tp_info (sample_message [])) (cl_request tsx) r"
proof -
  let ?q = "\<lparr>oq_line = rq_line (sample_builder_request CANCEL), oq_headers = rq_headers (sample_builder_request CANCEL), oq_body = [],
    oq_parts = \<lparr>op_transport = udp, op_destination = SockV4 2 9, op_buffer = []\<rparr>\<rparr>"
  obtain reg q' tx' where q': "start_request sample_env no_transactions (ascii ''a2'') CANCEL None ?q = Some (reg, q', tx')" using start_possible by blast
  have "list_all is_alphanumeric (ascii ''a2'')" "method_wf CANCEL" by code_simp+
  from started_request_received[OF q' _ _ _ this] obtain r where r: "received_as decimal_ip6 (rm_tp_info (sample_message [])) q' r" by auto
  have "cancel_send sample_env sample_select no_transactions self (ascii ''a2'') True 0
    = Some (Inr \<lparr>cl_registration = Some reg, cl_request = q', cl_timeout = 0 + T1 * 64, cl_state = ClientInit\<rparr>, self, tx')"
    using q' assms by (simp add: cancel_send_def create_outgoing_def client_send_def Let_def builder_create_request_def sample_env_def no_target_def)
  then show ?thesis using r start_request_parts(1)[OF q'] by auto
qed

theorem own_cancel_ignored_witness:
  "\<exists>out self1 tx1 itsx ctsx self2 tx2 invite cancel acc ua'.
     send_invite sample_env sample_select no_transactions sample_initiator (sample_builder_request INVITE) (ascii ''a1'') True 0 = Some (Inr (), out, self1, tx1)
   \<and> ii_transaction self1 = Some itsx
   \<and> cancel_send sample_env sample_select no_transactions self1 (ascii ''a2'') True 0 = Some (Inr ctsx, self2, tx2)
   \<and> received_as decimal_ip6 (rm_tp_info (sample_message [])) (ci_request itsx) invite
   \<and> received_as decimal_ip6 (rm_tp_info (sample_message [])) (cl_request ctsx) cancel
   \<and> acceptor_new first_slot dialog_ua sample_uas_dialog invite = Some (acc, ua')
   \<and> handle_cancel decimal_ip6 sample_caps ua' cancel = Some (Inr [], Some cancel, ua') \<and> provisional ua' (ia_inner acc)"
proof -
  obtain out self1 tx1 itsx invite where i: "send_invite sample_env sample_select no_transactions sample_initiator (sample_builder_request INVITE) (ascii ''a1'') True 0
      = Some (Inr (), out, self1, tx1)" "ii_transaction self1 = Some itsx"
      "dialog_builder self1 = sample_builder\<lparr>cb_target_tp_info := no_target\<lparr>tt_transport := Some (udp, SockV4 2 9)\<rparr>\<rparr>"
      "received_as decimal_ip6 (rm_tp_info (sample_message [])) (ci_request itsx) invite" "rl_method (ir_line invite) = INVITE" "ir_tsx invite = Some sample_registration"
    using sample_invite_sent by blast
  obtain ctsx self2 tx2 cancel where c: "cancel_send sample_env sample_select no_transactions self1 (ascii ''a2'') True 0 = Some (Inr ctsx, self2, tx2)"
      "op_transport (oq_parts (cl_request ctsx)) = udp" "received_as decimal_ip6 (rm_tp_info (sample_message [])) (cl_request ctsx) cancel"
    using sample_cancel_sent[OF i(3)] by blast
  have "dialog_key sample_uas_dialog = Some sample_dialog_key" by (simp add: dialog_key_def sample_uas_dialog_def sample_from_def sample_dialog_key_def)
  then obtain acc ua' where new: "acceptor_new first_slot dialog_ua sample_uas_dialog invite = Some (acc, ua')"
    using i(5,6) by (simp add: acceptor_new_def server_inv_new_def take_tsx_registration_def Let_def register_usage_def dialog_ua_def
        put_inner_def first_slot_def)
  have "cancellables dialog_ua k = None" for k by (simp add: dialog_ua_def empty_ua_def sample_ua_def)
  moreover have "list_all is_alphanumeric (ascii ''a1'')" "list_all is_alphanumeric (ascii ''a2'')" "ascii ''a1'' \<noteq> ascii ''a2''" "via_source_ok udp None" by code_simp+
  moreover have "entry (rq_headers (sample_builder_request INVITE)) VIA = None"
    by (simp add: builder_create_request_def Let_def insertion_simps names_eq)
  moreover have "env_ip6 sample_env = decimal_ip6" "tt_via_host_port (cb_target_tp_info (dialog_builder sample_initiator)) = None"
    by (simp_all add: sample_env_def sample_initiator_def initiator_new_def builder_new_def no_target_def)
  ultimately have "handle_cancel decimal_ip6 sample_caps ua' cancel = Some (Inr [], Some cancel, ua') \<and> provisional ua' (ia_inner acc)"
    using own_cancel_ignored[OF _ i(1,2) _ c(1) _ _ _ _ _ _ new, where caps = sample_caps] i(4) c(2,3) decimal_ip6_ok by metis
  then show ?thesis using i(1,2,4) c(1,3) new by blast
qed

end
