(* ===== verification/Ua_Register.thy ===== *)
theory Ua_Register
  imports Ua_Timer Ua_Agreement
begin

text \<open>
  The client of a registrar (\<^verbatim>\<open>sip/sip-ua/src/register/mod.rs\<close>): the REGISTER requests it creates,
  how it takes over the expiry that the registrar answers with, and when it registers again.
\<close>

section \<open>Registration\<close>

definition EXPIRES :: Name where "EXPIRES = Name (ascii ''Expires'') (Some [ascii ''expires''])"
definition MIN_EXPIRES :: Name where "MIN_EXPIRES = Name (ascii ''Min-Expires'') (Some [ascii ''min-expires''])"

text \<open>An \<^verbatim>\<open>Interval\<close> of tokio that delays ticks which were missed: the next tick and the period.\<close>

record Interval =
  next_tick :: instant
  period :: duration

definition create_reg_interval :: "instant \<Rightarrow> duration \<Rightarrow> Interval" where
  "create_reg_interval now p =
     (let p = max p (from_secs 20);
          p = p - from_secs 10 in
      \<lparr>next_tick = now + p, period = p\<rparr>)"

record Registration =
  registrar :: SipUri
  rg_to :: FromTo
  rg_from :: FromTo
  rg_cseq :: u32
  rg_call_id :: bytes
  rg_contact :: Contact
  rg_expires :: duration
  register_interval :: Interval

definition registration_new :: "u32 \<Rightarrow> bytes \<Rightarrow> bytes \<Rightarrow> instant \<Rightarrow> NameAddr \<Rightarrow> Contact \<Rightarrow> SipUri \<Rightarrow> duration \<Rightarrow> Registration" where
  "registration_new random_number random_tag random_id now addr contact reg expiry =
     \<lparr>registrar = reg, rg_to = \<lparr>ft_uri = addr, ft_tag = None, ft_params = []\<rparr>,
      rg_from = \<lparr>ft_uri = addr, ft_tag = Some random_tag, ft_params = []\<rparr>, rg_cseq = random_number, rg_call_id = random_id,
      rg_contact = contact, rg_expires = expiry, register_interval = create_reg_interval now expiry\<rparr>"

definition as_secs :: "duration \<Rightarrow> nat" where
  "as_secs d = d div 1000000000"

definition create_register :: "Ip6Text \<Rightarrow> Registration \<Rightarrow> bool \<Rightarrow> (Request \<times> Registration) panics" where
  "create_register T self remove_binding =
     (let request = request_new REGISTER (registrar self);
          headers = insert_type (rq_headers request) FROM (replacing_value (from_to_print T None (rg_from self)));
          headers = insert_type headers TO (replacing_value (from_to_print T None (rg_to self)));
          headers = insert_type headers CALL_ID (replacing_value (rg_call_id self)) in
      map_option (\<lambda>cseq.
        let self = self\<lparr>rg_cseq := cseq\<rparr>;
            headers = insert_type headers CSEQ (replacing_value (cseq_print \<lparr>cseq_num = cseq, cseq_method = REGISTER\<rparr>));
            expires = (if remove_binding then 0 else of_nat (as_secs (rg_expires self)));
            headers = insert_type headers EXPIRES (replacing_value (number_header_print expires));
            headers = insert_type headers CONTACT (comma_value (contact_print T None (rg_contact self))) in
        (request\<lparr>rq_headers := headers\<rparr>, self)) (checked_succ (rg_cseq self)))"

definition receive_success_response :: "instant \<Rightarrow> Registration \<Rightarrow> TsxResponse \<Rightarrow> Registration panics" where
  "receive_success_response now self response =
     (if code_kind (sl_code (tr_line response)) \<noteq> CodeSuccess then None
      else let self = (case headers_get (tr_headers response) EXPIRES (decode_first number_header_parse) of
                Inl _ \<Rightarrow> self
              | Inr n \<Rightarrow> let e = from_secs (unat n) in
                  if rg_expires self \<noteq> e then self\<lparr>register_interval := create_reg_interval now e, rg_expires := e\<rparr> else self) in
        Some (if ft_tag (rg_to self) = None then self\<lparr>rg_to := (rg_to self)\<lparr>ft_tag := ft_tag (bh_to (tr_base response))\<rparr>\<rparr> else self))"

definition receive_error_response :: "instant \<Rightarrow> Registration \<Rightarrow> TsxResponse \<Rightarrow> bool \<times> Registration" where
  "receive_error_response now self response =
     (if code_kind (sl_code (tr_line response)) \<noteq> RequestFailure then (False, self)
      else case headers_get (tr_headers response) MIN_EXPIRES (decode_first number_header_parse) of
        Inl _ \<Rightarrow> (False, self)
      | Inr n \<Rightarrow> let e = from_secs (unat n) in (True, self\<lparr>rg_expires := e, register_interval := create_reg_interval now e\<rparr>))"

text \<open>
  \<^verbatim>\<open>wait_for_expiry\<close>: \<open>None\<close> while it has to wait. A tick that is more than five milliseconds late
  counts as missed and delays the next.
\<close>

definition wait_for_expiry :: "instant \<Rightarrow> Registration \<Rightarrow> Registration option" where
  "wait_for_expiry now self =
     (let i = register_interval self in
      if now < next_tick i then None
      else Some (self\<lparr>register_interval := i\<lparr>next_tick :=
        (if next_tick i + from_millis 5 < now then now else next_tick i) + period i\<rparr>\<rparr>))"

section \<open>When the client registers again\<close>

inductive registration_run :: "Registration \<Rightarrow> instant \<Rightarrow> bool" where
  New: "registration_run (registration_new n tag' cid now addr contact reg expiry) now"
| Later: "registration_run self now \<Longrightarrow> now \<le> now' \<Longrightarrow> registration_run self now'"
| Register: "registration_run self now \<Longrightarrow> create_register T self rm = Some (req, self') \<Longrightarrow> registration_run self' now"
| Success: "registration_run self now \<Longrightarrow> receive_success_response now self response = Some self' \<Longrightarrow> registration_run self' now"
| Failure: "registration_run self now \<Longrightarrow> receive_error_response now self response = (retry, self') \<Longrightarrow> registration_run self' now"
| Tick: "registration_run self now \<Longrightarrow> wait_for_expiry now self = Some self' \<Longrightarrow> registration_run self' now"

text \<open>C40: at any time the client registers again within the time after which its registration expires, less ten seconds, or within ten seconds if that is less; the interval of its registrations is never less than ten seconds.\<close>

theorem registers_again_in_time:
  assumes "registration_run self now"
  shows "period (register_interval self) = max (rg_expires self) (from_secs 20) - from_secs 10
    \<and> from_secs 10 \<le> period (register_interval self) \<and> next_tick (register_interval self) \<le> now + period (register_interval self)"
  using assms
proof (induction rule: registration_run.induct)
  case (Success self now response self')
  then show ?case
    by (auto simp: receive_success_response_def create_reg_interval_def Let_def split: if_splits sum.splits)
next
  case (Tick self now self')
  have "rg_expires self' = rg_expires self" "period (register_interval self') = period (register_interval self)"
    "next_tick (register_interval self') \<le> now + period (register_interval self)"
    using Tick.hyps(2) by (auto simp: wait_for_expiry_def Let_def split: if_splits)
  with Tick.IH show ?case by metis
qed (auto simp: registration_new_def create_reg_interval_def create_register_def receive_error_response_def wait_for_expiry_def Let_def
    split: if_splits sum.splits)

lemma register_names_apart: "\<not> name_eq EXPIRES FROM" "\<not> name_eq EXPIRES TO" "\<not> name_eq EXPIRES CALL_ID" "\<not> name_eq EXPIRES CSEQ" "\<not> name_eq EXPIRES CONTACT"
  "\<not> name_eq CONTACT EXPIRES" "\<not> name_eq FROM EXPIRES" "\<not> name_eq TO EXPIRES" "\<not> name_eq CALL_ID EXPIRES" "\<not> name_eq CSEQ EXPIRES" "name_eq EXPIRES EXPIRES"
  by code_simp+

text \<open>after the registrar has confirmed that a binding is removed, naming an expiry of zero, the client cannot register any more: every further REGISTER that it creates asks for an expiry of zero, whether or not it is meant to remove the binding.\<close>

theorem unregistered_for_good:
  assumes "code_kind (sl_code (tr_line response)) = CodeSuccess" "headers_get (tr_headers response) EXPIRES (decode_first number_header_parse) = Inr 0"
    and "rg_cseq self \<noteq> - 1"
  shows "\<exists>self' req self''. receive_success_response now self response = Some self' \<and> create_register T self' False = Some (req, self'')
    \<and> values_of (rq_headers req) EXPIRES = [number_header_print 0]"
proof -
  define h where "h self' \<longleftrightarrow> rg_expires self' = 0 \<and> rg_cseq self' = rg_cseq self" for self' :: Registration
  have "\<exists>self'. receive_success_response now self response = Some self' \<and> h self'"
    using assms(1,2) by (simp add: receive_success_response_def Let_def h_def)
  then obtain self' where self': "receive_success_response now self response = Some self'" "rg_expires self' = 0" "rg_cseq self' = rg_cseq self"
    by (auto simp: h_def)
  then show ?thesis using assms(3)
    by (simp add: create_register_def Let_def checked_succ_def as_secs_def request_new_def insertion_simps names_eq register_names_apart)
qed

section \<open>Examples\<close>

definition sample_reg :: Registration where
  "sample_reg = registration_new 5 (ascii ''t1'') (ascii ''c1'') 0 (ct_uri sample_contact) sample_contact (na_uri (ct_uri sample_contact)) (from_secs 300)"

definition removed :: TsxResponse where
  "removed = sample_ok\<lparr>tr_headers := [\<lparr>en_name = EXPIRES, en_values = One (ascii ''0'')\<rparr>]\<rparr>"

theorem registers_again_in_time_witness:
  "registration_run sample_reg 0 \<and> next_tick (register_interval sample_reg) \<le> from_secs 290"
proof -
  have run: "registration_run sample_reg 0" unfolding sample_reg_def by (rule New)
  moreover have "rg_expires sample_reg = from_secs 300" by (simp add: sample_reg_def registration_new_def)
  ultimately show ?thesis using registers_again_in_time[OF run] by simp
qed

theorem unregistered_for_good_witness:
  "\<exists>self' req self''. receive_success_response 9 sample_reg removed = Some self' \<and> create_register decimal_ip6 self' False = Some (req, self'')
    \<and> values_of (rq_headers req) EXPIRES = [number_header_print 0]"
proof -
  have "headers_get (tr_headers removed) EXPIRES (decode_first number_header_parse) = Inr 0" by code_simp
  then show ?thesis
    using unregistered_for_good[of removed sample_reg 9 decimal_ip6]
    by (simp add: removed_def sample_ok_def code_kind_def sample_reg_def registration_new_def)
qed

end
