(* ===== verification/Spec2Isabelle.thy ===== *)
theory Spec2Isabelle
  imports Rtp_Counters Rtp_Packet Jitter_Buffer Stun_Integrity Ice_Checks Sip_Client_Tsx Sip_Server_Tsx Sip_Wire Ua_Calls Ua_Register
begin

text \<open>
  Verification of ezk, a library for telephony and media over IP written in Rust. The
  development models the parts that carry its protocol logic: RTP packets and the jitter
  buffer, STUN messages, the ICE agent, SIP messages, transactions, dialogs, calls and
  registrations.

  \<^bold>\<open>The parts and how they interact.\<close> A SIP message arrives as a datagram or as a piece of a
  stream. The framing (\<^verbatim>\<open>sip-core/src/transport\<close>) finds the message in it, the parsers of
  \<^verbatim>\<open>sip-types\<close> read its line and headers, and the endpoint hands it to the transaction with its
  key, or offers it to the layers (\<^verbatim>\<open>sip-core/src/transaction\<close>, \<^verbatim>\<open>endpoint.rs\<close>). The layer of
  dialogs sorts requests by their numbers and offers them to the usages of the dialog; the
  usage of an INVITE session passes them on to the acceptor or the session, through a state
  that these objects share (\<^verbatim>\<open>sip-ua/src\<close>). What a session transmits goes through a transaction
  and its timers back to a transport. Independently of SIP, the ICE agent (\<^verbatim>\<open>media/ice\<close>) finds
  a path for media by exchanging STUN messages (\<^verbatim>\<open>media/stun-types\<close>), and RTP packets
  (\<^verbatim>\<open>media/rtp\<close>) pass through a jitter buffer on their way to the user.

  \<^bold>\<open>Theories and sources.\<close>

    \<^item> \<open>Prelude\<close>: fixed-width integers, byte buffers, network byte order, results, panics,
      durations; the facts that all theories share.
    \<^item> \<open>Rtp_Counters\<close> (\<^verbatim>\<open>media/rtp/src/lib.rs\<close>): sequence numbers, timestamps and their extended
      forms. \<open>Rtp_Packet\<close> (\<^verbatim>\<open>extensions.rs\<close>, \<^verbatim>\<open>rtp_packet.rs\<close>): header extensions in both layouts
      and packets. \<open>Jitter_Buffer\<close> (\<^verbatim>\<open>session/jitter_buffer.rs\<close>): the queue with vacant entries.
    \<^item> \<open>Stun_Header\<close>, \<open>Stun_Message\<close>, \<open>Stun_Attributes\<close>, \<open>Stun_Integrity\<close>
      (\<^verbatim>\<open>media/stun-types/src\<close>): head, parser and builder, every attribute, the keyed digests and
      the fingerprint with its table-driven CRC-32.
    \<^item> \<open>Ice_Stun\<close>, \<open>Ice_Agent\<close> (\<^verbatim>\<open>media/ice/src\<close>): the messages of the agent, its bindings to STUN
      servers, its state and all of its operations. \<open>Ice_Safety\<close> has what holds in every reachable
      agent, \<open>Ice_Checks\<close> what single operations do.
    \<^item> \<open>Sip_Headers\<close>, \<open>Sip_Types\<close>, \<open>Sip_Params\<close>, \<open>Sip_Uri\<close>, \<open>Sip_Message\<close>
      (\<^verbatim>\<open>sip/sip-types/src\<close>): the header map, methods and codes, parameters, hosts, URIs, the basic
      headers, the pull parser and the first lines. \<open>Sip_Roundtrip\<close> relates printing and parsing.
    \<^item> \<open>Sip_Tsx_Key\<close>, \<open>Sip_Endpoint\<close>, \<open>Sip_Dispatch\<close>, \<open>Sip_Tsx_Base\<close>, \<open>Sip_Client_Tsx\<close>,
      \<open>Sip_Server_Tsx\<close> (\<^verbatim>\<open>sip/sip-core/src\<close>): transaction keys, the table of transactions, who owns
      its entries, printing and transmitting, and the four transactions with their timers.
    \<^item> \<open>Sip_Framing\<close> (\<^verbatim>\<open>transport/parse.rs\<close>, \<^verbatim>\<open>transport/streaming/decode.rs\<close>): datagrams and streams.
      \<open>Sip_Wire\<close> joins it with printing: what is sent is what is received.
    \<^item> \<open>Ua_Dialog\<close> (\<^verbatim>\<open>sip/sip-ua/src/dialog\<close>): dialogs, their keys, the backlog and the usages.
      \<open>Ua_Agreement\<close> relates the dialogs of the two ends.
    \<^item> \<open>Ua_Timer\<close>, \<open>Ua_Invite\<close>, \<open>Ua_Initiator\<close> (\<^verbatim>\<open>sip/sip-ua/src/invite\<close>): session timers; the shared
      state, CANCEL, the usage, the acceptor and the session; the initiator and its early dialogs.
      \<open>Ua_Session\<close> and \<open>Ua_Calls\<close> have the properties of calls.
    \<^item> \<open>Ua_Register\<close> (\<^verbatim>\<open>sip/sip-ua/src/register\<close>): the client of a registrar.

  \<^bold>\<open>How the program is represented.\<close> Structs are records, enums datatypes, integers words of
  their width; \<^verbatim>\<open>usize\<close> has 64 bits. A failing function returns a sum, the error on the left; a
  panic, an arithmetic overflow that Rust checks included, is \<open>None\<close>. A method that changes
  its object returns the new object. Objects shared behind a lock, and channels, are entries of
  a map from addresses in the state of the endpoint or the user agent. Asynchronous functions
  are run on the list of the events that wake them up: what arrived or which timer elapsed, and
  when. Such a run ends with a value, stays pending when the list is used up, or is marked as
  not possible when an event contradicts what tokio documents of its timers (\<open>wait_ok\<close>).
  Dropping an object is an operation of its own.

  \<^bold>\<open>What is shown.\<close> RTP: the jitter buffer delivers packets in strictly increasing order and never
  twice, and what a pop removes. STUN: parsed spans tile the message; a sealed message is
  recognised and verified; a message passes only if its digest is right; attributes after the
  digest are hidden; the fast CRC is the bitwise one. ICE: pairs stay unique and sorted and at most
  one per component is nominated; reported states replay to the state of the agent; messages of
  one agent are accepted by the other; forged ones are ignored; a binding gives up. SIP
  messages and transactions: printed messages and headers are read back, over datagrams and
  streams; a response finds its transaction; live registrations own the entries of the table,
  so that its panics cannot happen, and receiving refines appending to queues; unanswered
  requests and failures give up within their bounds, failures are acknowledged. Dialogs and
  calls: both ends agree on the dialog and on its timers; requests in order are delivered in
  order; an INVITE is answered at most once under any interleaving; ACK, PRACK and BYE reach
  whom they are meant for; the next registration is due in time. A number of theorems state
  where the code departs from its intention, for instance requests that arrive early and are
  never delivered, CANCEL requests that match no INVITE, ringing responses that the client
  ignores, input that makes the program panic, and a stream cut at a place where the decoder
  loses a body.

  \<^bold>\<open>Interfaces.\<close> The locale \<open>wrapping_modulus\<close> covers both widths of RTP counters,
  \<open>ordered_buffer\<close> is what the user of the jitter buffer relies on, \<open>plain_attribute\<close> and
  \<open>sealing_attribute\<close> are the contracts of STUN attributes with and without a key, each
  interpreted for the attributes of the program, \<open>call_relation\<close> carries a relation through every
  call of the ICE agent, \<open>params_spec\<close> covers both kinds of parameters, and \<open>backoff\<close> with its
  extension \<open>retransmission\<close> covers the timers of the client transactions.

  \<^bold>\<open>Parameters.\<close> Code of other crates is an argument: the HMAC and the text form of IPv6 addresses
  (\<open>Ip6Text\<close>, with the hypothesis \<open>ip6_text_ok\<close> that printing and parsing agree), the order that
  an unstable sort chooses, the slot map of usages, layers and usages as traits, the choice
  of a transport, random numbers and strings, whether a transmission succeeds, and the time.
  Examples instantiate every one of them.

  \<^bold>\<open>Bounds.\<close> Recursions that are not structural have a termination proof by the input that is
  left. Where a parser repeats another parser, the recursion counts down from the length of the
  input, which each round shortens, so that it never runs out. Loops that wait are bounded by
  the list of events; that they end is a theorem about long enough lists.

  \<^bold>\<open>Not modelled.\<close> Sockets, TLS, DNS and the tasks around them (\<^verbatim>\<open>sip-core/src/transport\<close> except parsing
  and framing), which are input and output through other crates; the digests of SIP
  authentication, which are code of other crates, and the headers they are computed from; the
  headers that carry no protocol state; the session description (\<^verbatim>\<open>media/sdp-types\<close>), whose
  parsers follow the pattern of the modelled ones; media sessions (\<^verbatim>\<open>media/session\<close>), which are
  built around objects of OpenSSL and libsrtp; RTCP reports, whose packets are code of another
  crate and whose timestamps are floating-point numbers; the stand-alone STUN client. The locks
  of INVITE sessions are left out, which only adds interleavings. Logging is left out
  everywhere.
\<close>

end
